(* ===== verification/Arrakin_Prelude.thy ===== *)
theory Arrakin_Prelude
  imports Main "HOL-Library.Word" "HOL-Library.Signed_Division"
begin

text \<open>
  What the components of the settlement engine share: Go's 64-bit and 32-bit signed
  integers (as \<^typ>\<open>int\<close> with the wrap-around written out), the values of Go's
  \<^verbatim>\<open>error\<close> interface with \<^verbatim>\<open>errors.Is\<close> and \<^verbatim>\<open>err.Error()\<close>, the
  few functions of \<^verbatim>\<open>strings\<close> and \<^verbatim>\<open>fmt\<close> the engine calls, JSON payloads,
  the identifiers, and the collections of lemmas the component proofs use.
\<close>

section \<open>Collections\<close>

named_theorems go_arith \<open>wrap-around arithmetic that stays in range\<close>
named_theorems go_errors \<open>how the sentinel errors travel through wrapping\<close>

section \<open>Signed machine integers\<close>

definition wrap64 :: "int \<Rightarrow> int" where
  "wrap64 x = (x + 2 ^ 63) mod 2 ^ 64 - 2 ^ 63"

definition wrap32 :: "int \<Rightarrow> int" where
  "wrap32 x = (x + 2 ^ 31) mod 2 ^ 32 - 2 ^ 31"

definition in_int64 :: "int \<Rightarrow> bool" where
  "in_int64 x \<longleftrightarrow> - (2 ^ 63) \<le> x \<and> x < 2 ^ 63"

definition in_int32 :: "int \<Rightarrow> bool" where
  "in_int32 x \<longleftrightarrow> - (2 ^ 31) \<le> x \<and> x < 2 ^ 31"

abbreviation MaxInt64 :: int where
  "MaxInt64 \<equiv> 2 ^ 63 - 1"

lemma wrap64_id [go_arith]: "in_int64 x \<Longrightarrow> wrap64 x = x"
  by (simp add: wrap64_def in_int64_def)

lemma wrap32_id [go_arith]: "in_int32 x \<Longrightarrow> wrap32 x = x"
  by (simp add: wrap32_def in_int32_def)

lemma wrap64_in_int64 [simp, intro]: "in_int64 (wrap64 x)"
proof -
  have "0 \<le> (x + 2 ^ 63) mod 2 ^ 64" "(x + 2 ^ 63) mod 2 ^ 64 < 2 ^ 64"
    by simp_all
  then show ?thesis by (simp add: wrap64_def in_int64_def)
qed

lemma wrap32_in_int32 [simp, intro]: "in_int32 (wrap32 x)"
proof -
  have "0 \<le> (x + 2 ^ 31) mod 2 ^ 32" "(x + 2 ^ 31) mod 2 ^ 32 < 2 ^ 32"
    by simp_all
  then show ?thesis by (simp add: wrap32_def in_int32_def)
qed

text \<open>The wrap-around is two's complement on 64-bit words.\<close>

lemma wrap64_sint: "wrap64 x = sint (word_of_int x :: 64 word)"
proof -
  have "signed_take_bit 63 x = (x + 2 ^ 63) mod 2 ^ 64 - 2 ^ 63"
    by (simp add: signed_take_bit_eq_take_bit_shift take_bit_eq_mod)
  then show ?thesis
    by (simp add: wrap64_def sint_sbintrunc')
qed

lemma wrap64_add_wrap64 [simp]:
  "wrap64 (wrap64 x + y) = wrap64 (x + y)" "wrap64 (x + wrap64 y) = wrap64 (x + y)"
  by (simp_all add: wrap64_def algebra_simps mod_simps)

lemma wrap64_minus_wrap64 [simp]:
  "wrap64 (wrap64 x - y) = wrap64 (x - y)"
proof -
  have "((x + 2 ^ 63) mod 2 ^ 64 - 2 ^ 63 - y + 2 ^ 63) mod 2 ^ 64 = ((x + 2 ^ 63) mod 2 ^ 64 - y) mod 2 ^ 64"
    by simp
  also have "\<dots> = (x + 2 ^ 63 - y) mod 2 ^ 64"
    by (rule mod_diff_left_eq)
  finally show ?thesis
    by (simp add: wrap64_def algebra_simps)
qed

text \<open>Go's integer division truncates towards zero; on non-negative operands it is \<open>div\<close>.\<close>

lemma sdiv_nonneg [go_arith]: "0 \<le> a \<Longrightarrow> 0 \<le> b \<Longrightarrow> a sdiv b = a div (b :: int)"
  by (auto simp: signed_divide_int_def sgn_if)

section \<open>Go strings\<close>

text \<open>
  A Go string is a byte sequence. \<^verbatim>\<open>strings.TrimSpace\<close> strips the UTF-8 encodings of the
  runes \<^verbatim>\<open>unicode.IsSpace\<close> accepts, at both ends.
\<close>

definition space_runes :: "string list" where
  "space_runes = 
     [[CHR 0x09], [CHR 0x0A], [CHR 0x0B], [CHR 0x0C], [CHR 0x0D], [CHR 0x20],
      [CHR 0xC2, CHR 0x85], [CHR 0xC2, CHR 0xA0], [CHR 0xE1, CHR 0x9A, CHR 0x80],
      [CHR 0xE2, CHR 0x80, CHR 0x80], [CHR 0xE2, CHR 0x80, CHR 0x81], [CHR 0xE2, CHR 0x80, CHR 0x82], [CHR 0xE2, CHR 0x80, CHR 0x83],
      [CHR 0xE2, CHR 0x80, CHR 0x84], [CHR 0xE2, CHR 0x80, CHR 0x85], [CHR 0xE2, CHR 0x80, CHR 0x86], [CHR 0xE2, CHR 0x80, CHR 0x87],
      [CHR 0xE2, CHR 0x80, CHR 0x88], [CHR 0xE2, CHR 0x80, CHR 0x89], [CHR 0xE2, CHR 0x80, CHR 0x8A], [CHR 0xE2, CHR 0x80, CHR 0xA8],
      [CHR 0xE2, CHR 0x80, CHR 0xA9], [CHR 0xE2, CHR 0x80, CHR 0xAF], [CHR 0xE2, CHR 0x81, CHR 0x9F], [CHR 0xE3, CHR 0x80, CHR 0x80]]"

function strip_runes :: "string list \<Rightarrow> string \<Rightarrow> string" where
  "strip_runes rs s =
     (case find (\<lambda>r. r \<noteq> [] \<and> take (length r) s = r) rs of
        None \<Rightarrow> s
      | Some r \<Rightarrow> strip_runes rs (drop (length r) s))"
  by pat_completeness auto
termination
proof (relation "measure (\<lambda>(rs, s). length s)", goal_cases)
  case (2 rs s r)
  then have "r \<noteq> []" "take (length r) s = r"
    by (auto simp: find_Some_iff)
  then have "s \<noteq> []" by auto
  with \<open>r \<noteq> []\<close> show ?case by simp
qed simp

declare strip_runes.simps [simp del]

definition TrimSpace :: "string \<Rightarrow> string" where
  "TrimSpace s = rev (strip_runes (map rev space_runes) (rev (strip_runes space_runes s)))"

text \<open>
  \<^verbatim>\<open>strings.ToUpper\<close> has an ASCII path; a string with a byte above 127 goes through the
  Unicode tables, which are the argument \<open>up\<close>.
\<close>

definition is_ascii :: "string \<Rightarrow> bool" where
  "is_ascii s = list_all (\<lambda>c. (of_char c :: nat) < 128) s"

definition upper_char :: "char \<Rightarrow> char" where
  "upper_char c = (let n = (of_char c :: nat) in if 97 \<le> n \<and> n \<le> 122 then char_of (n - 32) else c)"

definition ToUpper :: "(string \<Rightarrow> string) \<Rightarrow> string \<Rightarrow> string" where
  "ToUpper up s = (if is_ascii s then map upper_char s else up s)"

text \<open>Decimal printing, \<^verbatim>\<open>%d\<close>.\<close>

fun dec_digits :: "nat \<Rightarrow> string" where
  "dec_digits n = (if n < 10 then [char_of (48 + n)]
     else dec_digits (n div 10) @ [char_of (48 + n mod 10)])"

declare dec_digits.simps [simp del]

definition itoa :: "int \<Rightarrow> string" where
  "itoa i = (if i < 0 then CHR ''-'' # dec_digits (nat (- i)) else dec_digits (nat i))"

section \<open>Errors\<close>

text \<open>
  Values of Go's \<^verbatim>\<open>error\<close>. The sentinels of \<^verbatim>\<open>store/errors.go\<close>,
  \<^verbatim>\<open>idempotency/errors.go\<close> and \<^verbatim>\<open>httpx\<close> are constructors of their own. \<open>PgxErrNoRows\<close>
  is the driver's answer to a query that selects no row, \<open>PgError\<close> an SQLSTATE the server
  raises, \<open>ConnErr\<close> a statement lost on the connection, \<open>PgxCommitRollback\<close> the commit of a
  transaction the server has already aborted. \<open>Errorf\<close> is \<^verbatim>\<open>fmt.Errorf\<close> and
  \<^verbatim>\<open>errors.New\<close> without a wrapped error, \<open>WrapPre\<close> the form \<^verbatim>\<open>"...: %w"\<close>,
  \<open>WrapPost\<close> the form \<^verbatim>\<open>"%w: ..."\<close>, \<open>JoinErr\<close> \<^verbatim>\<open>errors.Join\<close>. A run-time
  panic that unwinds the caller is \<open>GoPanic\<close>.
\<close>

datatype fmt_arg = ArgInt int | ArgStr string

datatype go_error =
    ErrNotFound | ErrNoJobAvailable | ErrConflict | ErrIdempotencyKeyExists | ErrLedgerAlreadyPosted
  | ErrKeyInProgress | ErrUnauthorized | ErrBadRequest | ErrValidation
  | PgxErrNoRows | PgError string | ConnErr | PgxCommitRollback | GoPanic
  | Errorf string "fmt_arg list"
  | WrapPre string "fmt_arg list" go_error
  | WrapPost go_error string "fmt_arg list"
  | JoinErr go_error go_error

primrec errors_Is :: "go_error \<Rightarrow> go_error \<Rightarrow> bool" where
  "errors_Is ErrNotFound t = (t = ErrNotFound)"
| "errors_Is ErrNoJobAvailable t = (t = ErrNoJobAvailable)"
| "errors_Is ErrConflict t = (t = ErrConflict)"
| "errors_Is ErrIdempotencyKeyExists t = (t = ErrIdempotencyKeyExists)"
| "errors_Is ErrLedgerAlreadyPosted t = (t = ErrLedgerAlreadyPosted)"
| "errors_Is ErrKeyInProgress t = (t = ErrKeyInProgress)"
| "errors_Is ErrUnauthorized t = (t = ErrUnauthorized)"
| "errors_Is ErrBadRequest t = (t = ErrBadRequest)"
| "errors_Is ErrValidation t = (t = ErrValidation)"
| "errors_Is PgxErrNoRows t = (t = PgxErrNoRows)"
| "errors_Is (PgError c) t = (t = PgError c)"
| "errors_Is ConnErr t = (t = ConnErr)"
| "errors_Is PgxCommitRollback t = (t = PgxCommitRollback)"
| "errors_Is GoPanic t = (t = GoPanic)"
| "errors_Is (Errorf f as) t = (t = Errorf f as)"
| "errors_Is (WrapPre f as e) t = (t = WrapPre f as e \<or> errors_Is e t)"
| "errors_Is (WrapPost e f as) t = (t = WrapPost e f as \<or> errors_Is e t)"
| "errors_Is (JoinErr e1 e2) t = (t = JoinErr e1 e2 \<or> errors_Is e1 t \<or> errors_Is e2 t)"

text \<open>
  The text of an error: \<open>sprintf\<close> consumes one argument for every verb, and quotes that of \<^verbatim>\<open>%q\<close> as
  \<^verbatim>\<open>strconv.Quote\<close> does for ASCII text (the bytes of other characters are kept). The texts of the driver's own errors
  are not the program's and stand for themselves.
\<close>

primrec fmt_arg_text :: "fmt_arg \<Rightarrow> string" where
  "fmt_arg_text (ArgInt i) = itoa i"
| "fmt_arg_text (ArgStr s) = s"

definition hex_digit :: "nat \<Rightarrow> char" where
  "hex_digit n = char_of (if n < 10 then 48 + n else 87 + n)"

definition quote_char :: "char \<Rightarrow> string" where
  "quote_char c =
     (let n = of_char c :: nat
      in case map_of (zip [7, 8, 9, 10, 11, 12, 13] ''abtnvfr'') n of
           Some x \<Rightarrow> [CHR 0x5C, x]
         | None \<Rightarrow> if n = 34 \<or> n = 92 then [CHR 0x5C, c]
                   else if n < 32 \<or> n = 127 then [CHR 0x5C, CHR ''x'', hex_digit (n div 16), hex_digit (n mod 16)]
                   else [c])"

definition strconv_Quote :: "string \<Rightarrow> string" where
  "strconv_Quote s = [CHR 0x22] @ concat (map quote_char s) @ [CHR 0x22]"

fun sprintf :: "string \<Rightarrow> fmt_arg list \<Rightarrow> string" where
  "sprintf (c # v # cs) (a # as) =
     (if c = CHR ''%'' then (if v = CHR ''q'' then strconv_Quote (fmt_arg_text a) else fmt_arg_text a) @ sprintf cs as
      else c # sprintf (v # cs) (a # as))"
| "sprintf cs as = cs"

primrec error_text :: "go_error \<Rightarrow> string" where
  "error_text ErrNotFound = ''store: not found''"
| "error_text ErrNoJobAvailable = ''store: no settlement job available to claim''"
| "error_text ErrConflict = ''store: state conflict''"
| "error_text ErrIdempotencyKeyExists = ''store: idempotency key already exists''"
| "error_text ErrLedgerAlreadyPosted = ''store: ledger already posted for job''"
| "error_text ErrKeyInProgress = ''idempotency: key reserved but response not yet available''"
| "error_text ErrUnauthorized = ''unauthorized''"
| "error_text ErrBadRequest = ''bad request''"
| "error_text ErrValidation = ''validation error''"
| "error_text PgxErrNoRows = ''no rows in result set''"
| "error_text (PgError c) = ''SQLSTATE '' @ c"
| "error_text ConnErr = ''conn error''"
| "error_text PgxCommitRollback = ''commit unexpectedly resulted in rollback''"
| "error_text GoPanic = ''panic''"
| "error_text (Errorf f as) = sprintf f as"
| "error_text (WrapPre f as e) = sprintf f as @ '': '' @ error_text e"
| "error_text (WrapPost e f as) = error_text e @ '': '' @ sprintf f as"
| "error_text (JoinErr e1 e2) = error_text e1 @ [CHR 0x0A] @ error_text e2"

type_synonym 'a res = "go_error + 'a"

text \<open>\<^verbatim>\<open>errors.As\<close> to a \<^verbatim>\<open>*pgconn.PgError\<close> with one SQLSTATE.\<close>

primrec pg_code :: "go_error \<Rightarrow> string option" where
  "pg_code ErrNotFound = None"
| "pg_code ErrNoJobAvailable = None"
| "pg_code ErrConflict = None"
| "pg_code ErrIdempotencyKeyExists = None"
| "pg_code ErrLedgerAlreadyPosted = None"
| "pg_code ErrKeyInProgress = None"
| "pg_code ErrUnauthorized = None"
| "pg_code ErrBadRequest = None"
| "pg_code ErrValidation = None"
| "pg_code PgxErrNoRows = None"
| "pg_code (PgError c) = Some c"
| "pg_code ConnErr = None"
| "pg_code PgxCommitRollback = None"
| "pg_code GoPanic = None"
| "pg_code (Errorf f as) = None"
| "pg_code (WrapPre f as e) = pg_code e"
| "pg_code (WrapPost e f as) = pg_code e"
| "pg_code (JoinErr e1 e2) = (case pg_code e1 of Some c \<Rightarrow> Some c | None \<Rightarrow> pg_code e2)"

lemma errors_Is_refl [simp, go_errors]: "errors_Is e e"
  by (cases e) auto

section \<open>Identifiers, time, JSON\<close>

text \<open>
  A \<^verbatim>\<open>uuid.UUID\<close> is a 16-byte array, a \<^verbatim>\<open>pgtype.UUID\<close> one that may be
  NULL. A \<^verbatim>\<open>time.Time\<close> is nanoseconds since the epoch, as a \<^verbatim>\<open>time.Duration\<close> is
  nanoseconds. A JSON document keeps its structure.
\<close>

type_synonym uuid = "128 word"
type_synonym gotime = int
type_synonym duration = int

abbreviation uuid_Nil :: uuid where
  "uuid_Nil \<equiv> 0"

abbreviation Second :: duration where
  "Second \<equiv> 1000000000"

datatype json = JNull | JBool bool | JStr string | JInt int | JTime gotime | JArr "json list" | JObj "(string \<times> json) list"

text \<open>
  The third-party functions the engine calls are arguments of the model, collected in a record:
  \<^verbatim>\<open>uuid.UUID.String\<close>, \<^verbatim>\<open>uuid.Parse\<close>, \<^verbatim>\<open>uuid.NewSHA1\<close> over
  \<^verbatim>\<open>uuid.NameSpaceOID\<close>, and the Unicode upper-case mapping behind \<^verbatim>\<open>strings.ToUpper\<close>.
\<close>

record golib =
  uuid_String :: "uuid \<Rightarrow> string"
  uuid_Parse :: "string \<Rightarrow> uuid option"
  uuid_NewSHA1_OID :: "string \<Rightarrow> uuid"
  unicode_ToUpper :: "string \<Rightarrow> string"

section \<open>Lists\<close>

lemma find_eq_SomeD: "find P xs = Some x \<Longrightarrow> x \<in> set xs \<and> P x"
  by (auto simp: find_Some_iff)

lemma find_uniqueI:
  assumes "x \<in> set xs" "P x" "\<And>y. y \<in> set xs \<Longrightarrow> P y \<Longrightarrow> y = x"
  shows "find P xs = Some x"
proof (cases "find P xs")
  case None
  with assms(1,2) show ?thesis by (auto simp: find_None_iff)
next
  case (Some y)
  with assms(3) show ?thesis using find_eq_SomeD [OF Some] by blast
qed

lemma filter_append_single_False [simp]: "\<not> P x \<Longrightarrow> filter P (xs @ [x]) = filter P xs"
  by simp

lemma map_if_id: "(\<And>x. x \<in> set xs \<Longrightarrow> \<not> P x) \<Longrightarrow> map (\<lambda>x. if P x then f x else x) xs = xs"
  by (induction xs) auto

lemma distinct_map_same_key:
  "distinct (map k xs) \<Longrightarrow> x \<in> set xs \<Longrightarrow> y \<in> set xs \<Longrightarrow> k x = k y \<Longrightarrow> x = y"
  by (auto simp: distinct_map inj_on_def)

text \<open>A library to run examples with: it prints identifiers as bits.\<close>

definition demo_lib :: golib where
  "demo_lib = \<lparr>uuid_String = (\<lambda>u. map (\<lambda>i. if bit u i then CHR ''1'' else CHR ''0'') [0..<128]),
     uuid_Parse = (\<lambda>s. if length s = 128 then Some (horner_sum of_bool 2 (map (\<lambda>c. c = CHR ''1'') s)) else None),
     uuid_NewSHA1_OID = (\<lambda>s. horner_sum of_bool 2 (map (\<lambda>c. c = CHR ''1'') (drop 19 s)) + 2 ^ 64),
     unicode_ToUpper = (\<lambda>s. s)\<rparr>"

end
