(* ===== verification/Sql_Model.thy ===== *)
theory Sql_Model
  imports Arrakin_Prelude
begin

text \<open>
  The rows of \<^verbatim>\<open>internal/store/sqlc/models.go\<close> and the tables of
  \<^verbatim>\<open>migrations/\<close> they come from. A table is the list of its rows in insertion order. A
  column that is NOT NULL in the schema has a plain type (its \<^verbatim>\<open>pgtype\<close> value is always
  Valid); a nullable column is an \<open>option\<close>. A JSONB column holds the document.
\<close>

section \<open>Enumerations\<close>

datatype AuditActorType = AuditActorTypeSystem | AuditActorTypeAdmin | AuditActorTypeApi

text \<open>
  \<^verbatim>\<open>sqlc.ErrorClass\<close> is a string type with two named values; a gateway may hand the worker
  any other string (the zero value is the empty one), which PostgreSQL refuses for the enum column.
\<close>

datatype ErrorClass = ErrorClassTransient | ErrorClassTerminal | ErrorClassRaw string

datatype InvestmentStatus = InvestmentStatusActive | InvestmentStatusMatured | InvestmentStatusSettled
  | InvestmentStatusCancelled

datatype MaturityStatus = MaturityStatusPending | MaturityStatusProcessing | MaturityStatusSettled
  | MaturityStatusSkipped

datatype PayoutAttemptStatus = PayoutAttemptStatusStarted | PayoutAttemptStatusSucceeded
  | PayoutAttemptStatusFailed

datatype SettlementJobStatus = SettlementJobStatusPending | SettlementJobStatusProcessing
  | SettlementJobStatusSucceeded | SettlementJobStatusFailed | SettlementJobStatusDeadLetter

primrec status_text :: "SettlementJobStatus \<Rightarrow> string" where
  "status_text SettlementJobStatusPending = ''pending''"
| "status_text SettlementJobStatusProcessing = ''processing''"
| "status_text SettlementJobStatusSucceeded = ''succeeded''"
| "status_text SettlementJobStatusFailed = ''failed''"
| "status_text SettlementJobStatusDeadLetter = ''dead_letter''"

primrec error_class_valid :: "ErrorClass \<Rightarrow> bool" where
  "error_class_valid ErrorClassTransient = True"
| "error_class_valid ErrorClassTerminal = True"
| "error_class_valid (ErrorClassRaw s) = False"

section \<open>Rows\<close>

record AuditEvent =
  ae_ID :: uuid
  ae_OccurredAt :: gotime
  ae_ActorType :: AuditActorType
  ae_ActorID :: string
  ae_Action :: string
  ae_EntityType :: string
  ae_EntityID :: uuid
  ae_Payload :: json
  ae_CorrelationID :: string

record IdempotencyKey =
  ik_ID :: uuid
  ik_Key :: string
  ik_Scope :: string
  ik_RequestHash :: "string option"
  ik_ResponseStatus :: "int option"
  ik_ResponseBody :: "json option"
  ik_CreatedAt :: gotime
  ik_ExpiresAt :: gotime

record Investment =
  inv_ID :: uuid
  inv_InvestorID :: uuid
  inv_PrincipalCents :: int
  inv_AnnualRateBps :: int
  inv_TermDays :: int
  inv_Status :: InvestmentStatus
  inv_Currency :: string
  inv_SimulationProfile :: "string option"
  inv_CreatedAt :: gotime

record LedgerAccount =
  la_ID :: uuid
  la_Code :: string
  la_Name :: string
  la_AccountType :: string
  la_CreatedAt :: gotime

record LedgerEntry =
  le_ID :: uuid
  le_EntryGroupID :: uuid
  le_SettlementJobID :: uuid
  le_AccountID :: uuid
  le_Side :: string
  le_AmountCents :: int
  le_Currency :: string
  le_Description :: string
  le_PostedAt :: gotime
  le_Metadata :: json

record MaturitySchedule =
  ms_ID :: uuid
  ms_InvestmentID :: uuid
  ms_MaturesAt :: gotime
  ms_Status :: MaturityStatus
  ms_SettledAt :: "gotime option"
  ms_CreatedAt :: gotime

record PayoutAttempt =
  pa_ID :: uuid
  pa_SettlementJobID :: uuid
  pa_AttemptNumber :: int
  pa_Status :: PayoutAttemptStatus
  pa_PayoutReference :: "string option"
  pa_ErrorMessage :: "string option"
  pa_ErrorClass :: "ErrorClass option"
  pa_StartedAt :: gotime
  pa_FinishedAt :: "gotime option"

record ReconciliationSnapshot =
  rs_ID :: uuid
  rs_SnapshotAt :: gotime
  rs_ExpectedJobCount :: int
  rs_ExpectedTotalCents :: int
  rs_SucceededCount :: int
  rs_SucceededTotalCents :: int
  rs_PendingCount :: int
  rs_FailedCount :: int
  rs_DeadLetterCount :: int
  rs_DiscrepancyCents :: int
  rs_Details :: json

record SettlementJob =
  sj_ID :: uuid
  sj_MaturityScheduleID :: uuid
  sj_InvestmentID :: uuid
  sj_IdempotencyKey :: string
  sj_Status :: SettlementJobStatus
  sj_PrincipalCents :: int
  sj_GrossReturnCents :: int
  sj_PlatformFeeCents :: int
  sj_WithholdingTaxCents :: int
  sj_NetPayoutCents :: int
  sj_PayoutReference :: "string option"
  sj_RetryCount :: int
  sj_MaxRetries :: int
  sj_NextRetryAt :: "gotime option"
  sj_ProcessingStartedAt :: "gotime option"
  sj_ProcessingOwner :: "string option"
  sj_LastError :: "string option"
  sj_ErrorClass :: "ErrorClass option"
  sj_DeadLetterReason :: "string option"
  sj_CreatedAt :: gotime
  sj_UpdatedAt :: gotime
  sj_CompletedAt :: "gotime option"

section \<open>The database\<close>

record db =
  investments :: "Investment list"
  maturity_schedules :: "MaturitySchedule list"
  settlement_jobs :: "SettlementJob list"
  payout_attempts :: "PayoutAttempt list"
  ledger_accounts :: "LedgerAccount list"
  ledger_entries :: "LedgerEntry list"
  idempotency_keys :: "IdempotencyKey list"
  reconciliation_snapshots :: "ReconciliationSnapshot list"
  audit_events :: "AuditEvent list"

section \<open>Sort keys\<close>

text \<open>
  \<^verbatim>\<open>ORDER BY next_retry_at ASC NULLS FIRST, created_at ASC\<close> is a linear order of its own.
  SQL leaves the order of ties open; the third component is the rank the server happens to give a
  row and is a parameter of every statement.
\<close>

datatype claim_key = ClaimKey (ck_retry: "gotime option") (ck_created: gotime) (ck_rank: nat)

definition nulls_first :: "gotime option \<Rightarrow> gotime option \<Rightarrow> bool" where
  "nulls_first a b = (case a of None \<Rightarrow> b \<noteq> None | Some x \<Rightarrow> (case b of None \<Rightarrow> False | Some y \<Rightarrow> x < y))"

instantiation claim_key :: linorder
begin

definition less_claim_key :: "claim_key \<Rightarrow> claim_key \<Rightarrow> bool" where
  "less_claim_key a b \<longleftrightarrow> nulls_first (ck_retry a) (ck_retry b)
     \<or> (ck_retry a = ck_retry b \<and> (ck_created a < ck_created b
          \<or> (ck_created a = ck_created b \<and> ck_rank a < ck_rank b)))"

definition less_eq_claim_key :: "claim_key \<Rightarrow> claim_key \<Rightarrow> bool" where
  "less_eq_claim_key a b \<longleftrightarrow> a = b \<or> a < b"

instance
proof
  fix x y z :: claim_key
  show "(x < y) = (x \<le> y \<and> \<not> y \<le> x)"
    by (cases x; cases y) (auto simp: less_claim_key_def less_eq_claim_key_def nulls_first_def split: option.splits)
  show "x \<le> x" by (simp add: less_eq_claim_key_def)
  show "x \<le> y \<Longrightarrow> y \<le> z \<Longrightarrow> x \<le> z"
    by (cases x; cases y; cases z) (auto simp: less_claim_key_def less_eq_claim_key_def nulls_first_def split: option.splits)
  show "x \<le> y \<Longrightarrow> y \<le> x \<Longrightarrow> x = y"
    by (cases x; cases y) (auto simp: less_claim_key_def less_eq_claim_key_def nulls_first_def split: option.splits)
  show "x \<le> y \<or> y \<le> x"
    by (cases x; cases y) (auto simp: less_claim_key_def less_eq_claim_key_def nulls_first_def split: option.splits)
qed

end

end
