(* ===== verification/Payout.thy ===== *)
theory Payout
  imports Sql_Model
begin

text \<open>
  \<^verbatim>\<open>internal/settlement/payout/simulator.go\<close>: the gateway interface and the simulator that
  implements it. \<^verbatim>\<open>Result.Err\<close> is \<open>None\<close> for a nil error.
\<close>

record ExecuteInput =
  ei_JobID :: uuid
  ei_AttemptNumber :: int
  ei_SimulationProfile :: "string option"
  ei_NetPayoutCents :: int

record payout_Result =
  pr_PayoutReference :: string
  pr_ErrorClass :: ErrorClass
  pr_Err :: "go_error option"

type_synonym Gateway = "ExecuteInput \<Rightarrow> payout_Result"

definition PayoutReference :: "golib \<Rightarrow> uuid \<Rightarrow> string" where
  "PayoutReference L jobID = ''pay_sim_'' @ uuid_String L jobID"

definition Simulator_Execute :: "golib \<Rightarrow> Gateway" where
  "Simulator_Execute L input =
     (let ref = PayoutReference L (ei_JobID input);
          profile = (case ei_SimulationProfile input of None \<Rightarrow> [] | Some p \<Rightarrow> p);
          paid = \<lparr>pr_PayoutReference = ref, pr_ErrorClass = ErrorClassRaw [], pr_Err = None\<rparr>
      in if profile = [] \<or> profile = ''success'' then paid
         else if profile = ''terminal_failure''
         then \<lparr>pr_PayoutReference = [], pr_ErrorClass = ErrorClassTerminal,
               pr_Err = Some (Errorf ''simulated terminal payout failure'' [])\<rparr>
         else if profile = ''transient_then_success''
         then if ei_AttemptNumber input < 3
              then \<lparr>pr_PayoutReference = [], pr_ErrorClass = ErrorClassTransient,
                    pr_Err = Some (Errorf ''simulated transient payout failure (attempt %d)''
                                     [ArgInt (ei_AttemptNumber input)])\<rparr>
              else paid
         else paid)"

text \<open>
  What the worker relies on a gateway for: a payout that succeeds for a job always carries the same
  reference, and jobs whose identifiers print differently have different references, so that the
  unique index on references can refuse a second completion.
\<close>

locale payout_gateway =
  fixes execute :: Gateway and ref_of :: "uuid \<Rightarrow> string" and ident :: "uuid \<Rightarrow> string"
  assumes success_ref: "pr_Err (execute i) = None \<Longrightarrow> pr_PayoutReference (execute i) = ref_of (ei_JobID i)"
    and ref_inj: "ref_of j = ref_of j' \<Longrightarrow> ident j = ident j'"
begin

lemma replay_same_reference:
  "pr_Err (execute i) = None \<Longrightarrow> pr_Err (execute i') = None \<Longrightarrow> ei_JobID i = ei_JobID i' \<Longrightarrow>
   pr_PayoutReference (execute i) = pr_PayoutReference (execute i')"
  by (simp add: success_ref)

lemma references_distinct:
  "pr_Err (execute i) = None \<Longrightarrow> pr_Err (execute i') = None \<Longrightarrow>
   pr_PayoutReference (execute i) = pr_PayoutReference (execute i') \<Longrightarrow> ident (ei_JobID i) = ident (ei_JobID i')"
  by (auto simp: success_ref dest: ref_inj)

end

lemma Simulator_success_ref:
  "pr_Err (Simulator_Execute L i) = None \<Longrightarrow>
   pr_PayoutReference (Simulator_Execute L i) = PayoutReference L (ei_JobID i)"
  by (auto simp: Simulator_Execute_def Let_def split: if_splits)

interpretation simulator: payout_gateway "Simulator_Execute L" "PayoutReference L" "uuid_String L" for L
  by unfold_locales (auto simp: Simulator_success_ref PayoutReference_def)

text \<open>
  The simulator fails a job of profile \<^verbatim>\<open>transient_then_success\<close> with a transient error
  exactly on its first two attempts, fails \<^verbatim>\<open>terminal_failure\<close> always and terminally, and
  pays every other profile at once; and every payout of a job carries that job's own reference.
\<close>

theorem Simulator_outcomes:
  "pr_Err (Simulator_Execute L i) =
     (if ei_SimulationProfile i = Some ''terminal_failure''
      then Some (Errorf ''simulated terminal payout failure'' [])
      else if ei_SimulationProfile i = Some ''transient_then_success'' \<and> ei_AttemptNumber i < 3
      then Some (Errorf ''simulated transient payout failure (attempt %d)'' [ArgInt (ei_AttemptNumber i)])
      else None)
   \<and> pr_ErrorClass (Simulator_Execute L i) =
     (if ei_SimulationProfile i = Some ''terminal_failure'' then ErrorClassTerminal
      else if ei_SimulationProfile i = Some ''transient_then_success'' \<and> ei_AttemptNumber i < 3
      then ErrorClassTransient else ErrorClassRaw [])
   \<and> (pr_Err (Simulator_Execute L i) = None \<longrightarrow>
        pr_PayoutReference (Simulator_Execute L i) = ''pay_sim_'' @ uuid_String L (ei_JobID i))"
  by (cases "ei_SimulationProfile i") (auto simp: Simulator_Execute_def Let_def PayoutReference_def)

theorem Simulator_outcomes_witness:
  "pr_PayoutReference (Simulator_Execute demo_lib \<lparr>ei_JobID = 5, ei_AttemptNumber = 3,
     ei_SimulationProfile = Some ''transient_then_success'', ei_NetPayoutCents = 100\<rparr>) = ''pay_sim_'' @ uuid_String demo_lib 5"
  using Simulator_outcomes [of demo_lib "\<lparr>ei_JobID = 5, ei_AttemptNumber = 3,
     ei_SimulationProfile = Some ''transient_then_success'', ei_NetPayoutCents = 100\<rparr>"] by simp

end
