(* ===== verification/Tx.thy ===== *)
theory Tx
  imports Payout
begin

text \<open>
  \<^verbatim>\<open>internal/store/store.go\<close> and \<^verbatim>\<open>internal/platform/metrics/settlement.go\<close>: a
  database transaction around a sequence of statements.

  What a statement depends on beside the tables is the environment \<open>tx_env\<close> of its
  transaction: the server's \<^verbatim>\<open>now()\<close> (one instant per transaction) and the process's
  \<^verbatim>\<open>time.Now()\<close>, the identifiers \<^verbatim>\<open>gen_random_uuid()\<close> will return, the rank the
  server gives equal sort keys and texts (the collation), the rows other transactions hold locked (\<^verbatim>\<open>SKIP LOCKED\<close>), the
  retry jitter, and the failures of the connection at any statement, at begin and at commit. A
  failed statement aborts the transaction: the server answers every later statement with SQLSTATE
  25P02 and turns a commit into a rollback.

  The counters of \<^verbatim>\<open>metrics.Global\<close> and the calls made to the payout gateway are outside
  the database: a rollback does not undo them.
\<close>

record SettlementMetrics =
  JobsEnqueued :: int
  JobsClaimed :: int
  JobsSucceeded :: int
  JobsRetried :: int
  JobsDeadLettered :: int
  SchedulerTicks :: int
  LeasesExpired :: int

record proc =
  proc_metrics :: SettlementMetrics
  proc_payouts :: "ExecuteInput list"

datatype commit_outcome = CommitOk | CommitFailed | CommitAppliedUnreported

record tx_env =
  pg_now :: gotime
  go_now :: gotime
  gen_uuid :: "nat \<Rightarrow> uuid"
  row_rank :: "uuid \<Rightarrow> nat"
  row_locked :: "uuid \<Rightarrow> bool"
  collation_rank :: "string \<Rightarrow> nat"
  jitter :: duration
  stmt_fault :: "nat \<Rightarrow> bool"
  begin_fault :: bool
  commit_outcome :: commit_outcome

record tx =
  tx_db :: db
  tx_aborted :: bool
  tx_stmts :: nat
  tx_proc :: proc

record sys =
  sys_db :: db
  sys_proc :: proc

type_synonym 'a txm = "tx \<Rightarrow> 'a res \<times> tx"

section \<open>Sequencing\<close>

definition returnE :: "'a \<Rightarrow> 'a txm" where
  "returnE x st = (Inr x, st)"

definition failE :: "go_error \<Rightarrow> 'a txm" where
  "failE e st = (Inl e, st)"

text \<open>\<open>tryE m k\<close> runs \<open>m\<close> and hands both its value and its error to \<open>k\<close>; \<open>bindE\<close> is the usual
  \<^verbatim>\<open>if err != nil { return err }\<close>, \<open>wrapE\<close> the same with \<^verbatim>\<open>fmt.Errorf("...: %w", err)\<close>.\<close>

definition tryE :: "'a txm \<Rightarrow> ('a res \<Rightarrow> 'b txm) \<Rightarrow> 'b txm" where
  "tryE m k st = (case m st of (r, st') \<Rightarrow> k r st')"

definition bindE :: "'a txm \<Rightarrow> ('a \<Rightarrow> 'b txm) \<Rightarrow> 'b txm" where
  "bindE m k = tryE m (\<lambda>r. case r of Inl e \<Rightarrow> failE e | Inr x \<Rightarrow> k x)"

definition wrapE :: "string \<Rightarrow> fmt_arg list \<Rightarrow> 'a txm \<Rightarrow> 'a txm" where
  "wrapE f as m = tryE m (\<lambda>r. case r of Inl e \<Rightarrow> failE (WrapPre f as e) | Inr x \<Rightarrow> returnE x)"

definition liftE :: "'a res \<Rightarrow> 'a txm" where
  "liftE r = (case r of Inl e \<Rightarrow> failE e | Inr x \<Rightarrow> returnE x)"

definition updProc :: "(proc \<Rightarrow> proc) \<Rightarrow> unit txm" where
  "updProc f st = (Inr (), st\<lparr>tx_proc := f (tx_proc st)\<rparr>)"

fun mapE :: "('a \<Rightarrow> 'b txm) \<Rightarrow> 'a list \<Rightarrow> 'b list txm" where
  "mapE f [] = returnE []"
| "mapE f (x # xs) = bindE (f x) (\<lambda>y. bindE (mapE f xs) (\<lambda>ys. returnE (y # ys)))"

section \<open>Statements\<close>

text \<open>
  The outcome of one SQL statement on the tables: rows and the new tables, no row (which the driver
  reports for a \<^verbatim>\<open>:one\<close> query and which leaves the transaction usable), or a server error.
\<close>

datatype 'a sql_result = Rows 'a db | NoRows | SqlError string

type_synonym 'a query = "tx_env \<Rightarrow> uuid \<Rightarrow> db \<Rightarrow> 'a sql_result"

definition run_stmt :: "tx_env \<Rightarrow> 'a query \<Rightarrow> 'a txm" where
  "run_stmt E q st =
     (if tx_aborted st then (Inl (PgError ''25P02''), st)
      else if stmt_fault E (tx_stmts st)
      then (Inl ConnErr, st\<lparr>tx_aborted := True, tx_stmts := Suc (tx_stmts st)\<rparr>)
      else (case q E (gen_uuid E (tx_stmts st)) (tx_db st) of
              Rows x d \<Rightarrow> (Inr x, st\<lparr>tx_db := d, tx_stmts := Suc (tx_stmts st)\<rparr>)
            | NoRows \<Rightarrow> (Inl PgxErrNoRows, st\<lparr>tx_stmts := Suc (tx_stmts st)\<rparr>)
            | SqlError c \<Rightarrow> (Inl (PgError c), st\<lparr>tx_aborted := True, tx_stmts := Suc (tx_stmts st)\<rparr>)))"

section \<open>Transactions\<close>

definition begin_tx :: "sys \<Rightarrow> tx" where
  "begin_tx s = \<lparr>tx_db = sys_db s, tx_aborted = False, tx_stmts = 0, tx_proc = sys_proc s\<rparr>"

definition WithTx :: "tx_env \<Rightarrow> 'a txm \<Rightarrow> sys \<Rightarrow> 'a res \<times> sys" where
  "WithTx E fn s =
     (if begin_fault E then (Inl (WrapPre ''begin tx'' [] ConnErr), s)
      else (case fn (begin_tx s) of
              (Inl err, st) \<Rightarrow> (Inl err, s\<lparr>sys_proc := tx_proc st\<rparr>)
            | (Inr x, st) \<Rightarrow>
                if tx_aborted st
                then (Inl (WrapPre ''commit tx'' [] PgxCommitRollback), s\<lparr>sys_proc := tx_proc st\<rparr>)
                else (case commit_outcome E of
                        CommitOk \<Rightarrow> (Inr x, \<lparr>sys_db = tx_db st, sys_proc = tx_proc st\<rparr>)
                      | CommitFailed \<Rightarrow> (Inl (WrapPre ''commit tx'' [] ConnErr), s\<lparr>sys_proc := tx_proc st\<rparr>)
                      | CommitAppliedUnreported \<Rightarrow>
                          (Inl (WrapPre ''commit tx'' [] ConnErr), \<lparr>sys_db = tx_db st, sys_proc = tx_proc st\<rparr>))))"

text \<open>A query on the pool, outside a transaction, is a transaction of one statement.\<close>

definition PoolQuery :: "tx_env \<Rightarrow> 'a query \<Rightarrow> sys \<Rightarrow> 'a res \<times> sys" where
  "PoolQuery E q s =
     (case run_stmt E q (begin_tx s) of
        (Inl err, st) \<Rightarrow> (Inl err, s)
      | (Inr x, st) \<Rightarrow> (Inr x, s\<lparr>sys_db := tx_db st\<rparr>))"

section \<open>Executing successful sequences\<close>

lemma bindE_Inr:
  "bindE m k st = (Inr y, st'') \<longleftrightarrow> (\<exists>x st'. m st = (Inr x, st') \<and> k x st' = (Inr y, st''))"
  by (auto simp: bindE_def tryE_def failE_def split: prod.splits sum.splits)

lemma bindE_step: "m st = (Inr x, st') \<Longrightarrow> bindE m k st = k x st'"
  by (simp add: bindE_def tryE_def)

lemma bindE_fail: "m st = (Inl e, st') \<Longrightarrow> bindE m k st = (Inl e, st')"
  by (simp add: bindE_def tryE_def failE_def)

lemma tryE_step: "m st = (r, st') \<Longrightarrow> tryE m k st = k r st'"
  by (simp add: tryE_def)

lemma returnE_Inr [simp]: "returnE x st = (r, st') \<longleftrightarrow> r = Inr x \<and> st' = st"
  by (auto simp: returnE_def)

lemma failE_Inr [simp]: "failE e st = (r, st') \<longleftrightarrow> r = Inl e \<and> st' = st"
  by (auto simp: failE_def)

lemma wrapE_Inr [simp]: "wrapE f as m st = (Inr x, st') \<longleftrightarrow> m st = (Inr x, st')"
  by (auto simp: wrapE_def tryE_def returnE_def failE_def split: prod.splits sum.splits)

lemma wrapE_Inl: "wrapE f as m st = (Inl e, st') \<longleftrightarrow> (\<exists>e'. m st = (Inl e', st') \<and> e = WrapPre f as e')"
  by (auto simp: wrapE_def tryE_def returnE_def failE_def split: prod.splits sum.splits)

lemma liftE_Inr [simp]: "liftE r st = (Inr x, st') \<longleftrightarrow> r = Inr x \<and> st' = st"
  by (auto simp: liftE_def returnE_def failE_def split: sum.splits)

lemma liftE_Inl [simp]: "liftE r st = (Inl e, st') \<longleftrightarrow> r = Inl e \<and> st' = st"
  by (auto simp: liftE_def returnE_def failE_def split: sum.splits)

lemma updProc_Inr [simp]:
  "updProc f st = (r, st') \<longleftrightarrow> r = Inr () \<and> st' = st\<lparr>tx_proc := f (tx_proc st)\<rparr>"
  by (auto simp: updProc_def)

lemma run_stmt_Inr:
  "run_stmt E q st = (Inr x, st') \<longleftrightarrow>
     \<not> tx_aborted st \<and> \<not> stmt_fault E (tx_stmts st)
     \<and> (\<exists>d. q E (gen_uuid E (tx_stmts st)) (tx_db st) = Rows x d
          \<and> st' = st\<lparr>tx_db := d, tx_stmts := Suc (tx_stmts st)\<rparr>)"
  by (auto simp: run_stmt_def split: sql_result.splits)

lemmas tx_success = bindE_Inr run_stmt_Inr

lemma run_stmt_aborted: "tx_aborted st \<Longrightarrow> run_stmt E q st = (Inl (PgError ''25P02''), st)"
  by (simp add: run_stmt_def)

text \<open>An aborted transaction stays aborted: a transaction that commits never had a failed statement.\<close>

lemma run_stmt_ok_not_aborted: "run_stmt E q st = (Inr x, st') \<Longrightarrow> \<not> tx_aborted st \<and> \<not> tx_aborted st'"
  by (auto simp: run_stmt_Inr)

section \<open>The errors a program can return\<close>

definition raises :: "(go_error \<Rightarrow> bool) \<Rightarrow> 'a txm \<Rightarrow> bool" where
  "raises Q m \<longleftrightarrow> (\<forall>st e st'. m st = (Inl e, st') \<longrightarrow> Q e)"

text \<open>The driver's own errors: an SQLSTATE, a lost connection, no row.\<close>

definition driver_error :: "go_error \<Rightarrow> bool" where
  "driver_error e \<longleftrightarrow> (\<exists>c. e = PgError c) \<or> e = ConnErr \<or> e = PgxErrNoRows"

named_theorems raises_intros \<open>how errors travel through programs\<close>

lemma raises_stmt: "(\<And>e. driver_error e \<Longrightarrow> Q e) \<Longrightarrow> raises Q (run_stmt E q)"
  by (auto simp: raises_def run_stmt_def driver_error_def split: if_splits sql_result.splits)

lemma raises_return [raises_intros]: "raises Q (returnE x)"
  by (simp add: raises_def)

lemma raises_updProc [raises_intros]: "raises Q (updProc f)"
  by (simp add: raises_def)

lemma raises_fail: "Q e \<Longrightarrow> raises Q (failE e)"
  by (simp add: raises_def)

lemma raises_bind [raises_intros]: "raises Q m \<Longrightarrow> (\<And>x. raises Q (k x)) \<Longrightarrow> raises Q (bindE m k)"
  by (auto simp: raises_def bindE_def tryE_def failE_def split: prod.splits sum.splits)

lemma raises_try: "(\<And>r. raises Q (k r)) \<Longrightarrow> raises Q (tryE m k)"
  by (auto simp: raises_def tryE_def split: prod.splits)

lemma raises_wrap [raises_intros]: "raises (\<lambda>e. Q (WrapPre f as e)) m \<Longrightarrow> raises Q (wrapE f as m)"
  by (auto simp: raises_def wrapE_Inl)

lemma raises_map [raises_intros]: "(\<And>x. raises Q (f x)) \<Longrightarrow> raises Q (mapE f xs)"
  by (induction xs) (auto intro!: raises_bind raises_return)

section \<open>What a transaction can do to the tables\<close>

text \<open>
  \<open>keeps R m\<close>: every run of \<open>m\<close>, successful or not, relates the tables before and after by
  \<open>R\<close>. For a reflexive and transitive \<open>R\<close> it is enough that the statements do.
\<close>

definition keeps :: "(db \<Rightarrow> db \<Rightarrow> bool) \<Rightarrow> 'a txm \<Rightarrow> bool" where
  "keeps R m \<longleftrightarrow> (\<forall>st. R (tx_db st) (tx_db (snd (m st))))"

definition query_keeps :: "(db \<Rightarrow> db \<Rightarrow> bool) \<Rightarrow> 'a query \<Rightarrow> bool" where
  "query_keeps R q \<longleftrightarrow> (\<forall>E u d x d'. q E u d = Rows x d' \<longrightarrow> R d d')"

named_theorems tx_intros \<open>how programs preserve a relation between the tables\<close>

locale db_preorder =
  fixes R :: "db \<Rightarrow> db \<Rightarrow> bool"
  assumes R_refl [simp, intro]: "R d d"
    and R_trans: "R d d' \<Longrightarrow> R d' d'' \<Longrightarrow> R d d''"
begin

lemma keeps_return [tx_intros]: "keeps R (returnE x)"
  by (simp add: keeps_def returnE_def)

lemma keeps_fail [tx_intros]: "keeps R (failE e)"
  by (simp add: keeps_def failE_def)

lemma keeps_lift [tx_intros]: "keeps R (liftE r)"
  by (simp add: keeps_def liftE_def returnE_def failE_def split: sum.splits)

lemma keeps_updProc [tx_intros]: "keeps R (updProc f)"
  by (simp add: keeps_def updProc_def)

lemma keeps_try [tx_intros]:
  assumes "keeps R m" "\<And>r. keeps R (k r)"
  shows "keeps R (tryE m k)"
  unfolding keeps_def
proof
  fix st
  obtain r st' where "m st = (r, st')" by fastforce
  with assms show "R (tx_db st) (tx_db (snd (tryE m k st)))"
    unfolding keeps_def tryE_def by (metis R_trans case_prod_conv snd_conv)
qed

lemma keeps_bind [tx_intros]:
  "keeps R m \<Longrightarrow> (\<And>x. keeps R (k x)) \<Longrightarrow> keeps R (bindE m k)"
  unfolding bindE_def by (intro keeps_try) (auto intro: keeps_fail split: sum.splits)

lemma keeps_wrap [tx_intros]: "keeps R m \<Longrightarrow> keeps R (wrapE f as m)"
  unfolding wrapE_def by (intro keeps_try) (auto intro: keeps_fail keeps_return split: sum.splits)

lemma keeps_map [tx_intros]: "(\<And>x. keeps R (f x)) \<Longrightarrow> keeps R (mapE f xs)"
  by (induction xs) (auto intro!: keeps_bind keeps_return)

lemma keeps_stmt [tx_intros]: "query_keeps R q \<Longrightarrow> keeps R (run_stmt E q)"
  by (auto simp: keeps_def run_stmt_def query_keeps_def split: sql_result.splits)

lemma keeps_run: "keeps R m \<Longrightarrow> m st = (r, st') \<Longrightarrow> R (tx_db st) (tx_db st')"
  by (metis keeps_def snd_conv)

lemma WithTx_keeps:
  assumes "keeps R m"
  shows "R (sys_db s) (sys_db (snd (WithTx E m s)))"
proof (cases "m (begin_tx s)")
  case (Pair r st)
  from keeps_run [OF assms Pair] have "R (sys_db s) (tx_db st)" by (simp add: begin_tx_def)
  with Pair show ?thesis
    by (auto simp: WithTx_def split: sum.splits commit_outcome.splits)
qed

lemma PoolQuery_keeps: "query_keeps R q \<Longrightarrow> R (sys_db s) (sys_db (snd (PoolQuery E q s)))"
  by (auto simp: PoolQuery_def run_stmt_def begin_tx_def query_keeps_def split: sql_result.splits)

end

section \<open>Atomicity\<close>

lemma WithTx_Inr:
  "WithTx E fn s = (Inr x, s') \<longleftrightarrow>
     \<not> begin_fault E \<and> commit_outcome E = CommitOk
     \<and> (\<exists>st. fn (begin_tx s) = (Inr x, st) \<and> \<not> tx_aborted st
          \<and> s' = \<lparr>sys_db = tx_db st, sys_proc = tx_proc st\<rparr>)"
  by (auto simp: WithTx_def split: prod.splits sum.splits commit_outcome.splits if_splits)

lemma WithTx_cases:
  assumes "WithTx E fn s = (r, s')"
  obtains (unchanged) e where "r = Inl e" "sys_db s' = sys_db s"
  | (applied) x st where "fn (begin_tx s) = (Inr x, st)" "\<not> tx_aborted st" "sys_db s' = tx_db st" "sys_proc s' = tx_proc st"
      "r = Inr x \<and> commit_outcome E = CommitOk
       \<or> r = Inl (WrapPre ''commit tx'' [] ConnErr) \<and> commit_outcome E = CommitAppliedUnreported"
  using assms by (auto simp: WithTx_def split: prod.splits sum.splits commit_outcome.splits if_splits)

section \<open>A sample system\<close>

text \<open>An environment in which nothing fails, no row is locked and identifiers count up; empty tables.\<close>

definition demo_env :: "nat \<Rightarrow> tx_env" where
  "demo_env n = \<lparr>pg_now = 1000000 * Second, go_now = 1000000 * Second, gen_uuid = (\<lambda>k. of_nat (100 * n + k + 100)),
     row_rank = unat, row_locked = (\<lambda>_. False), collation_rank = length, jitter = 0, stmt_fault = (\<lambda>_. False),
     begin_fault = False, commit_outcome = CommitOk\<rparr>"

definition demo_proc :: proc where
  "demo_proc = \<lparr>proc_metrics = \<lparr>JobsEnqueued = 0, JobsClaimed = 0, JobsSucceeded = 0, JobsRetried = 0, JobsDeadLettered = 0,
     SchedulerTicks = 0, LeasesExpired = 0\<rparr>, proc_payouts = []\<rparr>"

definition empty_db :: db where
  "empty_db = \<lparr>investments = [], maturity_schedules = [], settlement_jobs = [], payout_attempts = [], ledger_accounts = [],
     ledger_entries = [], idempotency_keys = [], reconciliation_snapshots = [], audit_events = []\<rparr>"

definition empty_sys :: sys where
  "empty_sys = \<lparr>sys_db = empty_db, sys_proc = demo_proc\<rparr>"

lemma demo_env_simps [simp]:
  "pg_now (demo_env n) = 1000000 * Second" "go_now (demo_env n) = 1000000 * Second" "jitter (demo_env n) = 0"
  "gen_uuid (demo_env n) k = of_nat (100 * n + k + 100)" "row_locked (demo_env n) = (\<lambda>_. False)"
  "stmt_fault (demo_env n) = (\<lambda>_. False)" "begin_fault (demo_env n) = False" "commit_outcome (demo_env n) = CommitOk"
  by (simp_all add: demo_env_def)

section \<open>Properties\<close>

text \<open>
  C33. A transaction is all or nothing: after \<^verbatim>\<open>WithTx\<close> the tables are either untouched, or
  they are exactly what the body left after running to its end without an error and without a failed
  statement. When \<^verbatim>\<open>WithTx\<close> reports an error the tables are untouched, unless the only
  failure was losing the server's answer to a commit it applied.
\<close>

theorem WithTx_atomic:
  assumes "WithTx E fn s = (r, s')"
  shows "sys_db s' = sys_db s \<and> (\<exists>e. r = Inl e)
    \<or> (\<exists>x st. fn (begin_tx s) = (Inr x, st) \<and> \<not> tx_aborted st \<and> sys_db s' = tx_db st
         \<and> (r = Inr x \<and> commit_outcome E = CommitOk
            \<or> r = Inl (WrapPre ''commit tx'' [] ConnErr) \<and> commit_outcome E = CommitAppliedUnreported))"
  using assms by (rule WithTx_cases) blast+

text \<open>A body that ignores a failed statement: the commit is refused.\<close>

theorem WithTx_atomic_witness:
  "WithTx (demo_env 0) (tryE (run_stmt (demo_env 0) (\<lambda>E u d. SqlError ''23505'')) (\<lambda>_. returnE ())) empty_sys
     = (Inl (WrapPre ''commit tx'' [] PgxCommitRollback), empty_sys)
   \<and> (\<exists>s. WithTx (demo_env 0) (returnE (7 :: int)) empty_sys = (Inr 7, s) \<and> sys_db s = empty_db)"
proof -
  have 1: "WithTx (demo_env 0) (tryE (run_stmt (demo_env 0) (\<lambda>E u d. SqlError ''23505'')) (\<lambda>_. returnE ())) empty_sys
     = (Inl (WrapPre ''commit tx'' [] PgxCommitRollback), empty_sys)"
    by (simp add: WithTx_def tryE_def run_stmt_def returnE_def begin_tx_def empty_sys_def)
  obtain r s where 2: "WithTx (demo_env 0) (returnE (7 :: int)) empty_sys = (r, s)" by fastforce
  then have "r = Inr 7" by (simp add: WithTx_def returnE_def begin_tx_def)
  with WithTx_atomic [OF 2] have "sys_db s = empty_db" by (auto simp: returnE_def begin_tx_def empty_sys_def)
  with 1 2 \<open>r = Inr 7\<close> show ?thesis by simp
qed

end
