(* ===== verification/Queries.thy ===== *)
theory Queries
  imports Tx "HOL-Library.Product_Lexorder"
begin

text \<open>
  The SQL statements of \<^verbatim>\<open>internal/store/sqlc/*.sql.go\<close>, on the tables of
  \<^verbatim>\<open>migrations/\<close>. Every INSERT and UPDATE checks the constraints of the schema: CHECK
  (SQLSTATE 23514), unique indexes (23505), foreign keys (23503), integer range (22003), character
  length (22001) and enum values (22P02). The second argument of a statement is the identifier
  \<^verbatim>\<open>gen_random_uuid()\<close> gives the row it inserts.
\<close>

text \<open>
  A Go instant becomes a \<^verbatim>\<open>timestamptz\<close> at microsecond resolution, rounded down.
\<close>

definition timestamptz :: "gotime \<Rightarrow> gotime" where
  "timestamptz t = 1000 * (t div 1000)"

section \<open>settlement\_jobs\<close>

definition job_checks :: "SettlementJob \<Rightarrow> bool" where
  "job_checks j \<longleftrightarrow> 0 \<le> sj_RetryCount j \<and> 0 \<le> sj_MaxRetries j
     \<and> 0 \<le> sj_PrincipalCents j \<and> 0 \<le> sj_GrossReturnCents j \<and> 0 \<le> sj_PlatformFeeCents j
     \<and> 0 \<le> sj_WithholdingTaxCents j \<and> 0 \<le> sj_NetPayoutCents j
     \<and> (sj_Status j \<noteq> SettlementJobStatusDeadLetter \<or> sj_DeadLetterReason j \<noteq> None)
     \<and> (sj_Status j \<noteq> SettlementJobStatusSucceeded \<or> sj_PayoutReference j \<noteq> None)"

text \<open>The amounts are BIGINT columns.\<close>

definition job_range :: "SettlementJob \<Rightarrow> bool" where
  "job_range j \<longleftrightarrow> in_int64 (sj_PrincipalCents j) \<and> in_int64 (sj_GrossReturnCents j) \<and> in_int64 (sj_PlatformFeeCents j)
     \<and> in_int64 (sj_WithholdingTaxCents j) \<and> in_int64 (sj_NetPayoutCents j)"

text \<open>The unique indexes of the table, between a new version of a row and every other row.\<close>

definition job_clash :: "SettlementJob \<Rightarrow> SettlementJob \<Rightarrow> bool" where
  "job_clash j k \<longleftrightarrow> sj_MaturityScheduleID k = sj_MaturityScheduleID j
     \<or> sj_IdempotencyKey k = sj_IdempotencyKey j
     \<or> (sj_PayoutReference j \<noteq> None \<and> sj_PayoutReference k = sj_PayoutReference j)"

definition replace_job :: "SettlementJob \<Rightarrow> db \<Rightarrow> db" where
  "replace_job j d =
     d\<lparr>settlement_jobs := map (\<lambda>k. if sj_ID k = sj_ID j then j else k) (settlement_jobs d)\<rparr>"

text \<open>\<^verbatim>\<open>UPDATE settlement_jobs SET ... WHERE id = $1 AND status = ... RETURNING *\<close>\<close>

definition update_job :: "uuid \<Rightarrow> SettlementJobStatus \<Rightarrow> (SettlementJob \<Rightarrow> SettlementJob) \<Rightarrow> db
    \<Rightarrow> SettlementJob sql_result" where
  "update_job i s f d =
     (case find (\<lambda>j. sj_ID j = i \<and> sj_Status j = s) (settlement_jobs d) of
        None \<Rightarrow> NoRows
      | Some j \<Rightarrow>
          if \<not> in_int32 (sj_RetryCount (f j)) then SqlError ''22003''
          else if \<not> job_checks (f j) then SqlError ''23514''
          else if \<exists>k \<in> set (settlement_jobs d). sj_ID k \<noteq> i \<and> job_clash (f j) k then SqlError ''23505''
          else Rows (f j) (replace_job (f j) d))"

record CreateSettlementJobParams =
  cj_MaturityScheduleID :: uuid
  cj_InvestmentID :: uuid
  cj_IdempotencyKey :: string
  cj_PrincipalCents :: int
  cj_GrossReturnCents :: int
  cj_PlatformFeeCents :: int
  cj_WithholdingTaxCents :: int
  cj_NetPayoutCents :: int
  cj_MaxRetries :: int

definition new_job :: "CreateSettlementJobParams \<Rightarrow> tx_env \<Rightarrow> uuid \<Rightarrow> SettlementJob" where
  "new_job arg E u =
     \<lparr>sj_ID = u, sj_MaturityScheduleID = cj_MaturityScheduleID arg, sj_InvestmentID = cj_InvestmentID arg,
      sj_IdempotencyKey = cj_IdempotencyKey arg, sj_Status = SettlementJobStatusPending,
      sj_PrincipalCents = cj_PrincipalCents arg, sj_GrossReturnCents = cj_GrossReturnCents arg,
      sj_PlatformFeeCents = cj_PlatformFeeCents arg, sj_WithholdingTaxCents = cj_WithholdingTaxCents arg,
      sj_NetPayoutCents = cj_NetPayoutCents arg, sj_PayoutReference = None, sj_RetryCount = 0,
      sj_MaxRetries = cj_MaxRetries arg, sj_NextRetryAt = None, sj_ProcessingStartedAt = None,
      sj_ProcessingOwner = None, sj_LastError = None, sj_ErrorClass = None, sj_DeadLetterReason = None,
      sj_CreatedAt = pg_now E, sj_UpdatedAt = pg_now E, sj_CompletedAt = None\<rparr>"

definition CreateSettlementJob :: "CreateSettlementJobParams \<Rightarrow> SettlementJob query" where
  "CreateSettlementJob arg E u d =
     (let j = new_job arg E u
      in if \<not> job_range j then SqlError ''22003''
         else if \<not> job_checks j then SqlError ''23514''
         else if \<exists>k \<in> set (settlement_jobs d). sj_ID k = u \<or> job_clash j k then SqlError ''23505''
         else if (\<forall>m \<in> set (maturity_schedules d). ms_ID m \<noteq> sj_MaturityScheduleID j)
               \<or> (\<forall>v \<in> set (investments d). inv_ID v \<noteq> sj_InvestmentID j) then SqlError ''23503''
         else Rows j (d\<lparr>settlement_jobs := settlement_jobs d @ [j]\<rparr>))"

definition claimable :: "tx_env \<Rightarrow> SettlementJob \<Rightarrow> bool" where
  "claimable E j \<longleftrightarrow>
     (sj_Status j = SettlementJobStatusPending \<or> sj_Status j = SettlementJobStatusFailed)
     \<and> (case sj_NextRetryAt j of None \<Rightarrow> True | Some t \<Rightarrow> t \<le> pg_now E)"

definition claim_order :: "tx_env \<Rightarrow> SettlementJob \<Rightarrow> claim_key" where
  "claim_order E j = ClaimKey (sj_NextRetryAt j) (sj_CreatedAt j) (row_rank E (sj_ID j))"

definition claim_candidate :: "tx_env \<Rightarrow> db \<Rightarrow> SettlementJob option" where
  "claim_candidate E d =
     (case sort_key (claim_order E) (filter (\<lambda>j. claimable E j \<and> \<not> row_locked E (sj_ID j)) (settlement_jobs d)) of
        [] \<Rightarrow> None | j # _ \<Rightarrow> Some j)"

definition claimed :: "tx_env \<Rightarrow> string \<Rightarrow> SettlementJob \<Rightarrow> SettlementJob" where
  "claimed E w j = j\<lparr>sj_Status := SettlementJobStatusProcessing, sj_ProcessingStartedAt := Some (pg_now E),
     sj_ProcessingOwner := Some w, sj_UpdatedAt := pg_now E\<rparr>"

definition ClaimSettlementJob :: "string \<Rightarrow> SettlementJob query" where
  "ClaimSettlementJob processingOwner E u d =
     (case claim_candidate E d of
        None \<Rightarrow> NoRows
      | Some j \<Rightarrow> Rows (claimed E processingOwner j) (replace_job (claimed E processingOwner j) d))"

definition GetSettlementJobByID :: "uuid \<Rightarrow> SettlementJob query" where
  "GetSettlementJobByID i E u d =
     (case find (\<lambda>j. sj_ID j = i) (settlement_jobs d) of None \<Rightarrow> NoRows | Some j \<Rightarrow> Rows j d)"

definition GetSettlementJobByMaturityScheduleID :: "uuid \<Rightarrow> SettlementJob query" where
  "GetSettlementJobByMaturityScheduleID m E u d =
     (case find (\<lambda>j. sj_MaturityScheduleID j = m) (settlement_jobs d) of None \<Rightarrow> NoRows | Some j \<Rightarrow> Rows j d)"

definition job_succeeded :: "tx_env \<Rightarrow> string \<Rightarrow> SettlementJob \<Rightarrow> SettlementJob" where
  "job_succeeded E ref j = j\<lparr>sj_Status := SettlementJobStatusSucceeded, sj_PayoutReference := Some ref,
     sj_CompletedAt := Some (pg_now E), sj_ProcessingStartedAt := None, sj_ProcessingOwner := None,
     sj_LastError := None, sj_ErrorClass := None, sj_UpdatedAt := pg_now E\<rparr>"

definition MarkJobSucceeded :: "uuid \<Rightarrow> string \<Rightarrow> SettlementJob query" where
  "MarkJobSucceeded i ref E u d = update_job i SettlementJobStatusProcessing (job_succeeded E ref) d"

definition job_failed :: "tx_env \<Rightarrow> gotime \<Rightarrow> string \<Rightarrow> SettlementJob \<Rightarrow> SettlementJob" where
  "job_failed E t msg j = j\<lparr>sj_Status := SettlementJobStatusFailed, sj_RetryCount := sj_RetryCount j + 1,
     sj_NextRetryAt := Some t, sj_LastError := Some msg, sj_ErrorClass := Some ErrorClassTransient,
     sj_ProcessingStartedAt := None, sj_ProcessingOwner := None, sj_UpdatedAt := pg_now E\<rparr>"

definition MarkJobFailedRetryable :: "uuid \<Rightarrow> gotime \<Rightarrow> string \<Rightarrow> SettlementJob query" where
  "MarkJobFailedRetryable i t msg E u d = update_job i SettlementJobStatusProcessing (job_failed E (timestamptz t) msg) d"

definition job_dead :: "tx_env \<Rightarrow> string \<Rightarrow> string \<Rightarrow> ErrorClass \<Rightarrow> SettlementJob \<Rightarrow> SettlementJob" where
  "job_dead E reason msg c j = j\<lparr>sj_Status := SettlementJobStatusDeadLetter, sj_DeadLetterReason := Some reason,
     sj_LastError := Some msg, sj_ErrorClass := Some c, sj_ProcessingStartedAt := None,
     sj_ProcessingOwner := None, sj_UpdatedAt := pg_now E\<rparr>"

definition MarkJobDeadLetter :: "uuid \<Rightarrow> string \<Rightarrow> string \<Rightarrow> ErrorClass \<Rightarrow> SettlementJob query" where
  "MarkJobDeadLetter i reason msg c E u d =
     (if \<not> error_class_valid c then SqlError ''22P02''
      else update_job i SettlementJobStatusProcessing (job_dead E reason msg c) d)"

definition job_replayed :: "tx_env \<Rightarrow> SettlementJob \<Rightarrow> SettlementJob" where
  "job_replayed E j = j\<lparr>sj_Status := SettlementJobStatusPending, sj_DeadLetterReason := None,
     sj_LastError := None, sj_ErrorClass := None, sj_NextRetryAt := None, sj_ProcessingStartedAt := None,
     sj_ProcessingOwner := None, sj_UpdatedAt := pg_now E\<rparr>"

definition ReplayDeadLetterJob :: "uuid \<Rightarrow> SettlementJob query" where
  "ReplayDeadLetterJob i E u d = update_job i SettlementJobStatusDeadLetter (job_replayed E) d"

definition job_requeued :: "tx_env \<Rightarrow> SettlementJob \<Rightarrow> SettlementJob" where
  "job_requeued E j = j\<lparr>sj_Status := SettlementJobStatusPending, sj_NextRetryAt := None,
     sj_ProcessingStartedAt := None, sj_ProcessingOwner := None, sj_UpdatedAt := pg_now E\<rparr>"

definition RequeueFailedJob :: "uuid \<Rightarrow> SettlementJob query" where
  "RequeueFailedJob i E u d = update_job i SettlementJobStatusFailed (job_requeued E) d"

definition lease_stale :: "gotime \<Rightarrow> SettlementJob \<Rightarrow> bool" where
  "lease_stale cutoff j \<longleftrightarrow> sj_Status j = SettlementJobStatusProcessing
     \<and> (case sj_ProcessingStartedAt j of None \<Rightarrow> False | Some t \<Rightarrow> t < cutoff)"

definition lease_expired :: "tx_env \<Rightarrow> SettlementJob \<Rightarrow> SettlementJob" where
  "lease_expired E j = j\<lparr>sj_Status := SettlementJobStatusPending, sj_ProcessingStartedAt := None,
     sj_ProcessingOwner := None, sj_UpdatedAt := pg_now E\<rparr>"

text \<open>\<^verbatim>\<open>RETURNING\<close> yields the rows as they are after the update.\<close>

definition ExpireStaleProcessingJobs :: "gotime \<Rightarrow> SettlementJob list query" where
  "ExpireStaleProcessingJobs cutoff E u d =
     (let stale = lease_stale (timestamptz cutoff)
      in Rows (map (lease_expired E) (filter stale (settlement_jobs d)))
           (d\<lparr>settlement_jobs := map (\<lambda>j. if stale j then lease_expired E j else j) (settlement_jobs d)\<rparr>))"

section \<open>investments, maturity\_schedules\<close>

definition GetInvestmentByID :: "uuid \<Rightarrow> Investment query" where
  "GetInvestmentByID i E u d =
     (case find (\<lambda>v. inv_ID v = i) (investments d) of None \<Rightarrow> NoRows | Some v \<Rightarrow> Rows v d)"

definition GetMaturityScheduleByID :: "uuid \<Rightarrow> MaturitySchedule query" where
  "GetMaturityScheduleByID i E u d =
     (case find (\<lambda>m. ms_ID m = i) (maturity_schedules d) of None \<Rightarrow> NoRows | Some m \<Rightarrow> Rows m d)"

definition maturity_due :: "tx_env \<Rightarrow> MaturitySchedule \<Rightarrow> bool" where
  "maturity_due E m \<longleftrightarrow> ms_Status m = MaturityStatusPending \<and> ms_MaturesAt m \<le> pg_now E"

definition ListDueMaturitySchedules :: "(MaturitySchedule \<times> Investment) list query" where
  "ListDueMaturitySchedules E u d =
     Rows (concat (map (\<lambda>m. map (Pair m) (filter (\<lambda>v. inv_ID v = ms_InvestmentID m) (investments d)))
             (sort_key (\<lambda>m. (ms_MaturesAt m, row_rank E (ms_ID m)))
                (filter (\<lambda>m. maturity_due E m \<and> \<not> row_locked E (ms_ID m)) (maturity_schedules d))))) d"

definition maturity_settled :: "tx_env \<Rightarrow> MaturitySchedule \<Rightarrow> MaturitySchedule" where
  "maturity_settled E m = m\<lparr>ms_Status := MaturityStatusSettled, ms_SettledAt := Some (pg_now E)\<rparr>"

definition MarkMaturitySettled :: "uuid \<Rightarrow> MaturitySchedule query" where
  "MarkMaturitySettled i E u d =
     (case find (\<lambda>m. ms_ID m = i \<and> (ms_Status m = MaturityStatusPending \<or> ms_Status m = MaturityStatusProcessing))
             (maturity_schedules d) of
        None \<Rightarrow> NoRows
      | Some m \<Rightarrow> Rows (maturity_settled E m)
          (d\<lparr>maturity_schedules := map (\<lambda>m'. if ms_ID m' = i then maturity_settled E m else m') (maturity_schedules d)\<rparr>))"

section \<open>payout\_attempts\<close>

definition next_attempt :: "db \<Rightarrow> uuid \<Rightarrow> int" where
  "next_attempt d job =
     fold max (map pa_AttemptNumber (filter (\<lambda>a. pa_SettlementJobID a = job) (payout_attempts d))) 0 + 1"

definition GetNextAttemptNumber :: "uuid \<Rightarrow> int query" where
  "GetNextAttemptNumber job E u d =
     (if in_int32 (next_attempt d job) then Rows (next_attempt d job) d else SqlError ''22003'')"

definition new_attempt :: "uuid \<Rightarrow> int \<Rightarrow> tx_env \<Rightarrow> uuid \<Rightarrow> PayoutAttempt" where
  "new_attempt job n E u =
     \<lparr>pa_ID = u, pa_SettlementJobID = job, pa_AttemptNumber = n, pa_Status = PayoutAttemptStatusStarted,
      pa_PayoutReference = None, pa_ErrorMessage = None, pa_ErrorClass = None,
      pa_StartedAt = pg_now E, pa_FinishedAt = None\<rparr>"

definition CreatePayoutAttempt :: "uuid \<Rightarrow> int \<Rightarrow> PayoutAttempt query" where
  "CreatePayoutAttempt job n E u d =
     (if n \<le> 0 then SqlError ''23514''
      else if \<exists>a \<in> set (payout_attempts d). pa_ID a = u \<or> (pa_SettlementJobID a = job \<and> pa_AttemptNumber a = n)
      then SqlError ''23505''
      else if \<forall>j \<in> set (settlement_jobs d). sj_ID j \<noteq> job then SqlError ''23503''
      else Rows (new_attempt job n E u) (d\<lparr>payout_attempts := payout_attempts d @ [new_attempt job n E u]\<rparr>))"

definition update_attempt :: "uuid \<Rightarrow> (PayoutAttempt \<Rightarrow> PayoutAttempt) \<Rightarrow> db \<Rightarrow> PayoutAttempt sql_result" where
  "update_attempt i f d =
     (case find (\<lambda>a. pa_ID a = i \<and> pa_Status a = PayoutAttemptStatusStarted) (payout_attempts d) of
        None \<Rightarrow> NoRows
      | Some a \<Rightarrow>
          if \<exists>b \<in> set (payout_attempts d). pa_ID b \<noteq> i \<and> pa_PayoutReference (f a) \<noteq> None
               \<and> pa_PayoutReference b = pa_PayoutReference (f a)
          then SqlError ''23505''
          else Rows (f a) (d\<lparr>payout_attempts := map (\<lambda>b. if pa_ID b = i then f a else b) (payout_attempts d)\<rparr>))"

definition attempt_succeeded :: "tx_env \<Rightarrow> string \<Rightarrow> PayoutAttempt \<Rightarrow> PayoutAttempt" where
  "attempt_succeeded E ref a = a\<lparr>pa_Status := PayoutAttemptStatusSucceeded, pa_PayoutReference := Some ref,
     pa_FinishedAt := Some (pg_now E)\<rparr>"

definition FinishPayoutAttemptSuccess :: "uuid \<Rightarrow> string \<Rightarrow> PayoutAttempt query" where
  "FinishPayoutAttemptSuccess i ref E u d = update_attempt i (attempt_succeeded E ref) d"

definition attempt_failed :: "tx_env \<Rightarrow> string \<Rightarrow> ErrorClass \<Rightarrow> PayoutAttempt \<Rightarrow> PayoutAttempt" where
  "attempt_failed E msg c a = a\<lparr>pa_Status := PayoutAttemptStatusFailed, pa_ErrorMessage := Some msg,
     pa_ErrorClass := Some c, pa_FinishedAt := Some (pg_now E)\<rparr>"

definition FinishPayoutAttemptFailure :: "uuid \<Rightarrow> string \<Rightarrow> ErrorClass \<Rightarrow> PayoutAttempt query" where
  "FinishPayoutAttemptFailure i msg c E u d =
     (if \<not> error_class_valid c then SqlError ''22P02'' else update_attempt i (attempt_failed E msg c) d)"

definition ListPayoutAttemptsByJobID :: "uuid \<Rightarrow> PayoutAttempt list query" where
  "ListPayoutAttemptsByJobID job E u d =
     Rows (sort_key pa_AttemptNumber (filter (\<lambda>a. pa_SettlementJobID a = job) (payout_attempts d))) d"

section \<open>ledger\_accounts, ledger\_entries\<close>

definition account_types :: "string set" where
  "account_types = {''liability'', ''asset'', ''revenue''}"

definition UpsertLedgerAccount :: "string \<Rightarrow> string \<Rightarrow> string \<Rightarrow> LedgerAccount query" where
  "UpsertLedgerAccount code name typ E u d =
     (if typ \<notin> account_types then SqlError ''23514''
      else (case find (\<lambda>a. la_Code a = code) (ledger_accounts d) of
              Some a \<Rightarrow>
                Rows (a\<lparr>la_Name := name\<rparr>)
                  (d\<lparr>ledger_accounts := map (\<lambda>b. if la_Code b = code then a\<lparr>la_Name := name\<rparr> else b) (ledger_accounts d)\<rparr>)
            | None \<Rightarrow>
                if \<exists>a \<in> set (ledger_accounts d). la_ID a = u then SqlError ''23505''
                else (let a = \<lparr>la_ID = u, la_Code = code, la_Name = name, la_AccountType = typ, la_CreatedAt = pg_now E\<rparr>
                      in Rows a (d\<lparr>ledger_accounts := ledger_accounts d @ [a]\<rparr>))))"

definition GetLedgerAccountByCode :: "string \<Rightarrow> LedgerAccount query" where
  "GetLedgerAccountByCode code E u d =
     (case find (\<lambda>a. la_Code a = code) (ledger_accounts d) of None \<Rightarrow> NoRows | Some a \<Rightarrow> Rows a d)"

record InsertLedgerEntryParams =
  ip_EntryGroupID :: uuid
  ip_SettlementJobID :: uuid
  ip_AccountID :: uuid
  ip_Side :: string
  ip_AmountCents :: int
  ip_Currency :: string
  ip_Description :: string
  ip_Metadata :: json

text \<open>
  \<^verbatim>\<open>CHAR(n)\<close> counts characters, here those of UTF-8 (a byte of the form 10xxxxxx continues one). A longer text is refused unless
  the excess is blank, and a shorter one is padded with blanks.
\<close>

definition char_length :: "string \<Rightarrow> nat" where
  "char_length s = length (filter (\<lambda>c. of_char c div 64 \<noteq> (2 :: nat)) s)"

definition rtrim :: "string \<Rightarrow> string" where
  "rtrim s = rev (dropWhile (\<lambda>c. c = CHR '' '') (rev s))"

definition bpchar_fits :: "nat \<Rightarrow> string \<Rightarrow> bool" where
  "bpchar_fits n s \<longleftrightarrow> char_length (rtrim s) \<le> n"

definition bpchar :: "nat \<Rightarrow> string \<Rightarrow> string" where
  "bpchar n s = rtrim s @ replicate (n - char_length (rtrim s)) (CHR '' '')"

lemma bpchar_fitsI: "length s \<le> n \<Longrightarrow> bpchar_fits n s"
  using length_filter_le [of "\<lambda>c. of_char c div 64 \<noteq> (2 :: nat)" "rtrim s"] length_dropWhile_le [of "\<lambda>c. c = CHR '' ''" "rev s"]
  by (simp add: bpchar_fits_def char_length_def rtrim_def)

lemma bpchar_letters [simp]: "bpchar (Suc 0) ''D'' = ''D''" "bpchar (Suc 0) ''C'' = ''C''" "bpchar 3 ''USD'' = ''USD''"
  by code_simp+

definition new_entry :: "InsertLedgerEntryParams \<Rightarrow> tx_env \<Rightarrow> uuid \<Rightarrow> LedgerEntry" where
  "new_entry arg E u =
     \<lparr>le_ID = u, le_EntryGroupID = ip_EntryGroupID arg, le_SettlementJobID = ip_SettlementJobID arg,
      le_AccountID = ip_AccountID arg, le_Side = bpchar 1 (ip_Side arg), le_AmountCents = ip_AmountCents arg,
      le_Currency = bpchar 3 (ip_Currency arg), le_Description = ip_Description arg,
      le_PostedAt = pg_now E, le_Metadata = ip_Metadata arg\<rparr>"

definition InsertLedgerEntry :: "InsertLedgerEntryParams \<Rightarrow> LedgerEntry query" where
  "InsertLedgerEntry arg E u d =
     (let e = new_entry arg E u
      in if \<not> bpchar_fits 1 (ip_Side arg) \<or> \<not> bpchar_fits 3 (ip_Currency arg) then SqlError ''22001''
         else if (le_Side e \<noteq> ''D'' \<and> le_Side e \<noteq> ''C'') \<or> le_AmountCents e \<le> 0 then SqlError ''23514''
         else if \<exists>f \<in> set (ledger_entries d). le_ID f = u \<or>
                   (le_EntryGroupID f = le_EntryGroupID e \<and> le_AccountID f = le_AccountID e \<and> le_Side f = le_Side e)
         then SqlError ''23505''
         else if (\<forall>j \<in> set (settlement_jobs d). sj_ID j \<noteq> le_SettlementJobID e)
               \<or> (\<forall>a \<in> set (ledger_accounts d). la_ID a \<noteq> le_AccountID e) then SqlError ''23503''
         else Rows e (d\<lparr>ledger_entries := ledger_entries d @ [e]\<rparr>))"

text \<open>\<^verbatim>\<open>LIMIT 1\<close> without an order: any row of the job; the model takes the one ranked first.\<close>

definition GetLedgerEntryGroupIDByJobID :: "uuid \<Rightarrow> uuid query" where
  "GetLedgerEntryGroupIDByJobID job E u d =
     (case sort_key (\<lambda>e. row_rank E (le_ID e)) (filter (\<lambda>e. le_SettlementJobID e = job) (ledger_entries d)) of
        [] \<Rightarrow> NoRows | e # _ \<Rightarrow> Rows (le_EntryGroupID e) d)"

definition ListLedgerEntriesByJobID :: "uuid \<Rightarrow> LedgerEntry list query" where
  "ListLedgerEntriesByJobID job E u d =
     Rows (sort_key (\<lambda>e. (le_PostedAt e, if le_Side e = ''D'' then 0 else 1 :: nat, row_rank E (le_ID e)))
             (filter (\<lambda>e. le_SettlementJobID e = job) (ledger_entries d))) d"

definition ListLedgerAccounts :: "LedgerAccount list query" where
  "ListLedgerAccounts E u d = Rows (sort_key (\<lambda>a. collation_rank E (la_Code a)) (ledger_accounts d)) d"

end
