(* ===== verification/Queries_Ops.thy ===== *)
theory Queries_Ops
  imports Queries
begin

text \<open>
  The remaining statements of \<^verbatim>\<open>internal/store/sqlc\<close>: audit events, idempotency keys,
  reconciliation, and the paginated listings.
\<close>

section \<open>Keyset pagination\<close>

text \<open>
  The listings share one form: rows strictly below the cursor in the order \<^verbatim>\<open>(time DESC, id DESC)\<close>,
  at most \<open>n\<close> of them. PostgreSQL compares UUIDs as unsigned 128-bit numbers. A NULL cursor time
  selects everything; a comparison with a NULL cursor id is not true.
\<close>

definition before_cursor :: "gotime option \<Rightarrow> uuid option \<Rightarrow> gotime \<Rightarrow> uuid \<Rightarrow> bool" where
  "before_cursor ct ci t i \<longleftrightarrow>
     (case ct of None \<Rightarrow> True
      | Some c \<Rightarrow> t < timestamptz c \<or> (t = timestamptz c \<and> (case ci of None \<Rightarrow> False | Some x \<Rightarrow> i < x)))"

definition page_key :: "gotime \<Rightarrow> uuid \<Rightarrow> int \<times> int" where
  "page_key t i = (- t, - uint i)"

definition keyset_page :: "('r \<Rightarrow> gotime) \<Rightarrow> ('r \<Rightarrow> uuid) \<Rightarrow> gotime option \<Rightarrow> uuid option \<Rightarrow> int \<Rightarrow> 'r list \<Rightarrow> 'r list" where
  "keyset_page tm idf ct ci n rows =
     take (nat n) (sort_key (\<lambda>r. page_key (tm r) (idf r)) (filter (\<lambda>r. before_cursor ct ci (tm r) (idf r)) rows))"

definition narg :: "'a option \<Rightarrow> 'a \<Rightarrow> bool" where
  "narg p x \<longleftrightarrow> (case p of None \<Rightarrow> True | Some y \<Rightarrow> x = y)"

record ListSettlementJobsParams =
  lj_Status :: "string option"
  lj_InvestmentID :: "uuid option"
  lj_CursorTime :: "gotime option"
  lj_CursorID :: "uuid option"
  lj_LimitVal :: int

definition job_status_valid :: "string \<Rightarrow> bool" where
  "job_status_valid s = (s \<in> {''pending'', ''processing'', ''succeeded'', ''failed'', ''dead_letter''})"

definition ListSettlementJobs :: "ListSettlementJobsParams \<Rightarrow> SettlementJob list query" where
  "ListSettlementJobs arg E u d =
     (if (case lj_Status arg of None \<Rightarrow> False | Some s \<Rightarrow> \<not> job_status_valid s) then SqlError ''22P02''
      else if lj_LimitVal arg < 0 then SqlError ''2201W''
      else Rows (keyset_page sj_CreatedAt sj_ID (lj_CursorTime arg) (lj_CursorID arg) (lj_LimitVal arg)
             (filter (\<lambda>j. narg (lj_Status arg) (status_text (sj_Status j))
                        \<and> narg (lj_InvestmentID arg) (sj_InvestmentID j)) (settlement_jobs d))) d)"

record ListLedgerEntriesParams =
  ll_SettlementJobID :: "uuid option"
  ll_AccountCode :: "string option"
  ll_FromTime :: "gotime option"
  ll_ToTime :: "gotime option"
  ll_CursorTime :: "gotime option"
  ll_CursorID :: "uuid option"
  ll_LimitVal :: int

definition account_code_of :: "db \<Rightarrow> LedgerEntry \<Rightarrow> string option" where
  "account_code_of d e = map_option la_Code (find (\<lambda>a. la_ID a = le_AccountID e) (ledger_accounts d))"

definition ListLedgerEntries :: "ListLedgerEntriesParams \<Rightarrow> LedgerEntry list query" where
  "ListLedgerEntries arg E u d =
     (if ll_LimitVal arg < 0 then SqlError ''2201W''
      else Rows (keyset_page le_PostedAt le_ID (ll_CursorTime arg) (ll_CursorID arg) (ll_LimitVal arg)
             (filter (\<lambda>e. narg (ll_SettlementJobID arg) (le_SettlementJobID e)
                        \<and> (case account_code_of d e of None \<Rightarrow> False | Some c \<Rightarrow> narg (ll_AccountCode arg) c)
                        \<and> (case ll_FromTime arg of None \<Rightarrow> True | Some t \<Rightarrow> timestamptz t \<le> le_PostedAt e)
                        \<and> (case ll_ToTime arg of None \<Rightarrow> True | Some t \<Rightarrow> le_PostedAt e \<le> timestamptz t)) (ledger_entries d))) d)"

record ListAuditEventsParams =
  lv_EntityType :: "string option"
  lv_EntityID :: "uuid option"
  lv_Action :: "string option"
  lv_CursorTime :: "gotime option"
  lv_CursorID :: "uuid option"
  lv_LimitVal :: int

definition ListAuditEvents :: "ListAuditEventsParams \<Rightarrow> AuditEvent list query" where
  "ListAuditEvents arg E u d =
     (if lv_LimitVal arg < 0 then SqlError ''2201W''
      else Rows (keyset_page ae_OccurredAt ae_ID (lv_CursorTime arg) (lv_CursorID arg) (lv_LimitVal arg)
             (filter (\<lambda>v. narg (lv_EntityType arg) (ae_EntityType v) \<and> narg (lv_EntityID arg) (ae_EntityID v)
                        \<and> narg (lv_Action arg) (ae_Action v)) (audit_events d))) d)"

definition ListReconciliationSnapshots :: "gotime option \<Rightarrow> uuid option \<Rightarrow> int \<Rightarrow> ReconciliationSnapshot list query" where
  "ListReconciliationSnapshots ct ci n E u d =
     (if n < 0 then SqlError ''2201W''
      else Rows (keyset_page rs_SnapshotAt rs_ID ct ci n (reconciliation_snapshots d)) d)"

section \<open>audit\_events\<close>

record CreateAuditEventParams =
  ca_ActorType :: AuditActorType
  ca_ActorID :: string
  ca_Action :: string
  ca_EntityType :: string
  ca_EntityID :: uuid
  ca_Payload :: json
  ca_CorrelationID :: string

definition new_audit_event :: "CreateAuditEventParams \<Rightarrow> tx_env \<Rightarrow> uuid \<Rightarrow> AuditEvent" where
  "new_audit_event arg E u =
     \<lparr>ae_ID = u, ae_OccurredAt = pg_now E, ae_ActorType = ca_ActorType arg, ae_ActorID = ca_ActorID arg,
      ae_Action = ca_Action arg, ae_EntityType = ca_EntityType arg, ae_EntityID = ca_EntityID arg,
      ae_Payload = ca_Payload arg, ae_CorrelationID = ca_CorrelationID arg\<rparr>"

definition CreateAuditEvent :: "CreateAuditEventParams \<Rightarrow> AuditEvent query" where
  "CreateAuditEvent arg E u d =
     (if \<exists>v \<in> set (audit_events d). ae_ID v = u then SqlError ''23505''
      else Rows (new_audit_event arg E u) (d\<lparr>audit_events := audit_events d @ [new_audit_event arg E u]\<rparr>))"

definition ListAuditEventsByEntity :: "string \<Rightarrow> uuid \<Rightarrow> int \<Rightarrow> AuditEvent list query" where
  "ListAuditEventsByEntity et ei n E u d =
     (if n < 0 then SqlError ''2201W''
      else Rows (take (nat n) (sort_key (\<lambda>v. (- ae_OccurredAt v, row_rank E (ae_ID v)))
             (filter (\<lambda>v. ae_EntityType v = et \<and> ae_EntityID v = ei) (audit_events d)))) d)"

section \<open>idempotency\_keys\<close>

definition GetActiveIdempotencyKey :: "string \<Rightarrow> string \<Rightarrow> IdempotencyKey query" where
  "GetActiveIdempotencyKey scope key E u d =
     (case find (\<lambda>k. ik_Scope k = scope \<and> ik_Key k = key \<and> pg_now E < ik_ExpiresAt k) (idempotency_keys d) of
        None \<Rightarrow> NoRows | Some k \<Rightarrow> Rows k d)"

definition CreateIdempotencyKey :: "string \<Rightarrow> string \<Rightarrow> string option \<Rightarrow> gotime \<Rightarrow> IdempotencyKey query" where
  "CreateIdempotencyKey key scope hash expires E u d =
     (if \<exists>k \<in> set (idempotency_keys d). ik_ID k = u \<or> (ik_Scope k = scope \<and> ik_Key k = key) then SqlError ''23505''
      else (let k = \<lparr>ik_ID = u, ik_Key = key, ik_Scope = scope, ik_RequestHash = hash, ik_ResponseStatus = None,
                     ik_ResponseBody = None, ik_CreatedAt = pg_now E, ik_ExpiresAt = timestamptz expires\<rparr>
            in Rows k (d\<lparr>idempotency_keys := idempotency_keys d @ [k]\<rparr>)))"

definition CompleteIdempotencyKey :: "string \<Rightarrow> string \<Rightarrow> int \<Rightarrow> json \<Rightarrow> IdempotencyKey query" where
  "CompleteIdempotencyKey scope key status body E u d =
     (case find (\<lambda>k. ik_Scope k = scope \<and> ik_Key k = key) (idempotency_keys d) of
        None \<Rightarrow> NoRows
      | Some k \<Rightarrow> (let k' = k\<lparr>ik_ResponseStatus := Some status, ik_ResponseBody := Some body\<rparr>
          in Rows k' (d\<lparr>idempotency_keys := map (\<lambda>r. if ik_Scope r = scope \<and> ik_Key r = key then k' else r)
                        (idempotency_keys d)\<rparr>)))"

section \<open>reconciliation\_snapshots\<close>

record AggregateSettlementJobStatsRow =
  ag_TotalJobCount :: int
  ag_PendingCount :: int
  ag_ProcessingCount :: int
  ag_FailedCount :: int
  ag_DeadLetterCount :: int
  ag_SucceededCount :: int
  ag_ExpectedTotalCents :: int
  ag_SucceededTotalCents :: int

definition count_status :: "SettlementJobStatus \<Rightarrow> db \<Rightarrow> int" where
  "count_status s d = int (length (filter (\<lambda>j. sj_Status j = s) (settlement_jobs d)))"

definition total_net :: "SettlementJob list \<Rightarrow> int" where
  "total_net js = sum_list (map sj_NetPayoutCents js)"

definition AggregateSettlementJobStats :: "AggregateSettlementJobStatsRow query" where
  "AggregateSettlementJobStats E u d =
     (let jobs = settlement_jobs d;
          expected = total_net jobs;
          succeeded = total_net (filter (\<lambda>j. sj_Status j = SettlementJobStatusSucceeded) jobs)
      in if \<not> in_int32 (int (length jobs)) \<or> \<not> in_int64 expected \<or> \<not> in_int64 succeeded then SqlError ''22003''
         else Rows \<lparr>ag_TotalJobCount = int (length jobs),
                    ag_PendingCount = count_status SettlementJobStatusPending d,
                    ag_ProcessingCount = count_status SettlementJobStatusProcessing d,
                    ag_FailedCount = count_status SettlementJobStatusFailed d,
                    ag_DeadLetterCount = count_status SettlementJobStatusDeadLetter d,
                    ag_SucceededCount = count_status SettlementJobStatusSucceeded d,
                    ag_ExpectedTotalCents = expected,
                    ag_SucceededTotalCents = succeeded\<rparr> d)"

record CreateReconciliationSnapshotParams =
  cr_ExpectedJobCount :: int
  cr_ExpectedTotalCents :: int
  cr_SucceededCount :: int
  cr_SucceededTotalCents :: int
  cr_PendingCount :: int
  cr_FailedCount :: int
  cr_DeadLetterCount :: int
  cr_DiscrepancyCents :: int
  cr_Details :: json

definition new_snapshot :: "CreateReconciliationSnapshotParams \<Rightarrow> tx_env \<Rightarrow> uuid \<Rightarrow> ReconciliationSnapshot" where
  "new_snapshot arg E u =
     \<lparr>rs_ID = u, rs_SnapshotAt = pg_now E, rs_ExpectedJobCount = cr_ExpectedJobCount arg,
      rs_ExpectedTotalCents = cr_ExpectedTotalCents arg, rs_SucceededCount = cr_SucceededCount arg,
      rs_SucceededTotalCents = cr_SucceededTotalCents arg, rs_PendingCount = cr_PendingCount arg,
      rs_FailedCount = cr_FailedCount arg, rs_DeadLetterCount = cr_DeadLetterCount arg,
      rs_DiscrepancyCents = cr_DiscrepancyCents arg, rs_Details = cr_Details arg\<rparr>"

definition CreateReconciliationSnapshot :: "CreateReconciliationSnapshotParams \<Rightarrow> ReconciliationSnapshot query" where
  "CreateReconciliationSnapshot arg E u d =
     (if \<exists>r \<in> set (reconciliation_snapshots d). rs_ID r = u then SqlError ''23505''
      else Rows (new_snapshot arg E u)
             (d\<lparr>reconciliation_snapshots := reconciliation_snapshots d @ [new_snapshot arg E u]\<rparr>))"

definition GetLatestReconciliationSnapshot :: "ReconciliationSnapshot query" where
  "GetLatestReconciliationSnapshot E u d =
     (case sort_key (\<lambda>r. (- rs_SnapshotAt r, row_rank E (rs_ID r))) (reconciliation_snapshots d) of
        [] \<Rightarrow> NoRows | r # _ \<Rightarrow> Rows r d)"

definition has_entries :: "db \<Rightarrow> uuid \<Rightarrow> bool" where
  "has_entries d i \<longleftrightarrow> (\<exists>e \<in> set (ledger_entries d). le_SettlementJobID e = i)"

definition int_count :: "int \<Rightarrow> db \<Rightarrow> int sql_result" where
  "int_count n d = (if in_int32 n then Rows n d else SqlError ''22003'')"

definition CountSucceededJobsWithoutLedger :: "int query" where
  "CountSucceededJobsWithoutLedger E u d =
     int_count (int (length (filter (\<lambda>j. sj_Status j = SettlementJobStatusSucceeded \<and> \<not> has_entries d (sj_ID j))
       (settlement_jobs d)))) d"

definition CountOrphanLedgerJobGroups :: "int query" where
  "CountOrphanLedgerJobGroups E u d =
     int_count (int (length (remdups (map le_SettlementJobID (filter
       (\<lambda>e. \<not> (\<exists>j \<in> set (settlement_jobs d). sj_ID j = le_SettlementJobID e \<and> sj_Status j = SettlementJobStatusSucceeded))
       (ledger_entries d)))))) d"

definition CountStalePendingJobs :: "int query" where
  "CountStalePendingJobs E u d =
     int_count (int (length (filter (\<lambda>j. sj_Status j = SettlementJobStatusPending
       \<and> sj_CreatedAt j < pg_now E - 3600 * Second) (settlement_jobs d)))) d"

definition Ping :: "int query" where
  "Ping E u d = Rows 1 d"

section \<open>Statements that only read\<close>

lemmas read_defs = GetSettlementJobByID_def GetSettlementJobByMaturityScheduleID_def GetInvestmentByID_def
  GetMaturityScheduleByID_def ListDueMaturitySchedules_def GetNextAttemptNumber_def ListPayoutAttemptsByJobID_def
  GetLedgerAccountByCode_def GetLedgerEntryGroupIDByJobID_def ListLedgerEntriesByJobID_def ListLedgerAccounts_def
  ListSettlementJobs_def ListLedgerEntries_def ListAuditEvents_def ListReconciliationSnapshots_def
  ListAuditEventsByEntity_def GetActiveIdempotencyKey_def AggregateSettlementJobStats_def
  GetLatestReconciliationSnapshot_def CountSucceededJobsWithoutLedger_def CountOrphanLedgerJobGroups_def
  CountStalePendingJobs_def int_count_def Ping_def

lemma reads_unchanged:
  "GetSettlementJobByID i E u d = Rows x1 d' \<Longrightarrow> d' = d"
  "GetSettlementJobByMaturityScheduleID i E u d = Rows x1 d' \<Longrightarrow> d' = d"
  "GetInvestmentByID i E u d = Rows x2 d' \<Longrightarrow> d' = d"
  "GetMaturityScheduleByID i E u d = Rows x3 d' \<Longrightarrow> d' = d"
  "ListDueMaturitySchedules E u d = Rows x4 d' \<Longrightarrow> d' = d"
  "GetNextAttemptNumber i E u d = Rows x5 d' \<Longrightarrow> d' = d"
  "ListPayoutAttemptsByJobID i E u d = Rows x6 d' \<Longrightarrow> d' = d"
  "GetLedgerAccountByCode c E u d = Rows x7 d' \<Longrightarrow> d' = d"
  "GetLedgerEntryGroupIDByJobID i E u d = Rows x8 d' \<Longrightarrow> d' = d"
  "ListLedgerEntriesByJobID i E u d = Rows x9 d' \<Longrightarrow> d' = d"
  "ListLedgerAccounts E u d = Rows x10 d' \<Longrightarrow> d' = d"
  "ListSettlementJobs p1 E u d = Rows x11 d' \<Longrightarrow> d' = d"
  "ListLedgerEntries p2 E u d = Rows x12 d' \<Longrightarrow> d' = d"
  "ListAuditEvents p3 E u d = Rows x13 d' \<Longrightarrow> d' = d"
  "ListReconciliationSnapshots t i' n E u d = Rows x14 d' \<Longrightarrow> d' = d"
  "ListAuditEventsByEntity c i n E u d = Rows x15 d' \<Longrightarrow> d' = d"
  "GetActiveIdempotencyKey c c' E u d = Rows x16 d' \<Longrightarrow> d' = d"
  "AggregateSettlementJobStats E u d = Rows x17 d' \<Longrightarrow> d' = d"
  "GetLatestReconciliationSnapshot E u d = Rows x18 d' \<Longrightarrow> d' = d"
  "CountSucceededJobsWithoutLedger E u d = Rows x5 d' \<Longrightarrow> d' = d"
  "CountOrphanLedgerJobGroups E u d = Rows x5 d' \<Longrightarrow> d' = d"
  "CountStalePendingJobs E u d = Rows x5 d' \<Longrightarrow> d' = d"
  "Ping E u d = Rows x5 d' \<Longrightarrow> d' = d"
  by (auto simp: read_defs Let_def split: option.splits list.splits if_splits)

context db_preorder
begin

lemma read_keeps:
  "query_keeps R (GetSettlementJobByID i)"
  "query_keeps R (GetSettlementJobByMaturityScheduleID i)"
  "query_keeps R (GetInvestmentByID i)"
  "query_keeps R (GetMaturityScheduleByID i)"
  "query_keeps R ListDueMaturitySchedules"
  "query_keeps R (GetNextAttemptNumber i)"
  "query_keeps R (ListPayoutAttemptsByJobID i)"
  "query_keeps R (GetLedgerAccountByCode c)"
  "query_keeps R (GetLedgerEntryGroupIDByJobID i)"
  "query_keeps R (ListLedgerEntriesByJobID i)"
  "query_keeps R ListLedgerAccounts"
  "query_keeps R (ListSettlementJobs p1)"
  "query_keeps R (ListLedgerEntries p2)"
  "query_keeps R (ListAuditEvents p3)"
  "query_keeps R (ListReconciliationSnapshots t i' n)"
  "query_keeps R (ListAuditEventsByEntity c i n)"
  "query_keeps R (GetActiveIdempotencyKey c c')"
  "query_keeps R AggregateSettlementJobStats"
  "query_keeps R GetLatestReconciliationSnapshot"
  "query_keeps R CountSucceededJobsWithoutLedger"
  "query_keeps R CountOrphanLedgerJobGroups"
  "query_keeps R CountStalePendingJobs"
  "query_keeps R Ping"
  by (auto simp: query_keeps_def dest: reads_unchanged)

end

end
