(* ===== verification/Repos.thy ===== *)
theory Repos
  imports Queries_Ops
begin

text \<open>
  The repositories of \<^verbatim>\<open>internal/store/*.go\<close>: each method is one or more statements of
  \<open>Queries\<close> and \<open>Queries_Ops\<close> run in the caller's transaction, with the driver's errors turned into the
  sentinels of \<^verbatim>\<open>store/errors.go\<close>. The locale \<open>settlement_store\<close> states what a reader of the
  engine wants to know once: a relation every statement respects is respected by every method, and,
  in the later theories, by every service.
\<close>

section \<open>Conversions\<close>

definition UUIDToPgtype :: "uuid \<Rightarrow> uuid option" where
  "UUIDToPgtype i = Some i"

definition PgtypeToUUID :: "uuid option \<Rightarrow> uuid res" where
  "PgtypeToUUID i = (case i of None \<Rightarrow> Inl (Errorf ''invalid uuid'' []) | Some b \<Rightarrow> Inr b)"

definition StringToPgtypeUUID :: "golib \<Rightarrow> string \<Rightarrow> uuid option res" where
  "StringToPgtypeUUID L value =
     (case uuid_Parse L value of None \<Rightarrow> Inl (Errorf ''invalid UUID'' []) | Some i \<Rightarrow> Inr (UUIDToPgtype i))"

lemma PgtypeToUUID_Some [simp]: "PgtypeToUUID (Some i) = Inr i"
  by (simp add: PgtypeToUUID_def)

section \<open>Errors\<close>

definition isUniqueViolation :: "go_error \<Rightarrow> bool" where
  "isUniqueViolation err \<longleftrightarrow> pg_code err = Some ''23505''"

definition IsNotFound :: "go_error \<Rightarrow> bool" where
  "IsNotFound err \<longleftrightarrow> errors_Is err ErrNotFound \<or> errors_Is err PgxErrNoRows"

text \<open>\<^verbatim>\<open>if errors.Is(err, pgx.ErrNoRows) { return sentinel }; return fmt.Errorf("...: %w", err)\<close>\<close>

definition noRowsAs :: "go_error \<Rightarrow> string \<Rightarrow> 'a txm \<Rightarrow> 'a txm" where
  "noRowsAs sentinel f m = tryE m (\<lambda>r. case r of
       Inr x \<Rightarrow> returnE x
     | Inl e \<Rightarrow> if errors_Is e PgxErrNoRows then failE sentinel else failE (WrapPre f [] e))"

definition clamp_limit :: "int \<Rightarrow> int" where
  "clamp_limit l = (let limit = (if l \<le> 0 then 50 else l) in if limit > 200 then 200 else limit)"

section \<open>SettlementJobRepo\<close>

definition SettlementJobRepo_CreateIdempotent ::
    "tx_env \<Rightarrow> CreateSettlementJobParams \<Rightarrow> (SettlementJob \<times> bool) txm" where
  "SettlementJobRepo_CreateIdempotent E params =
     tryE (run_stmt E (GetSettlementJobByMaturityScheduleID (cj_MaturityScheduleID params))) (\<lambda>r. case r of
       Inr existing \<Rightarrow> returnE (existing, False)
     | Inl err \<Rightarrow>
         if \<not> errors_Is err PgxErrNoRows then failE (WrapPre ''get settlement job before create'' [] err)
         else tryE (run_stmt E (CreateSettlementJob params)) (\<lambda>r. case r of
           Inr job \<Rightarrow> returnE (job, True)
         | Inl err \<Rightarrow>
             if isUniqueViolation err
             then tryE (run_stmt E (GetSettlementJobByMaturityScheduleID (cj_MaturityScheduleID params))) (\<lambda>r. case r of
                 Inl getErr \<Rightarrow> failE (WrapPre ''get settlement job after conflict'' [] getErr)
               | Inr existing \<Rightarrow> returnE (existing, False))
             else failE (WrapPre ''create settlement job'' [] err)))"

definition SettlementJobRepo_Claim :: "tx_env \<Rightarrow> string \<Rightarrow> SettlementJob txm" where
  "SettlementJobRepo_Claim E workerID =
     noRowsAs ErrNoJobAvailable ''claim settlement job'' (run_stmt E (ClaimSettlementJob workerID))"

definition SettlementJobRepo_MarkSucceeded :: "tx_env \<Rightarrow> uuid \<Rightarrow> string \<Rightarrow> SettlementJob txm" where
  "SettlementJobRepo_MarkSucceeded E jobID payoutReference =
     noRowsAs ErrConflict ''mark job succeeded'' (run_stmt E (MarkJobSucceeded jobID payoutReference))"

definition SettlementJobRepo_MarkFailedRetryable :: "tx_env \<Rightarrow> uuid \<Rightarrow> gotime \<Rightarrow> string \<Rightarrow> SettlementJob txm" where
  "SettlementJobRepo_MarkFailedRetryable E jobID nextRetryAt lastError =
     noRowsAs ErrConflict ''mark job failed retryable'' (run_stmt E (MarkJobFailedRetryable jobID nextRetryAt lastError))"

definition SettlementJobRepo_MarkDeadLetter ::
    "tx_env \<Rightarrow> uuid \<Rightarrow> string \<Rightarrow> string \<Rightarrow> ErrorClass \<Rightarrow> SettlementJob txm" where
  "SettlementJobRepo_MarkDeadLetter E jobID reason lastError cls =
     noRowsAs ErrConflict ''mark job dead letter'' (run_stmt E (MarkJobDeadLetter jobID reason lastError cls))"

definition SettlementJobRepo_ReplayDeadLetter :: "tx_env \<Rightarrow> uuid \<Rightarrow> SettlementJob txm" where
  "SettlementJobRepo_ReplayDeadLetter E jobID =
     noRowsAs ErrConflict ''replay dead letter job'' (run_stmt E (ReplayDeadLetterJob jobID))"

definition SettlementJobRepo_ExpireStaleLeases :: "tx_env \<Rightarrow> gotime \<Rightarrow> SettlementJob list txm" where
  "SettlementJobRepo_ExpireStaleLeases E olderThan =
     wrapE ''expire stale processing jobs'' [] (run_stmt E (ExpireStaleProcessingJobs olderThan))"

definition SettlementJobRepo_GetByMaturityScheduleID :: "tx_env \<Rightarrow> uuid \<Rightarrow> SettlementJob txm" where
  "SettlementJobRepo_GetByMaturityScheduleID E maturityScheduleID =
     noRowsAs ErrNotFound ''get settlement job'' (run_stmt E (GetSettlementJobByMaturityScheduleID maturityScheduleID))"

definition SettlementJobRepo_GetByID :: "tx_env \<Rightarrow> uuid \<Rightarrow> SettlementJob txm" where
  "SettlementJobRepo_GetByID E jobID =
     noRowsAs ErrNotFound ''get settlement job by id'' (run_stmt E (GetSettlementJobByID jobID))"

definition SettlementJobRepo_List :: "tx_env \<Rightarrow> ListSettlementJobsParams \<Rightarrow> SettlementJob list txm" where
  "SettlementJobRepo_List E flt =
     wrapE ''list settlement jobs'' []
       (run_stmt E (ListSettlementJobs (flt\<lparr>lj_LimitVal := clamp_limit (lj_LimitVal flt)\<rparr>)))"

definition SettlementJobRepo_RequeueFailed :: "tx_env \<Rightarrow> uuid \<Rightarrow> SettlementJob txm" where
  "SettlementJobRepo_RequeueFailed E jobID =
     noRowsAs ErrConflict ''requeue failed job'' (run_stmt E (RequeueFailedJob jobID))"

section \<open>MaturityRepo, PayoutAttemptRepo\<close>

definition MaturityRepo_ListDue :: "tx_env \<Rightarrow> (MaturitySchedule \<times> Investment) list txm" where
  "MaturityRepo_ListDue E = wrapE ''list due maturities'' [] (run_stmt E ListDueMaturitySchedules)"

definition MaturityRepo_MarkSettled :: "tx_env \<Rightarrow> uuid \<Rightarrow> MaturitySchedule txm" where
  "MaturityRepo_MarkSettled E maturityScheduleID =
     noRowsAs ErrConflict ''mark maturity settled'' (run_stmt E (MarkMaturitySettled maturityScheduleID))"

definition PayoutAttemptRepo_Start :: "tx_env \<Rightarrow> uuid \<Rightarrow> PayoutAttempt txm" where
  "PayoutAttemptRepo_Start E jobID =
     bindE (wrapE ''get next attempt number'' [] (run_stmt E (GetNextAttemptNumber jobID)))
       (\<lambda>next. wrapE ''create payout attempt'' [] (run_stmt E (CreatePayoutAttempt jobID next)))"

definition PayoutAttemptRepo_MarkSucceeded :: "tx_env \<Rightarrow> uuid \<Rightarrow> string \<Rightarrow> PayoutAttempt txm" where
  "PayoutAttemptRepo_MarkSucceeded E attemptID payoutReference =
     noRowsAs ErrConflict ''finish payout attempt success'' (run_stmt E (FinishPayoutAttemptSuccess attemptID payoutReference))"

definition PayoutAttemptRepo_MarkFailed :: "tx_env \<Rightarrow> uuid \<Rightarrow> string \<Rightarrow> ErrorClass \<Rightarrow> PayoutAttempt txm" where
  "PayoutAttemptRepo_MarkFailed E attemptID message cls =
     noRowsAs ErrConflict ''finish payout attempt failure'' (run_stmt E (FinishPayoutAttemptFailure attemptID message cls))"

definition PayoutAttemptRepo_ListByJobID :: "tx_env \<Rightarrow> uuid \<Rightarrow> PayoutAttempt list txm" where
  "PayoutAttemptRepo_ListByJobID E jobID =
     wrapE ''list payout attempts'' [] (run_stmt E (ListPayoutAttemptsByJobID jobID))"

section \<open>LedgerRepo\<close>

record LedgerLineInput =
  li_AccountCode :: string
  li_AccountName :: string
  li_AccountType :: string
  li_Side :: string
  li_AmountCents :: int
  li_Currency :: string
  li_Description :: string
  li_Metadata :: json

definition LedgerRepo_GetEntryGroupID :: "tx_env \<Rightarrow> uuid \<Rightarrow> uuid txm" where
  "LedgerRepo_GetEntryGroupID E jobID =
     noRowsAs ErrNotFound ''get ledger entry group'' (run_stmt E (GetLedgerEntryGroupIDByJobID jobID))"

definition post_line :: "tx_env \<Rightarrow> uuid \<Rightarrow> uuid \<Rightarrow> LedgerLineInput \<Rightarrow> LedgerEntry txm" where
  "post_line E jobID entryGroupID line =
     bindE (wrapE ''upsert ledger account %s'' [ArgStr (li_AccountCode line)]
              (run_stmt E (UpsertLedgerAccount (li_AccountCode line) (li_AccountName line) (li_AccountType line))))
       (\<lambda>account. wrapE ''insert ledger entry'' []
          (run_stmt E (InsertLedgerEntry
             \<lparr>ip_EntryGroupID = entryGroupID, ip_SettlementJobID = jobID, ip_AccountID = la_ID account,
              ip_Side = li_Side line, ip_AmountCents = li_AmountCents line, ip_Currency = li_Currency line,
              ip_Description = li_Description line, ip_Metadata = li_Metadata line\<rparr>)))"

definition LedgerRepo_PostEntries ::
    "golib \<Rightarrow> tx_env \<Rightarrow> uuid \<Rightarrow> uuid \<Rightarrow> LedgerLineInput list \<Rightarrow> LedgerEntry list txm" where
  "LedgerRepo_PostEntries L E jobID entryGroupID lines =
     tryE (run_stmt E (GetLedgerEntryGroupIDByJobID jobID)) (\<lambda>r. case r of
       Inr existing \<Rightarrow>
         bindE (liftE (PgtypeToUUID (Some existing)))
           (\<lambda>i. failE (WrapPost ErrLedgerAlreadyPosted ''group %s'' [ArgStr (uuid_String L i)]))
     | Inl err \<Rightarrow>
         if \<not> errors_Is err PgxErrNoRows then failE (WrapPre ''check existing ledger posting'' [] err)
         else mapE (post_line E jobID entryGroupID) lines)"

definition LedgerRepo_ListByJobID :: "tx_env \<Rightarrow> uuid \<Rightarrow> LedgerEntry list txm" where
  "LedgerRepo_ListByJobID E jobID = wrapE ''list ledger entries'' [] (run_stmt E (ListLedgerEntriesByJobID jobID))"

definition LedgerRepo_List :: "tx_env \<Rightarrow> ListLedgerEntriesParams \<Rightarrow> LedgerEntry list txm" where
  "LedgerRepo_List E flt =
     wrapE ''list ledger entries'' []
       (run_stmt E (ListLedgerEntries (flt\<lparr>ll_LimitVal := clamp_limit (ll_LimitVal flt)\<rparr>)))"

definition LedgerRepo_ListAccounts :: "tx_env \<Rightarrow> LedgerAccount list txm" where
  "LedgerRepo_ListAccounts E = wrapE ''list ledger accounts'' [] (run_stmt E ListLedgerAccounts)"

section \<open>IdempotencyRepo\<close>

definition IdempotencyRepo_GetActive :: "tx_env \<Rightarrow> string \<Rightarrow> string \<Rightarrow> IdempotencyKey txm" where
  "IdempotencyRepo_GetActive E scope key =
     noRowsAs ErrNotFound ''get active idempotency key'' (run_stmt E (GetActiveIdempotencyKey scope key))"

record ReserveIdempotencyParams =
  rp_Scope :: string
  rp_Key :: string
  rp_RequestHash :: "string option"
  rp_ExpiresAt :: gotime

definition IdempotencyRepo_Reserve :: "tx_env \<Rightarrow> ReserveIdempotencyParams \<Rightarrow> IdempotencyKey txm" where
  "IdempotencyRepo_Reserve E params =
     tryE (run_stmt E (CreateIdempotencyKey (rp_Key params) (rp_Scope params) (rp_RequestHash params) (rp_ExpiresAt params)))
       (\<lambda>r. case r of
          Inr row \<Rightarrow> returnE row
        | Inl err \<Rightarrow> if isUniqueViolation err then failE ErrIdempotencyKeyExists
                    else failE (WrapPre ''create idempotency key'' [] err))"

definition IdempotencyRepo_Complete :: "tx_env \<Rightarrow> string \<Rightarrow> string \<Rightarrow> int \<Rightarrow> json \<Rightarrow> IdempotencyKey txm" where
  "IdempotencyRepo_Complete E scope key status body =
     noRowsAs ErrNotFound ''complete idempotency key'' (run_stmt E (CompleteIdempotencyKey scope key status body))"

section \<open>ReconciliationRepo\<close>

definition ReconciliationRepo_CreateSnapshot :: "tx_env \<Rightarrow> ReconciliationSnapshot txm" where
  "ReconciliationRepo_CreateSnapshot E =
     bindE (wrapE ''aggregate settlement job stats'' [] (run_stmt E AggregateSettlementJobStats)) (\<lambda>stats.
       let discrepancy = wrap64 (ag_ExpectedTotalCents stats - ag_SucceededTotalCents stats);
           details = JObj [(''total_job_count'', JInt (ag_TotalJobCount stats)),
                           (''processing_count'', JInt (ag_ProcessingCount stats)),
                           (''pending_count'', JInt (ag_PendingCount stats)),
                           (''failed_count'', JInt (ag_FailedCount stats)),
                           (''dead_letter_count'', JInt (ag_DeadLetterCount stats)),
                           (''succeeded_count'', JInt (ag_SucceededCount stats))]
       in wrapE ''create reconciliation snapshot'' []
            (run_stmt E (CreateReconciliationSnapshot
               \<lparr>cr_ExpectedJobCount = ag_TotalJobCount stats, cr_ExpectedTotalCents = ag_ExpectedTotalCents stats,
                cr_SucceededCount = ag_SucceededCount stats, cr_SucceededTotalCents = ag_SucceededTotalCents stats,
                cr_PendingCount = ag_PendingCount stats, cr_FailedCount = ag_FailedCount stats,
                cr_DeadLetterCount = ag_DeadLetterCount stats, cr_DiscrepancyCents = discrepancy,
                cr_Details = details\<rparr>)))"

definition ReconciliationRepo_GetLatest :: "tx_env \<Rightarrow> ReconciliationSnapshot txm" where
  "ReconciliationRepo_GetLatest E =
     noRowsAs ErrNotFound ''get latest reconciliation snapshot'' (run_stmt E GetLatestReconciliationSnapshot)"

definition ReconciliationRepo_List :: "tx_env \<Rightarrow> gotime option \<Rightarrow> uuid option \<Rightarrow> int \<Rightarrow> ReconciliationSnapshot list txm" where
  "ReconciliationRepo_List E cursorTime cursorID limit =
     wrapE ''list reconciliation snapshots'' []
       (run_stmt E (ListReconciliationSnapshots cursorTime cursorID (clamp_limit limit)))"

record ReconciliationFlagCounts =
  fc_MissingLedger :: int
  fc_OrphanLedger :: int
  fc_StalePending :: int

definition ReconciliationRepo_FlagCounts :: "tx_env \<Rightarrow> ReconciliationFlagCounts txm" where
  "ReconciliationRepo_FlagCounts E =
     bindE (wrapE ''count missing ledger'' [] (run_stmt E CountSucceededJobsWithoutLedger)) (\<lambda>missing.
     bindE (wrapE ''count orphan ledger'' [] (run_stmt E CountOrphanLedgerJobGroups)) (\<lambda>orphan.
     bindE (wrapE ''count stale pending'' [] (run_stmt E CountStalePendingJobs)) (\<lambda>stale.
     returnE \<lparr>fc_MissingLedger = missing, fc_OrphanLedger = orphan, fc_StalePending = stale\<rparr>)))"

section \<open>AuditRepo\<close>

definition AuditRepo_Record :: "tx_env \<Rightarrow> CreateAuditEventParams \<Rightarrow> AuditEvent txm" where
  "AuditRepo_Record E input = wrapE ''create audit event'' [] (run_stmt E (CreateAuditEvent input))"

definition AuditRepo_ListByEntity :: "tx_env \<Rightarrow> string \<Rightarrow> uuid \<Rightarrow> int \<Rightarrow> AuditEvent list txm" where
  "AuditRepo_ListByEntity E entityType entityID limit =
     wrapE ''list audit events'' [] (run_stmt E (ListAuditEventsByEntity entityType entityID limit))"

definition AuditRepo_List :: "tx_env \<Rightarrow> ListAuditEventsParams \<Rightarrow> AuditEvent list txm" where
  "AuditRepo_List E flt =
     wrapE ''list audit events'' []
       (run_stmt E (ListAuditEvents (flt\<lparr>lv_LimitVal := clamp_limit (lv_LimitVal flt)\<rparr>)))"

section \<open>Running a method\<close>

lemma noRowsAs_Inr [simp]: "noRowsAs s f m st = (Inr x, st') \<longleftrightarrow> m st = (Inr x, st')"
  by (auto simp: noRowsAs_def tryE_def returnE_def failE_def split: prod.splits sum.splits if_splits)

lemma noRowsAs_Inl:
  "noRowsAs s f m st = (Inl e, st') \<longleftrightarrow>
     (\<exists>e'. m st = (Inl e', st') \<and> e = (if errors_Is e' PgxErrNoRows then s else WrapPre f [] e'))"
  by (auto simp: noRowsAs_def tryE_def returnE_def failE_def split: prod.splits sum.splits if_splits)

lemma clamp_limit_range: "1 \<le> clamp_limit l \<and> clamp_limit l \<le> 200"
  by (simp add: clamp_limit_def Let_def)

section \<open>What every method respects\<close>

lemmas repo_defs = SettlementJobRepo_CreateIdempotent_def SettlementJobRepo_Claim_def
  SettlementJobRepo_MarkSucceeded_def SettlementJobRepo_MarkFailedRetryable_def SettlementJobRepo_MarkDeadLetter_def
  SettlementJobRepo_ReplayDeadLetter_def SettlementJobRepo_ExpireStaleLeases_def
  SettlementJobRepo_GetByMaturityScheduleID_def SettlementJobRepo_GetByID_def SettlementJobRepo_List_def
  SettlementJobRepo_RequeueFailed_def MaturityRepo_ListDue_def MaturityRepo_MarkSettled_def
  PayoutAttemptRepo_Start_def PayoutAttemptRepo_MarkSucceeded_def PayoutAttemptRepo_MarkFailed_def
  PayoutAttemptRepo_ListByJobID_def LedgerRepo_GetEntryGroupID_def post_line_def LedgerRepo_PostEntries_def
  LedgerRepo_ListByJobID_def LedgerRepo_List_def LedgerRepo_ListAccounts_def IdempotencyRepo_GetActive_def
  IdempotencyRepo_Reserve_def IdempotencyRepo_Complete_def ReconciliationRepo_CreateSnapshot_def
  ReconciliationRepo_GetLatest_def ReconciliationRepo_List_def ReconciliationRepo_FlagCounts_def
  AuditRepo_Record_def AuditRepo_ListByEntity_def AuditRepo_List_def

context db_preorder
begin

lemma keeps_noRowsAs [tx_intros]: "keeps R m \<Longrightarrow> keeps R (noRowsAs s f m)"
  unfolding noRowsAs_def
  by (intro keeps_try) (auto intro: keeps_fail keeps_return split: sum.splits)

end

text \<open>
  The statements of the engine, and on top of them those of the idempotency keys: a relation that the engine respects is a weaker
  contract than one that every statement of the program respects.
\<close>

locale engine_store = db_preorder +
  assumes jobs_keep:
      "query_keeps R (CreateSettlementJob p)" "query_keeps R (ClaimSettlementJob w)"
      "query_keeps R (MarkJobSucceeded i ref)" "query_keeps R (MarkJobFailedRetryable i t msg)"
      "query_keeps R (MarkJobDeadLetter i reason msg c)" "query_keeps R (ReplayDeadLetterJob i)"
      "query_keeps R (RequeueFailedJob i)" "query_keeps R (ExpireStaleProcessingJobs t)"
    and maturities_keep: "query_keeps R (MarkMaturitySettled i)"
    and attempts_keep: "query_keeps R (CreatePayoutAttempt i n)" "query_keeps R (FinishPayoutAttemptSuccess i ref)"
      "query_keeps R (FinishPayoutAttemptFailure i msg c)"
    and ledger_keep: "query_keeps R (UpsertLedgerAccount code name typ)" "query_keeps R (InsertLedgerEntry q)"
    and ops_keep: "query_keeps R (CreateAuditEvent a)" "query_keeps R (CreateReconciliationSnapshot s)"
begin

lemmas stmts_keep = jobs_keep maturities_keep attempts_keep ledger_keep ops_keep read_keeps

lemma job_repo_keeps [tx_intros]:
  "keeps R (SettlementJobRepo_Claim E w)"
  "keeps R (SettlementJobRepo_MarkSucceeded E i ref)"
  "keeps R (SettlementJobRepo_MarkFailedRetryable E i t msg)"
  "keeps R (SettlementJobRepo_MarkDeadLetter E i reason msg c)"
  "keeps R (SettlementJobRepo_ReplayDeadLetter E i)"
  "keeps R (SettlementJobRepo_ExpireStaleLeases E t)"
  "keeps R (SettlementJobRepo_GetByMaturityScheduleID E i)"
  "keeps R (SettlementJobRepo_GetByID E i)"
  "keeps R (SettlementJobRepo_List E flt)"
  "keeps R (SettlementJobRepo_RequeueFailed E i)"
  unfolding repo_defs by (intro tx_intros stmts_keep)+

lemma CreateIdempotent_keeps [tx_intros]: "keeps R (SettlementJobRepo_CreateIdempotent E params)"
  unfolding repo_defs
  by (intro tx_intros stmts_keep)
     (auto intro!: tx_intros stmts_keep split: sum.splits)

lemma ledger_repo_keeps [tx_intros]:
  "keeps R (LedgerRepo_GetEntryGroupID E i)"
  "keeps R (LedgerRepo_ListByJobID E i)"
  "keeps R (LedgerRepo_List E lflt)"
  "keeps R (LedgerRepo_ListAccounts E)"
  unfolding repo_defs by (intro tx_intros stmts_keep)+

lemma PostEntries_keeps [tx_intros]: "keeps R (LedgerRepo_PostEntries L E i g lines)"
  unfolding LedgerRepo_PostEntries_def post_line_def
  by (intro tx_intros stmts_keep) (auto intro!: tx_intros stmts_keep split: sum.splits)

lemma other_repo_keeps [tx_intros]:
  "keeps R (MaturityRepo_ListDue E)"
  "keeps R (MaturityRepo_MarkSettled E i)"
  "keeps R (PayoutAttemptRepo_Start E i)"
  "keeps R (PayoutAttemptRepo_MarkSucceeded E i ref)"
  "keeps R (PayoutAttemptRepo_MarkFailed E i msg c)"
  "keeps R (PayoutAttemptRepo_ListByJobID E i)"
  "keeps R (IdempotencyRepo_GetActive E scope key)"
  "keeps R (ReconciliationRepo_GetLatest E)"
  "keeps R (ReconciliationRepo_List E ct ci n)"
  "keeps R (ReconciliationRepo_FlagCounts E)"
  "keeps R (AuditRepo_Record E input)"
  "keeps R (AuditRepo_ListByEntity E et i n)"
  "keeps R (AuditRepo_List E aflt)"
  unfolding repo_defs by (intro tx_intros stmts_keep)+

lemma CreateSnapshot_keeps [tx_intros]: "keeps R (ReconciliationRepo_CreateSnapshot E)"
  unfolding ReconciliationRepo_CreateSnapshot_def Let_def by (intro tx_intros stmts_keep)

end

locale settlement_store = engine_store +
  assumes keys_keep: "query_keeps R (CreateIdempotencyKey k scope h x)" "query_keeps R (CompleteIdempotencyKey scope k n body)"
begin

lemma key_repo_keeps [tx_intros]:
  "keeps R (IdempotencyRepo_Complete E scope key n body)"
  "keeps R (IdempotencyRepo_Reserve E rp)"
  unfolding IdempotencyRepo_Complete_def IdempotencyRepo_Reserve_def
  by (intro tx_intros keys_keep; auto intro!: tx_intros split: sum.splits)+

end

end
