(* ===== verification/Store_Laws.thy ===== *)
theory Store_Laws
  imports Repos
begin

text \<open>
  Two instances of \<open>settlement_store\<close>. The first: the ledger, the audit trail and the
  snapshots only grow, and the investments are never written. The second: the constraints of the schema in
  \<^verbatim>\<open>migrations/\<close> hold of the tables for ever once they hold, and a settlement job keeps its
  identity and its amounts, never loses a retry, and never changes again once it has succeeded.
\<close>

section \<open>Append-only tables\<close>

definition extends :: "'a list \<Rightarrow> 'a list \<Rightarrow> bool" where
  "extends xs ys \<longleftrightarrow> take (length xs) ys = xs"

lemma extends_refl [simp]: "extends xs xs"
  by (simp add: extends_def)

lemma extends_append [simp]: "extends xs (xs @ ys)"
  by (simp add: extends_def)

lemma extends_iff: "extends xs ys \<longleftrightarrow> (\<exists>zs. ys = xs @ zs)"
  by (metis append_take_drop_id extends_append extends_def)

lemma extends_trans: "extends xs ys \<Longrightarrow> extends ys zs \<Longrightarrow> extends xs zs"
  by (auto simp: extends_iff)

definition append_only :: "db \<Rightarrow> db \<Rightarrow> bool" where
  "append_only d d' \<longleftrightarrow> extends (ledger_entries d) (ledger_entries d')
     \<and> extends (audit_events d) (audit_events d')
     \<and> extends (reconciliation_snapshots d) (reconciliation_snapshots d')
     \<and> investments d' = investments d"

lemmas write_defs = CreateSettlementJob_def ClaimSettlementJob_def MarkJobSucceeded_def MarkJobFailedRetryable_def
  MarkJobDeadLetter_def ReplayDeadLetterJob_def RequeueFailedJob_def ExpireStaleProcessingJobs_def
  MarkMaturitySettled_def CreatePayoutAttempt_def FinishPayoutAttemptSuccess_def FinishPayoutAttemptFailure_def
  UpsertLedgerAccount_def InsertLedgerEntry_def CreateAuditEvent_def CreateIdempotencyKey_def
  CompleteIdempotencyKey_def CreateReconciliationSnapshot_def

interpretation append_only: settlement_store append_only
proof
  show "append_only d d" for d
    by (simp add: append_only_def)
  show "append_only d d' \<Longrightarrow> append_only d' d'' \<Longrightarrow> append_only d d''" for d d' d''
    by (auto simp: append_only_def intro: extends_trans)
qed (auto simp: query_keeps_def append_only_def write_defs update_job_def update_attempt_def replace_job_def Let_def
       split: option.splits if_splits)

section \<open>The schema\<close>

definition jobs_ok :: "db \<Rightarrow> bool" where
  "jobs_ok d \<longleftrightarrow> distinct (map sj_ID (settlement_jobs d))
     \<and> (\<forall>j \<in> set (settlement_jobs d). job_checks j \<and> job_range j
          \<and> sj_MaturityScheduleID j \<in> set (map ms_ID (maturity_schedules d))
          \<and> sj_InvestmentID j \<in> set (map inv_ID (investments d)))
     \<and> (\<forall>j \<in> set (settlement_jobs d). \<forall>k \<in> set (settlement_jobs d). sj_ID j \<noteq> sj_ID k \<longrightarrow> \<not> job_clash j k)"

definition maturities_ok :: "db \<Rightarrow> bool" where
  "maturities_ok d \<longleftrightarrow> distinct (map ms_ID (maturity_schedules d))
     \<and> distinct (map ms_InvestmentID (maturity_schedules d))
     \<and> distinct (map inv_ID (investments d))"

definition attempts_ok :: "db \<Rightarrow> bool" where
  "attempts_ok d \<longleftrightarrow> distinct (map pa_ID (payout_attempts d))
     \<and> (\<forall>a \<in> set (payout_attempts d). 0 < pa_AttemptNumber a
          \<and> pa_SettlementJobID a \<in> set (map sj_ID (settlement_jobs d)))
     \<and> (\<forall>a \<in> set (payout_attempts d). \<forall>b \<in> set (payout_attempts d). pa_ID a \<noteq> pa_ID b \<longrightarrow>
          (pa_SettlementJobID a, pa_AttemptNumber a) \<noteq> (pa_SettlementJobID b, pa_AttemptNumber b)
          \<and> (pa_PayoutReference a = None \<or> pa_PayoutReference a \<noteq> pa_PayoutReference b))"

definition ledger_ok :: "db \<Rightarrow> bool" where
  "ledger_ok d \<longleftrightarrow> distinct (map la_ID (ledger_accounts d)) \<and> distinct (map la_Code (ledger_accounts d))
     \<and> (\<forall>a \<in> set (ledger_accounts d). la_AccountType a \<in> account_types)
     \<and> distinct (map le_ID (ledger_entries d))
     \<and> distinct (map (\<lambda>e. (le_EntryGroupID e, le_AccountID e, le_Side e)) (ledger_entries d))
     \<and> (\<forall>e \<in> set (ledger_entries d). 0 < le_AmountCents e \<and> le_Side e \<in> {''D'', ''C''}
          \<and> le_SettlementJobID e \<in> set (map sj_ID (settlement_jobs d))
          \<and> le_AccountID e \<in> set (map la_ID (ledger_accounts d)))"

definition ops_ok :: "db \<Rightarrow> bool" where
  "ops_ok d \<longleftrightarrow> distinct (map (\<lambda>k. (ik_Scope k, ik_Key k)) (idempotency_keys d))
     \<and> distinct (map ae_ID (audit_events d)) \<and> distinct (map rs_ID (reconciliation_snapshots d))"

definition schema_ok :: "db \<Rightarrow> bool" where
  "schema_ok d \<longleftrightarrow> jobs_ok d \<and> maturities_ok d \<and> attempts_ok d \<and> ledger_ok d \<and> ops_ok d"

definition job_evolves :: "SettlementJob \<Rightarrow> SettlementJob \<Rightarrow> bool" where
  "job_evolves j j' \<longleftrightarrow> sj_ID j' = sj_ID j \<and> sj_MaturityScheduleID j' = sj_MaturityScheduleID j
     \<and> sj_InvestmentID j' = sj_InvestmentID j \<and> sj_IdempotencyKey j' = sj_IdempotencyKey j
     \<and> sj_PrincipalCents j' = sj_PrincipalCents j \<and> sj_GrossReturnCents j' = sj_GrossReturnCents j
     \<and> sj_PlatformFeeCents j' = sj_PlatformFeeCents j \<and> sj_WithholdingTaxCents j' = sj_WithholdingTaxCents j
     \<and> sj_NetPayoutCents j' = sj_NetPayoutCents j \<and> sj_MaxRetries j' = sj_MaxRetries j
     \<and> sj_CreatedAt j' = sj_CreatedAt j \<and> sj_RetryCount j \<le> sj_RetryCount j'
     \<and> (sj_Status j = SettlementJobStatusSucceeded \<longrightarrow> j' = j)"

definition jobs_evolve :: "db \<Rightarrow> db \<Rightarrow> bool" where
  "jobs_evolve d d' \<longleftrightarrow> (\<forall>j \<in> set (settlement_jobs d). \<exists>j' \<in> set (settlement_jobs d'). job_evolves j j')"

definition schema_step :: "db \<Rightarrow> db \<Rightarrow> bool" where
  "schema_step d d' \<longleftrightarrow> (schema_ok d \<longrightarrow> schema_ok d' \<and> jobs_evolve d d')"

subsection \<open>One row of settlement\_jobs changes\<close>

lemma job_evolves_refl [simp]: "job_evolves j j"
  by (simp add: job_evolves_def)

lemma job_evolves_trans: "job_evolves a b \<Longrightarrow> job_evolves b c \<Longrightarrow> job_evolves a c"
  by (auto simp: job_evolves_def)

lemma jobs_evolve_refl [simp]: "jobs_evolve d d"
  using job_evolves_refl unfolding jobs_evolve_def by blast

lemma job_clash_sym: "job_clash j k \<Longrightarrow> job_clash k j"
  by (auto simp: job_clash_def)

lemma map_replace_key:
  "map k (map (\<lambda>x. if k x = k y then y else x) xs) = map k xs"
  by (induction xs) auto

lemma replace_job_ids [simp]: "map sj_ID (settlement_jobs (replace_job j d)) = map sj_ID (settlement_jobs d)"
  by (simp add: replace_job_def del: map_map add: map_replace_key)

lemma set_replace_job:
  "j0 \<in> set (settlement_jobs d) \<Longrightarrow> sj_ID j = sj_ID j0 \<Longrightarrow>
   set (settlement_jobs (replace_job j d)) = insert j {k \<in> set (settlement_jobs d). sj_ID k \<noteq> sj_ID j}"
  by (auto simp: replace_job_def)

lemma replace_job_tables [simp]:
  "investments (replace_job j d) = investments d" "maturity_schedules (replace_job j d) = maturity_schedules d"
  "payout_attempts (replace_job j d) = payout_attempts d" "ledger_accounts (replace_job j d) = ledger_accounts d"
  "ledger_entries (replace_job j d) = ledger_entries d" "idempotency_keys (replace_job j d) = idempotency_keys d"
  "audit_events (replace_job j d) = audit_events d"
  "reconciliation_snapshots (replace_job j d) = reconciliation_snapshots d"
  by (simp_all add: replace_job_def)

lemma replace_job_jobs_ok:
  assumes "jobs_ok d" "j0 \<in> set (settlement_jobs d)" "job_evolves j0 j" "job_checks j"
    and "\<And>k. k \<in> set (settlement_jobs d) \<Longrightarrow> sj_ID k \<noteq> sj_ID j \<Longrightarrow> \<not> job_clash j k"
  shows "jobs_ok (replace_job j d)"
proof -
  from assms(3) have "sj_ID j = sj_ID j0" by (simp add: job_evolves_def)
  note set = set_replace_job [OF assms(2) this]
  have "job_checks k \<and> job_range k \<and> sj_MaturityScheduleID k \<in> set (map ms_ID (maturity_schedules d))
      \<and> sj_InvestmentID k \<in> set (map inv_ID (investments d))" if "k \<in> set (settlement_jobs (replace_job j d))" for k
    using that assms(1-4) unfolding set by (auto simp: jobs_ok_def job_evolves_def job_range_def)
  moreover have "\<not> job_clash k l" if "k \<in> set (settlement_jobs (replace_job j d))"
      "l \<in> set (settlement_jobs (replace_job j d))" "sj_ID k \<noteq> sj_ID l" for k l
    using that assms(1,5) unfolding set by (auto simp: jobs_ok_def dest: job_clash_sym)
  moreover have "distinct (map sj_ID (settlement_jobs (replace_job j d)))"
    using assms(1) by (simp only: replace_job_ids) (simp add: jobs_ok_def)
  ultimately show ?thesis
    unfolding jobs_ok_def by simp
qed

lemma replace_job_schema_step:
  assumes "j0 \<in> set (settlement_jobs d)" "job_evolves j0 j" "job_checks j"
    and "\<And>k. k \<in> set (settlement_jobs d) \<Longrightarrow> sj_ID k \<noteq> sj_ID j \<Longrightarrow> \<not> job_clash j k"
  shows "schema_step d (replace_job j d)"
  unfolding schema_step_def
proof
  assume ok: "schema_ok d"
  from ok assms have "jobs_ok (replace_job j d)"
    by (intro replace_job_jobs_ok) (auto simp: schema_ok_def)
  with ok have "schema_ok (replace_job j d)"
    unfolding schema_ok_def attempts_ok_def ledger_ok_def maturities_ok_def ops_ok_def
      replace_job_ids replace_job_tables by blast
  moreover have "jobs_evolve d (replace_job j d)"
    unfolding jobs_evolve_def
  proof
    fix k assume k: "k \<in> set (settlement_jobs d)"
    from assms(2) have id: "sj_ID j = sj_ID j0" by (simp add: job_evolves_def)
    show "\<exists>k' \<in> set (settlement_jobs (replace_job j d)). job_evolves k k'"
    proof (cases "sj_ID k = sj_ID j")
      case True
      with k id ok assms(1) have "k = j0"
        by (auto simp: schema_ok_def jobs_ok_def dest: distinct_map_same_key)
      with assms(1,2) id show ?thesis by (auto simp: set_replace_job)
    next
      case False
      with k assms(1) id show ?thesis by (auto simp: set_replace_job intro: bexI [of _ k])
    qed
  qed
  ultimately show "schema_ok (replace_job j d) \<and> jobs_evolve d (replace_job j d)" ..
qed

lemma update_job_Rows:
  "update_job i s f d = Rows x d' \<longleftrightarrow>
     (\<exists>j. find (\<lambda>j. sj_ID j = i \<and> sj_Status j = s) (settlement_jobs d) = Some j \<and> x = f j
        \<and> in_int32 (sj_RetryCount (f j)) \<and> job_checks (f j)
        \<and> (\<forall>k \<in> set (settlement_jobs d). sj_ID k \<noteq> i \<longrightarrow> \<not> job_clash (f j) k)
        \<and> d' = replace_job (f j) d)"
  by (auto simp: update_job_def split: option.splits if_splits)

lemma update_job_schema_step:
  assumes "update_job i s f d = Rows x d'" "\<And>j. sj_Status j = s \<Longrightarrow> job_evolves j (f j)"
  shows "schema_step d d'"
proof -
  from assms(1) obtain j where j: "find (\<lambda>j. sj_ID j = i \<and> sj_Status j = s) (settlement_jobs d) = Some j"
      and "job_checks (f j)" "\<forall>k \<in> set (settlement_jobs d). sj_ID k \<noteq> i \<longrightarrow> \<not> job_clash (f j) k"
      and d': "d' = replace_job (f j) d"
    by (auto simp: update_job_Rows)
  moreover from find_eq_SomeD [OF j] have "j \<in> set (settlement_jobs d)" "sj_ID j = i" "sj_Status j = s"
    by auto
  moreover from this assms(2) have "job_evolves j (f j)" by blast
  ultimately show ?thesis
    unfolding d' by (intro replace_job_schema_step) (auto simp: job_evolves_def)
qed

lemma job_updates_evolve:
  "sj_Status j = SettlementJobStatusProcessing \<Longrightarrow> job_evolves j (job_succeeded E ref j)"
  "sj_Status j = SettlementJobStatusProcessing \<Longrightarrow> job_evolves j (job_failed E t msg j)"
  "sj_Status j = SettlementJobStatusProcessing \<Longrightarrow> job_evolves j (job_dead E reason msg c j)"
  "sj_Status j = SettlementJobStatusDeadLetter \<Longrightarrow> job_evolves j (job_replayed E j)"
  "sj_Status j = SettlementJobStatusFailed \<Longrightarrow> job_evolves j (job_requeued E j)"
  "lease_stale c' j \<Longrightarrow> job_evolves j (lease_expired E j)"
  "claimable E j \<Longrightarrow> job_evolves j (claimed E w j)"
  by (auto simp: job_evolves_def job_succeeded_def job_failed_def job_dead_def job_replayed_def job_requeued_def
      lease_expired_def claimed_def lease_stale_def claimable_def)

lemma claim_candidate_SomeD:
  assumes "claim_candidate E d = Some j"
  shows "j \<in> set (settlement_jobs d)" "claimable E j" "\<not> row_locked E (sj_ID j)"
    and "\<And>k. k \<in> set (settlement_jobs d) \<Longrightarrow> claimable E k \<Longrightarrow> \<not> row_locked E (sj_ID k) \<Longrightarrow>
           claim_order E j \<le> claim_order E k"
proof -
  let ?F = "filter (\<lambda>j. claimable E j \<and> \<not> row_locked E (sj_ID j)) (settlement_jobs d)"
  from assms obtain ys where ys: "sort_key (claim_order E) ?F = j # ys"
    by (auto simp: claim_candidate_def split: list.splits)
  have set: "set (j # ys) = set ?F" by (metis set_sort ys)
  then show "j \<in> set (settlement_jobs d)" "claimable E j" "\<not> row_locked E (sj_ID j)" by auto
  fix k assume "k \<in> set (settlement_jobs d)" "claimable E k" "\<not> row_locked E (sj_ID k)"
  with set have "k \<in> set (j # ys)" by auto
  moreover have "sorted (map (claim_order E) (j # ys))" by (metis sorted_sort_key ys)
  ultimately show "claim_order E j \<le> claim_order E k" by auto
qed

lemma claim_schema_step:
  assumes "ClaimSettlementJob w E u d = Rows x d'"
  shows "schema_step d d'"
proof -
  from assms obtain j where j: "claim_candidate E d = Some j" and d': "d' = replace_job (claimed E w j) d"
    by (auto simp: ClaimSettlementJob_def split: option.splits)
  note c = claim_candidate_SomeD [OF j]
  show ?thesis unfolding schema_step_def
  proof
    assume "schema_ok d"
    then have ok: "jobs_ok d" by (simp add: schema_ok_def)
    with c(1) have "job_checks (claimed E w j)"
      by (auto simp: jobs_ok_def job_checks_def claimed_def)
    moreover have "\<not> job_clash (claimed E w j) k" if "k \<in> set (settlement_jobs d)" "sj_ID k \<noteq> sj_ID (claimed E w j)" for k
      using ok c(1) that unfolding jobs_ok_def by (auto simp: claimed_def job_clash_def)
    ultimately have "schema_step d d'"
      unfolding d' using c(1) job_updates_evolve(7) [OF c(2)] by (intro replace_job_schema_step) auto
    with \<open>schema_ok d\<close> show "schema_ok d' \<and> jobs_evolve d d'" by (simp add: schema_step_def)
  qed
qed

lemma jobs_evolve_subset: "set (settlement_jobs d) \<subseteq> set (settlement_jobs d') \<Longrightarrow> jobs_evolve d d'"
  unfolding jobs_evolve_def using job_evolves_refl by blast

lemma expire_schema_step:
  assumes "ExpireStaleProcessingJobs t E u d = Rows x d'"
  shows "schema_step d d'"
proof -
  define f where "f j = (if lease_stale (timestamptz t) j then lease_expired E j else j)" for j
  have d': "d' = d\<lparr>settlement_jobs := map f (settlement_jobs d)\<rparr>"
    using assms by (simp add: ExpireStaleProcessingJobs_def Let_def f_def [abs_def])
  have ev: "job_evolves j (f j)" for j
    by (simp add: f_def job_updates_evolve(6))
  have ids: "map sj_ID (settlement_jobs d') = map sj_ID (settlement_jobs d)"
    using ev by (simp add: d' job_evolves_def)
  have "job_checks j \<Longrightarrow> job_checks (f j)" "job_range (f j) = job_range j" for j
    by (auto simp: f_def job_checks_def job_range_def lease_expired_def)
  moreover have "job_clash (f j) (f k) = job_clash j k" for j k
    by (auto simp: f_def job_clash_def lease_expired_def)
  moreover have "sj_MaturityScheduleID (f j) = sj_MaturityScheduleID j" "sj_InvestmentID (f j) = sj_InvestmentID j"
      "sj_ID (f j) = sj_ID j" for j
    using ev by (simp_all add: job_evolves_def)
  ultimately have "jobs_ok d \<Longrightarrow> jobs_ok d'"
    unfolding jobs_ok_def ids by (simp add: d')
  moreover have "jobs_evolve d d'"
    using ev by (auto simp: jobs_evolve_def d')
  ultimately show ?thesis
    unfolding schema_step_def schema_ok_def attempts_ok_def ledger_ok_def maturities_ok_def ops_ok_def ids
    by (simp add: d')
qed

lemma new_job_ID [simp]: "sj_ID (new_job p E u) = u"
  by (simp add: new_job_def)

lemma CreateSettlementJob_Rows:
  "CreateSettlementJob p E u d = Rows j d' \<longleftrightarrow>
     j = new_job p E u \<and> job_checks j \<and> job_range j \<and> (\<forall>k \<in> set (settlement_jobs d). sj_ID k \<noteq> sj_ID j \<and> \<not> job_clash j k)
     \<and> sj_MaturityScheduleID j \<in> set (map ms_ID (maturity_schedules d))
     \<and> sj_InvestmentID j \<in> set (map inv_ID (investments d))
     \<and> d' = d\<lparr>settlement_jobs := settlement_jobs d @ [j]\<rparr>"
  by (auto simp: CreateSettlementJob_def Let_def image_iff eq_commute split: if_splits)

lemma create_schema_step:
  assumes "CreateSettlementJob p E u d = Rows j d'"
  shows "schema_step d d'"
proof -
  from assms have d': "d' = d\<lparr>settlement_jobs := settlement_jobs d @ [j]\<rparr>" and chk: "job_checks j" "job_range j"
      and new: "\<forall>k \<in> set (settlement_jobs d). sj_ID k \<noteq> sj_ID j \<and> \<not> job_clash j k"
      and fk: "sj_MaturityScheduleID j \<in> set (map ms_ID (maturity_schedules d))"
        "sj_InvestmentID j \<in> set (map inv_ID (investments d))"
    by (auto simp: CreateSettlementJob_Rows)
  from new have new': "\<forall>k \<in> set (settlement_jobs d). sj_ID k \<noteq> sj_ID j \<and> \<not> job_clash j k \<and> \<not> job_clash k j"
    by (blast dest: job_clash_sym)
  have jobs: "jobs_ok d \<Longrightarrow> jobs_ok d'"
    using chk fk new' unfolding jobs_ok_def d' by (auto simp: eq_sym_conv)
  have rest: "attempts_ok d \<Longrightarrow> attempts_ok d'" "ledger_ok d \<Longrightarrow> ledger_ok d'"
      "maturities_ok d \<Longrightarrow> maturities_ok d'" "ops_ok d \<Longrightarrow> ops_ok d'"
    by (auto simp: attempts_ok_def ledger_ok_def maturities_ok_def ops_ok_def d')
  moreover have "jobs_evolve d d'"
    by (rule jobs_evolve_subset) (auto simp: d')
  ultimately show ?thesis
    using jobs by (simp add: schema_step_def schema_ok_def)
qed

subsection \<open>The other tables\<close>

text \<open>A statement that leaves the jobs alone is judged by the tables it writes.\<close>

lemma schema_step_other:
  assumes "settlement_jobs d' = settlement_jobs d" "investments d' = investments d"
    and "map ms_ID (maturity_schedules d') = map ms_ID (maturity_schedules d)"
    and "map ms_InvestmentID (maturity_schedules d') = map ms_InvestmentID (maturity_schedules d)"
    and "schema_ok d \<Longrightarrow> attempts_ok d'" "schema_ok d \<Longrightarrow> ledger_ok d'" "schema_ok d \<Longrightarrow> ops_ok d'"
  shows "schema_step d d'"
proof -
  have "jobs_ok d \<Longrightarrow> jobs_ok d'" "maturities_ok d \<Longrightarrow> maturities_ok d'"
    unfolding jobs_ok_def maturities_ok_def assms(1-4) by auto
  moreover have "jobs_evolve d d'"
    by (rule jobs_evolve_subset) (simp add: assms(1))
  ultimately show ?thesis
    using assms(5-7) unfolding schema_step_def schema_ok_def by blast
qed

lemma settle_schema_step:
  assumes "MarkMaturitySettled i E u d = Rows x d'"
  shows "schema_step d d'"
proof -
  from assms obtain m where m: "ms_ID m = i" "m \<in> set (maturity_schedules d)"
      and d': "d' = d\<lparr>maturity_schedules := map (\<lambda>m'. if ms_ID m' = i then maturity_settled E m else m') (maturity_schedules d)\<rparr>"
    by (auto simp: MarkMaturitySettled_def split: option.splits dest!: find_eq_SomeD)
  have id: "map ms_ID (maturity_schedules d') = map ms_ID (maturity_schedules d)"
    using m by (auto simp: d' maturity_settled_def)
  show ?thesis
  proof (cases "distinct (map ms_ID (maturity_schedules d))")
    case True
    have "map ms_InvestmentID (maturity_schedules d') = map ms_InvestmentID (maturity_schedules d)"
      using m True by (auto simp: d' maturity_settled_def dest: distinct_map_same_key)
    with id show ?thesis
      by (intro schema_step_other) (auto simp: d' schema_ok_def attempts_ok_def ledger_ok_def ops_ok_def)
  next
    case False
    then show ?thesis by (simp add: schema_step_def schema_ok_def maturities_ok_def)
  qed
qed

lemma create_attempt_schema_step:
  assumes "CreatePayoutAttempt i n E u d = Rows a d'"
  shows "schema_step d d'"
proof -
  from assms have d': "d' = d\<lparr>payout_attempts := payout_attempts d @ [a]\<rparr>"
      and a: "a = new_attempt i n E u" "0 < n" "i \<in> sj_ID ` set (settlement_jobs d)"
      and new: "\<forall>b \<in> set (payout_attempts d). pa_ID b \<noteq> u \<and> \<not> (pa_SettlementJobID b = i \<and> pa_AttemptNumber b = n)"
    by (auto simp: CreatePayoutAttempt_def split: if_splits)
  have "attempts_ok d \<Longrightarrow> attempts_ok d'"
    using a new unfolding attempts_ok_def d' by (auto simp: new_attempt_def)
  then show ?thesis
    by (intro schema_step_other) (auto simp: d' schema_ok_def ledger_ok_def ops_ok_def)
qed

lemma update_attempt_schema_step:
  assumes "update_attempt i f d = Rows x d'"
    and f: "\<And>a. pa_ID (f a) = pa_ID a \<and> pa_SettlementJobID (f a) = pa_SettlementJobID a
              \<and> pa_AttemptNumber (f a) = pa_AttemptNumber a"
  shows "schema_step d d'"
proof -
  from assms(1) obtain a where a: "a \<in> set (payout_attempts d)" "pa_ID a = i"
      and ref: "\<forall>b \<in> set (payout_attempts d). pa_ID b \<noteq> i \<longrightarrow>
                  pa_PayoutReference (f a) = None \<or> pa_PayoutReference b \<noteq> pa_PayoutReference (f a)"
      and d': "d' = d\<lparr>payout_attempts := map (\<lambda>b. if pa_ID b = i then f a else b) (payout_attempts d)\<rparr>"
    by (auto simp: update_attempt_def split: option.splits if_splits dest!: find_eq_SomeD)
  have ids: "map pa_ID (payout_attempts d') = map pa_ID (payout_attempts d)"
    using a f by (auto simp: d')
  have set: "set (payout_attempts d') = insert (f a) {b \<in> set (payout_attempts d). pa_ID b \<noteq> i}"
    using a by (auto simp: d')
  have jobs: "settlement_jobs d' = settlement_jobs d" by (simp add: d')
  have "attempts_ok d \<Longrightarrow> attempts_ok d'"
    using a ref f unfolding attempts_ok_def ids jobs set by (auto simp: eq_sym_conv)
  then show ?thesis
    by (intro schema_step_other) (auto simp: d' schema_ok_def ledger_ok_def ops_ok_def)
qed

lemma upsert_ledger_ok:
  assumes "UpsertLedgerAccount code name typ E u d = Rows x d'" and ok: "ledger_ok d"
  shows "ledger_ok d'"
proof (cases "find (\<lambda>a. la_Code a = code) (ledger_accounts d)")
    case None
    with assms obtain a where d': "d' = d\<lparr>ledger_accounts := ledger_accounts d @ [a]\<rparr>"
        and "la_AccountType a \<in> account_types" "la_Code a = code" "la_ID a \<notin> la_ID ` set (ledger_accounts d)"
      by (force simp: UpsertLedgerAccount_def Let_def split: if_splits)
    moreover from None have "code \<notin> la_Code ` set (ledger_accounts d)" by (auto simp: find_None_iff)
    ultimately show ?thesis using ok by (auto simp: ledger_ok_def)
  next
    case (Some a)
    note a = find_eq_SomeD [OF Some]
    from assms Some have d': "d' = d\<lparr>ledger_accounts :=
        map (\<lambda>b. if la_Code b = code then a\<lparr>la_Name := name\<rparr> else b) (ledger_accounts d)\<rparr>"
      by (auto simp: UpsertLedgerAccount_def split: if_splits)
    have uniq: "b = a" if "b \<in> set (ledger_accounts d)" "la_Code b = code" for b
      using ok a that by (auto simp: ledger_ok_def dest: distinct_map_same_key)
    have "map la_ID (ledger_accounts d') = map la_ID (ledger_accounts d)"
        "map la_Code (ledger_accounts d') = map la_Code (ledger_accounts d)"
        "map la_AccountType (ledger_accounts d') = map la_AccountType (ledger_accounts d)"
      using a uniq by (auto simp: d')
    moreover from this(3) have "la_AccountType ` set (ledger_accounts d') = la_AccountType ` set (ledger_accounts d)"
      by (metis list.set_map)
    moreover have "settlement_jobs d' = settlement_jobs d" "ledger_entries d' = ledger_entries d"
      by (simp_all add: d')
    ultimately show ?thesis
      using ok unfolding ledger_ok_def by (metis (no_types, lifting) image_iff)
qed

lemma upsert_schema_step:
  assumes "UpsertLedgerAccount code name typ E u d = Rows x d'"
  shows "schema_step d d'"
proof -
  from assms obtain as where "d' = d\<lparr>ledger_accounts := as\<rparr>"
    by (auto simp: UpsertLedgerAccount_def Let_def split: if_splits option.splits)
  with upsert_ledger_ok [OF assms] show ?thesis
    by (intro schema_step_other) (simp_all add: schema_ok_def attempts_ok_def ops_ok_def)
qed

lemma InsertLedgerEntry_Rows:
  "InsertLedgerEntry q E u d = Rows e d' \<longleftrightarrow>
     e = new_entry q E u \<and> bpchar_fits 1 (ip_Side q) \<and> bpchar_fits 3 (ip_Currency q)
     \<and> le_Side e \<in> {''D'', ''C''} \<and> 0 < le_AmountCents e
     \<and> (\<forall>f \<in> set (ledger_entries d). le_ID f \<noteq> u \<and>
          (le_EntryGroupID f, le_AccountID f, le_Side f) \<noteq> (le_EntryGroupID e, le_AccountID e, le_Side e))
     \<and> le_SettlementJobID e \<in> sj_ID ` set (settlement_jobs d) \<and> le_AccountID e \<in> la_ID ` set (ledger_accounts d)
     \<and> d' = d\<lparr>ledger_entries := ledger_entries d @ [e]\<rparr>"
  by (auto simp: InsertLedgerEntry_def Let_def image_iff eq_commute not_less not_le split: if_splits)

lemma new_entry_ID [simp]: "le_ID (new_entry q E u) = u"
  by (simp add: new_entry_def)

lemma insert_entry_schema_step:
  assumes "InsertLedgerEntry q E u d = Rows e d'"
  shows "schema_step d d'"
proof -
  from assms have d': "d' = d\<lparr>ledger_entries := ledger_entries d @ [e]\<rparr>"
      and e: "le_Side e \<in> {''D'', ''C''}" "0 < le_AmountCents e" "le_SettlementJobID e \<in> sj_ID ` set (settlement_jobs d)"
        "le_AccountID e \<in> la_ID ` set (ledger_accounts d)"
      and new: "\<forall>f \<in> set (ledger_entries d). le_ID f \<noteq> le_ID e \<and>
          (le_EntryGroupID f, le_AccountID f, le_Side f) \<noteq> (le_EntryGroupID e, le_AccountID e, le_Side e)"
    by (auto simp: InsertLedgerEntry_Rows)
  have "ledger_ok d \<Longrightarrow> ledger_ok d'"
    using e new unfolding ledger_ok_def d' by auto
  then show ?thesis
    by (intro schema_step_other) (auto simp: d' schema_ok_def attempts_ok_def ops_ok_def)
qed

lemma ops_schema_step:
  "CreateAuditEvent a E u d = Rows x d' \<Longrightarrow> schema_step d d'"
  "CreateIdempotencyKey k scope h t E u d = Rows y d' \<Longrightarrow> schema_step d d'"
  "CreateReconciliationSnapshot s E u d = Rows z d' \<Longrightarrow> schema_step d d'"
  by (intro schema_step_other;
      fastforce simp: CreateAuditEvent_def new_audit_event_def CreateIdempotencyKey_def CreateReconciliationSnapshot_def
        new_snapshot_def Let_def schema_ok_def attempts_ok_def ledger_ok_def ops_ok_def split: if_splits)+

lemma complete_key_ops_ok:
  assumes "CompleteIdempotencyKey scope k n body E u d = Rows x d'" "ops_ok d"
  shows "ops_ok d'"
proof -
  from assms(1) obtain r where r: "ik_Scope r = scope" "ik_Key r = k"
      and d': "d' = d\<lparr>idempotency_keys := map (\<lambda>q. if ik_Scope q = scope \<and> ik_Key q = k
                then r\<lparr>ik_ResponseStatus := Some n, ik_ResponseBody := Some body\<rparr> else q) (idempotency_keys d)\<rparr>"
    by (auto simp: CompleteIdempotencyKey_def Let_def split: option.splits dest!: find_eq_SomeD)
  have "map (\<lambda>k. (ik_Scope k, ik_Key k)) (idempotency_keys d') = map (\<lambda>k. (ik_Scope k, ik_Key k)) (idempotency_keys d)"
    using r by (auto simp: d')
  moreover have "audit_events d' = audit_events d" "reconciliation_snapshots d' = reconciliation_snapshots d"
    by (simp_all add: d')
  ultimately show ?thesis using assms(2) by (simp only: ops_ok_def)
qed

lemma complete_key_schema_step:
  assumes "CompleteIdempotencyKey scope k n body E u d = Rows x d'"
  shows "schema_step d d'"
proof -
  from assms obtain ks where "d' = d\<lparr>idempotency_keys := ks\<rparr>"
    by (auto simp: CompleteIdempotencyKey_def Let_def split: option.splits)
  with complete_key_ops_ok [OF assms] show ?thesis
    by (intro schema_step_other) (simp_all add: schema_ok_def attempts_ok_def ledger_ok_def)
qed

interpretation schema: settlement_store schema_step
proof
  show "schema_step d d" for d
    by (simp add: schema_step_def)
  show "schema_step d d' \<Longrightarrow> schema_step d' d'' \<Longrightarrow> schema_step d d''" for d d' d''
    unfolding schema_step_def jobs_evolve_def by (meson job_evolves_trans)
  show "query_keeps schema_step (MarkJobSucceeded i ref)" "query_keeps schema_step (MarkJobFailedRetryable i t msg)"
    "query_keeps schema_step (MarkJobDeadLetter i reason msg c)" "query_keeps schema_step (ReplayDeadLetterJob i)"
    "query_keeps schema_step (RequeueFailedJob i)" for i ref t msg reason c
    by (auto simp: query_keeps_def MarkJobSucceeded_def MarkJobFailedRetryable_def MarkJobDeadLetter_def
        ReplayDeadLetterJob_def RequeueFailedJob_def intro: job_updates_evolve elim!: update_job_schema_step
        split: if_splits)
  show "query_keeps schema_step (FinishPayoutAttemptSuccess i ref)"
    "query_keeps schema_step (FinishPayoutAttemptFailure i msg c)" for i ref msg c
    by (auto simp: query_keeps_def FinishPayoutAttemptSuccess_def FinishPayoutAttemptFailure_def attempt_succeeded_def
        attempt_failed_def elim!: update_attempt_schema_step split: if_splits)
qed (auto simp: query_keeps_def intro: claim_schema_step expire_schema_step create_schema_step settle_schema_step
       create_attempt_schema_step upsert_schema_step insert_entry_schema_step ops_schema_step complete_key_schema_step)

end
