(* ===== verification/Audit_Trail.thy ===== *)
theory Audit_Trail
  imports Store_Laws
begin

text \<open>
  \<^verbatim>\<open>internal/audit/publisher.go\<close>: the publisher every component calls, inside its own
  transaction, to append to the audit trail. A nil payload map is \<open>None\<close>.
\<close>

definition ActionSettlementJobCreated :: string where
  "ActionSettlementJobCreated = ''settlement_job.created''"
definition ActionSettlementJobClaimed :: string where
  "ActionSettlementJobClaimed = ''settlement_job.claimed''"
definition ActionSettlementJobSucceeded :: string where
  "ActionSettlementJobSucceeded = ''settlement_job.succeeded''"
definition ActionSettlementJobFailed :: string where
  "ActionSettlementJobFailed = ''settlement_job.failed''"
definition ActionSettlementJobDeadLetter :: string where
  "ActionSettlementJobDeadLetter = ''settlement_job.dead_letter''"
definition ActionSettlementJobReplayed :: string where
  "ActionSettlementJobReplayed = ''settlement_job.replayed''"
definition ActionSettlementJobLeaseExpired :: string where
  "ActionSettlementJobLeaseExpired = ''settlement_job.lease_expired''"
definition ActionLedgerPosted :: string where
  "ActionLedgerPosted = ''ledger.posted''"

definition entityTypeSettlementJob :: string where
  "entityTypeSettlementJob = ''settlement_job''"
definition entityTypeLedgerEntryGroup :: string where
  "entityTypeLedgerEntryGroup = ''ledger_entry_group''"

lemmas audit_names = ActionSettlementJobCreated_def ActionSettlementJobClaimed_def ActionSettlementJobSucceeded_def
  ActionSettlementJobFailed_def ActionSettlementJobDeadLetter_def ActionSettlementJobReplayed_def
  ActionSettlementJobLeaseExpired_def ActionLedgerPosted_def entityTypeSettlementJob_def entityTypeLedgerEntryGroup_def

record EventInput =
  ev_ActorType :: AuditActorType
  ev_ActorID :: string
  ev_Action :: string
  ev_EntityType :: string
  ev_EntityID :: uuid
  ev_Payload :: "(string \<times> json) list option"
  ev_CorrelationID :: string

definition Publish :: "tx_env \<Rightarrow> EventInput \<Rightarrow> AuditEvent txm" where
  "Publish E input =
     (if ev_Action input = [] then failE (Errorf ''audit: action is required'' [])
      else if ev_EntityType input = [] then failE (Errorf ''audit: entity type is required'' [])
      else if ev_EntityID input = uuid_Nil then failE (Errorf ''audit: entity id is required'' [])
      else let payload = (case ev_Payload input of None \<Rightarrow> [] | Some p \<Rightarrow> p)
           in wrapE ''audit'' [] (AuditRepo_Record E
                \<lparr>ca_ActorType = ev_ActorType input, ca_ActorID = ev_ActorID input, ca_Action = ev_Action input,
                 ca_EntityType = ev_EntityType input, ca_EntityID = ev_EntityID input, ca_Payload = JObj payload,
                 ca_CorrelationID = ev_CorrelationID input\<rparr>))"

definition PublishJobTransition ::
    "tx_env \<Rightarrow> uuid \<Rightarrow> string \<Rightarrow> string \<Rightarrow> (string \<times> json) list \<Rightarrow> AuditEvent txm" where
  "PublishJobTransition E jobID action correlationID details =
     Publish E \<lparr>ev_ActorType = AuditActorTypeSystem, ev_ActorID = ''settlement-engine'', ev_Action = action,
       ev_EntityType = entityTypeSettlementJob, ev_EntityID = jobID, ev_Payload = Some details,
       ev_CorrelationID = correlationID\<rparr>"

definition PublishLedgerPosted :: "golib \<Rightarrow> tx_env \<Rightarrow> uuid \<Rightarrow> uuid \<Rightarrow> string \<Rightarrow> int \<Rightarrow> AuditEvent txm" where
  "PublishLedgerPosted L E jobID entryGroupID correlationID lineCount =
     Publish E \<lparr>ev_ActorType = AuditActorTypeSystem, ev_ActorID = ''ledger-service'', ev_Action = ActionLedgerPosted,
       ev_EntityType = entityTypeLedgerEntryGroup, ev_EntityID = entryGroupID,
       ev_Payload = Some [(''settlement_job_id'', JStr (uuid_String L jobID)),
                          (''entry_group_id'', JStr (uuid_String L entryGroupID)),
                          (''line_count'', JInt lineCount)],
       ev_CorrelationID = correlationID\<rparr>"

section \<open>What publishing does\<close>

text \<open>The event of an input; the published row is the input, stamped by the server.\<close>

definition event_of :: "EventInput \<Rightarrow> tx_env \<Rightarrow> uuid \<Rightarrow> AuditEvent" where
  "event_of input E u = \<lparr>ae_ID = u, ae_OccurredAt = pg_now E, ae_ActorType = ev_ActorType input,
     ae_ActorID = ev_ActorID input, ae_Action = ev_Action input, ae_EntityType = ev_EntityType input,
     ae_EntityID = ev_EntityID input, ae_Payload = JObj (case ev_Payload input of None \<Rightarrow> [] | Some p \<Rightarrow> p),
     ae_CorrelationID = ev_CorrelationID input\<rparr>"

lemma CreateAuditEvent_Rows:
  "CreateAuditEvent a E u d = Rows v d' \<longleftrightarrow>
     u \<notin> ae_ID ` set (audit_events d) \<and> v = new_audit_event a E u
     \<and> d' = d\<lparr>audit_events := audit_events d @ [v]\<rparr>"
  by (auto simp: CreateAuditEvent_def)

lemma Publish_Inr:
  "Publish E input st = (Inr v, st') \<longleftrightarrow>
     ev_Action input \<noteq> [] \<and> ev_EntityType input \<noteq> [] \<and> ev_EntityID input \<noteq> uuid_Nil
     \<and> \<not> tx_aborted st \<and> \<not> stmt_fault E (tx_stmts st)
     \<and> gen_uuid E (tx_stmts st) \<notin> ae_ID ` set (audit_events (tx_db st))
     \<and> v = event_of input E (gen_uuid E (tx_stmts st))
     \<and> st' = st\<lparr>tx_db := (tx_db st)\<lparr>audit_events := audit_events (tx_db st) @ [v]\<rparr>, tx_stmts := Suc (tx_stmts st)\<rparr>"
  by (cases "ev_Payload input")
     (auto simp: Publish_def AuditRepo_Record_def run_stmt_Inr CreateAuditEvent_Rows event_of_def new_audit_event_def Let_def)

text \<open>A transaction step that only appends to the audit trail.\<close>

definition audited :: "tx \<Rightarrow> (AuditEvent \<Rightarrow> bool) \<Rightarrow> tx \<Rightarrow> bool" where
  "audited st P st' \<longleftrightarrow> (\<exists>v. P v \<and> tx_db st' = (tx_db st)\<lparr>audit_events := audit_events (tx_db st) @ [v]\<rparr>)
     \<and> tx_proc st' = tx_proc st \<and> \<not> tx_aborted st'"

lemma PublishJobTransition_ok:
  assumes "PublishJobTransition E i a c det st = (Inr v, st')"
  shows "audited st (\<lambda>v. ae_Action v = a \<and> ae_EntityType v = entityTypeSettlementJob \<and> ae_EntityID v = i
           \<and> ae_CorrelationID v = c \<and> ae_Payload v = JObj det) st'"
  using assms unfolding audited_def
  by (intro conjI exI [of _ v]) (simp_all add: PublishJobTransition_def Publish_Inr event_of_def)

lemma PublishLedgerPosted_ok:
  assumes "PublishLedgerPosted L E i g c n st = (Inr v, st')"
  shows "audited st (\<lambda>v. ae_Action v = ActionLedgerPosted \<and> ae_EntityID v = g \<and> ae_CorrelationID v = c) st'"
  using assms unfolding audited_def
  by (intro conjI exI [of _ v]) (simp_all add: PublishLedgerPosted_def Publish_Inr event_of_def)

context engine_store
begin

lemma Publish_keeps [tx_intros]: "keeps R (Publish E input)"
  unfolding Publish_def Let_def by (auto intro!: tx_intros)

lemma PublishJobTransition_keeps [tx_intros]: "keeps R (PublishJobTransition E i a c det)"
  unfolding PublishJobTransition_def by (intro tx_intros)

lemma PublishLedgerPosted_keeps [tx_intros]: "keeps R (PublishLedgerPosted L E i g c n)"
  unfolding PublishLedgerPosted_def by (intro tx_intros)

end

end
