(* ===== verification/Money.thy ===== *)
theory Money
  imports Arrakin_Prelude
begin

text \<open>
  \<^verbatim>\<open>internal/domain/money/money.go\<close>: amounts in minor units (\<^verbatim>\<open>Cents\<close> is an
  \<^verbatim>\<open>int64\<close>), the validation of the calculation inputs, half-up basis points and the pro rata
  return. Every product and sum wraps at 64 bits, as in Go; the lemmas give the exact rational
  meaning where nothing overflows and bound the result where something may.
\<close>

type_synonym Cents = int

definition BasisPointsDenominator :: int where
  "BasisPointsDenominator = 10000"

definition DaysPerYear :: int where
  "DaysPerYear = 365"

definition IsPositive :: "Cents \<Rightarrow> bool" where
  "IsPositive c = (c > 0)"

definition IsNonNegative :: "Cents \<Rightarrow> bool" where
  "IsNonNegative c = (c \<ge> 0)"

definition Cents_Add :: "Cents \<Rightarrow> Cents \<Rightarrow> Cents" where
  "Cents_Add c other = wrap64 (c + other)"

definition Cents_Sub :: "Cents \<Rightarrow> Cents \<Rightarrow> Cents" where
  "Cents_Sub c other = wrap64 (c - other)"

definition ValidatePrincipal :: "int \<Rightarrow> unit res" where
  "ValidatePrincipal cents =
     (if cents \<le> 0 then Inl (Errorf ''principal must be positive, got %d'' [ArgInt cents])
      else if cents > MaxInt64 sdiv 10000 then Inl (Errorf ''principal exceeds safe calculation bounds'' [])
      else Inr ())"

definition ValidateBasisPoints :: "int \<Rightarrow> unit res" where
  "ValidateBasisPoints bps =
     (if bps < 0 \<or> bps > BasisPointsDenominator
      then Inl (Errorf ''basis points must be between 0 and %d, got %d'' [ArgInt BasisPointsDenominator, ArgInt bps])
      else Inr ())"

definition ValidateTermDays :: "int \<Rightarrow> unit res" where
  "ValidateTermDays days =
     (if days \<le> 0 then Inl (Errorf ''term days must be positive, got %d'' [ArgInt days]) else Inr ())"

definition ApplyBasisPoints :: "Cents \<Rightarrow> int \<Rightarrow> Cents res" where
  "ApplyBasisPoints amount bps =
     (case ValidateBasisPoints bps of
        Inl err \<Rightarrow> Inl err
      | Inr _ \<Rightarrow>
          if amount = 0 \<or> bps = 0 then Inr 0
          else (let n = wrap64 (amount * bps)
                in Inr (wrap64 (n + BasisPointsDenominator sdiv 2) sdiv BasisPointsDenominator)))"

definition ProratedReturn :: "Cents \<Rightarrow> int \<Rightarrow> int \<Rightarrow> Cents res" where
  "ProratedReturn principal' annualRateBps termDays =
     (case ValidateBasisPoints annualRateBps of
        Inl err \<Rightarrow> Inl err
      | Inr _ \<Rightarrow>
        (case ValidateTermDays termDays of
           Inl err \<Rightarrow> Inl err
         | Inr _ \<Rightarrow>
             if principal' = 0 \<or> annualRateBps = 0 then Inr 0
             else (let numerator = wrap64 (wrap64 (principal' * annualRateBps) * termDays);
                       denominator = BasisPointsDenominator * DaysPerYear
                   in Inr (wrap64 (numerator + denominator sdiv 2) sdiv denominator))))"

lemmas money_consts = BasisPointsDenominator_def DaysPerYear_def

section \<open>Reference: half-up rounding\<close>

text \<open>\<open>half_up n d\<close> is the integer nearest to \<open>n / d\<close>, ties upwards.\<close>

definition half_up :: "int \<Rightarrow> int \<Rightarrow> int" where
  "half_up n d = (2 * n + d) div (2 * d)"

lemma half_up_nearest:
  assumes "0 < d"
  shows "2 * d * half_up n d \<le> 2 * n + d" and "2 * n + d < 2 * d * half_up n d + 2 * d"
proof -
  let ?q = "half_up n d"
  have "2 * n + d = 2 * d * ?q + (2 * n + d) mod (2 * d)"
    unfolding half_up_def by simp
  moreover have "0 \<le> (2 * n + d) mod (2 * d)" "(2 * n + d) mod (2 * d) < 2 * d"
    using assms by simp_all
  ultimately show "2 * d * ?q \<le> 2 * n + d" "2 * n + d < 2 * d * ?q + 2 * d"
    by linarith+
qed

text \<open>The characterisation is exact: only the nearest integer satisfies it.\<close>

lemma half_up_unique:
  assumes "0 < d" "2 * d * q \<le> 2 * n + d" "2 * n + d < 2 * d * q + 2 * d"
  shows "half_up n d = q"
proof -
  have "(2 * n + d) = (2 * d) * q + (2 * n + d - 2 * d * q)" by simp
  moreover have "(2 * n + d - 2 * d * q) div (2 * d) = 0"
    using assms by (simp add: div_pos_pos_trivial)
  ultimately show ?thesis
    using assms(1) unfolding half_up_def
    by (metis add.right_neutral div_mult_self2 less_numeral_extra(3) mult_pos_pos zero_less_numeral add.commute)
qed

lemma half_up_even: "0 < d \<Longrightarrow> even d \<Longrightarrow> half_up n d = (n + d div 2) div d"
proof -
  assume d: "0 < d" "even d"
  then have "2 * n + d = 2 * (n + d div 2)" by auto
  then have "half_up n d = (2 * (n + d div 2)) div (2 * d)" by (simp only: half_up_def)
  also have "\<dots> = (n + d div 2) div d" by (rule div_mult_mult1) simp
  finally show ?thesis .
qed

lemma half_up_mono: "0 < d \<Longrightarrow> n \<le> n' \<Longrightarrow> half_up n d \<le> half_up n' d"
  by (simp add: half_up_def zdiv_mono1)

lemma half_up_multiple [simp]: "0 < d \<Longrightarrow> half_up (q * d) d = q"
  by (rule half_up_unique) (auto simp: algebra_simps)

lemma half_up_nonneg: "0 < d \<Longrightarrow> 0 \<le> n \<Longrightarrow> 0 \<le> half_up n d"
  by (simp add: half_up_def pos_imp_zdiv_nonneg_iff)

section \<open>Validation\<close>

lemma ValidateBasisPoints_iff:
  "ValidateBasisPoints b = Inr u \<longleftrightarrow> 0 \<le> b \<and> b \<le> 10000"
  by (auto simp: ValidateBasisPoints_def money_consts)

lemma ValidateTermDays_iff: "ValidateTermDays d = Inr u \<longleftrightarrow> 0 < d"
  by (auto simp: ValidateTermDays_def)

lemma ValidatePrincipal_iff:
  "ValidatePrincipal c = Inr u \<longleftrightarrow> 0 < c \<and> c \<le> 922337203685477"
  by (auto simp: ValidatePrincipal_def signed_divide_int_def)

lemmas validate_iffs = ValidateBasisPoints_iff ValidateTermDays_iff ValidatePrincipal_iff

lemma validate_ok [simp]:
  "0 \<le> b \<Longrightarrow> b \<le> 10000 \<Longrightarrow> ValidateBasisPoints b = Inr ()"
  "0 < d \<Longrightarrow> ValidateTermDays d = Inr ()"
  "0 < c \<Longrightarrow> c \<le> 922337203685477 \<Longrightarrow> ValidatePrincipal c = Inr ()"
  by (simp_all add: validate_iffs)

section \<open>Basis points\<close>

lemma ApplyBasisPoints_exact:
  assumes "0 \<le> amount" "0 \<le> bps" "bps \<le> 10000" "amount * bps \<le> MaxInt64 - 5000"
  shows "ApplyBasisPoints amount bps = Inr (half_up (amount * bps) 10000)"
proof -
  have nn: "0 \<le> amount * bps" using assms by simp
  then have w: "wrap64 (amount * bps) = amount * bps"
    and w': "wrap64 (amount * bps + 5000) = amount * bps + 5000"
    using assms(4) by (auto intro!: wrap64_id simp: in_int64_def)
  show ?thesis
    using assms nn by (auto simp: ApplyBasisPoints_def money_consts Let_def w w' sdiv_nonneg half_up_even)
qed

lemma ApplyBasisPoints_error:
  "(\<exists>e. ApplyBasisPoints amount bps = Inl e) \<longleftrightarrow> bps < 0 \<or> 10000 < bps"
  by (auto simp: ApplyBasisPoints_def ValidateBasisPoints_def money_consts Let_def)

text \<open>A fee of at most 100\% never exceeds the amount it is taken from.\<close>

lemma half_up_bps_le:
  assumes "0 \<le> amount" "0 \<le> bps" "bps \<le> 10000"
  shows "0 \<le> half_up (amount * bps) 10000 \<and> half_up (amount * bps) 10000 \<le> amount"
proof -
  have "amount * bps \<le> amount * 10000" using assms by (intro mult_left_mono) auto
  then have "half_up (amount * bps) 10000 \<le> half_up (amount * 10000) 10000"
    by (intro half_up_mono) auto
  with assms show ?thesis by (auto intro: half_up_nonneg)
qed

section \<open>Prorated return\<close>

abbreviation prorated_denominator :: int where
  "prorated_denominator \<equiv> 3650000"

lemma ProratedReturn_exact:
  assumes "0 \<le> principal'" "0 \<le> rate" "rate \<le> 10000" "0 < days"
    and bound: "principal' * rate * days \<le> MaxInt64 - 1825000"
  shows "ProratedReturn principal' rate days = Inr (half_up (principal' * rate * days) prorated_denominator)"
proof -
  have nn: "0 \<le> principal' * rate" "0 \<le> principal' * rate * days" using assms by auto
  have "principal' * rate \<le> principal' * rate * days"
    using nn(1) assms(4) by (simp add: mult_le_cancel_left1)
  with bound have "wrap64 (principal' * rate) = principal' * rate"
    using nn by (intro wrap64_id) (auto simp: in_int64_def)
  moreover have "wrap64 (principal' * rate * days) = principal' * rate * days"
    "wrap64 (principal' * rate * days + 1825000) = principal' * rate * days + 1825000"
    using bound nn by (auto intro!: wrap64_id simp: in_int64_def)
  ultimately show ?thesis
    using assms nn by (auto simp: ProratedReturn_def money_consts Let_def sdiv_nonneg half_up_even)
qed

text \<open>Whatever wrapped on the way, the result is a small number.\<close>

lemma sdiv_bound: "in_int64 x \<Longrightarrow> 0 < d \<Longrightarrow> \<bar>x sdiv d\<bar> \<le> 2 ^ 63 div d"
proof -
  assume x: "in_int64 x" and d: "0 < d"
  have "\<bar>x sdiv d\<bar> \<le> \<bar>x\<bar> div d"
    using d by (auto simp: signed_divide_int_def sgn_if pos_imp_zdiv_nonneg_iff)
  also have "\<dots> \<le> 2 ^ 63 div d"
    using x d by (intro zdiv_mono1) (auto simp: in_int64_def)
  finally show ?thesis .
qed

lemma ProratedReturn_bound:
  assumes "ProratedReturn principal' rate days = Inr g"
  shows "\<bar>g\<bar> \<le> 2526951242974"
proof -
  let ?x = "wrap64 (wrap64 (wrap64 (principal' * rate) * days) + 1825000)"
  have "g = 0 \<or> g = ?x sdiv 3650000"
    using assms by (auto simp: ProratedReturn_def money_consts Let_def signed_divide_int_def
        split: sum.splits if_splits)
  moreover have "\<bar>?x sdiv 3650000\<bar> \<le> 2526951242974"
    by (rule order_trans [OF sdiv_bound]) auto
  ultimately show ?thesis by auto
qed

end
