(* ===== verification/Settlement_Domain.thy ===== *)
theory Settlement_Domain
  imports Money
begin

text \<open>
  \<^verbatim>\<open>internal/domain/settlement/breakdown.go\<close>: the terms of an investment, the breakdown of
  a settlement and the consistency checks on both.
\<close>

record InvestmentTerms =
  it_PrincipalCents :: int
  it_AnnualRateBPS :: int
  it_TermDays :: int
  it_Currency :: string

definition InvestmentTerms_Validate :: "InvestmentTerms \<Rightarrow> unit res" where
  "InvestmentTerms_Validate t =
     (case ValidatePrincipal (it_PrincipalCents t) of
        Inl err \<Rightarrow> Inl (WrapPre ''investment terms'' [] err)
      | Inr _ \<Rightarrow>
        (case ValidateBasisPoints (it_AnnualRateBPS t) of
           Inl err \<Rightarrow> Inl (WrapPre ''investment terms'' [] err)
         | Inr _ \<Rightarrow>
           (case ValidateTermDays (it_TermDays t) of
              Inl err \<Rightarrow> Inl (WrapPre ''investment terms'' [] err)
            | Inr _ \<Rightarrow>
              let currency = TrimSpace (it_Currency t)
              in if length currency \<noteq> 3
                 then Inl (Errorf ''investment terms: currency must be a 3-letter code, got %q'' [ArgStr (it_Currency t)])
                 else Inr ())))"

record Breakdown =
  bd_PrincipalCents :: Cents
  bd_GrossReturnCents :: Cents
  bd_PlatformFeeCents :: Cents
  bd_WithholdingTaxCents :: Cents
  bd_NetPayoutCents :: Cents
  bd_Currency :: string

definition Breakdown_Validate :: "Breakdown \<Rightarrow> unit res" where
  "Breakdown_Validate b =
     (if \<not> IsPositive (bd_PrincipalCents b) then Inl (Errorf ''breakdown: principal must be positive'' [])
      else if \<not> IsNonNegative (bd_GrossReturnCents b) then Inl (Errorf ''breakdown: gross return must be non-negative'' [])
      else if \<not> IsNonNegative (bd_PlatformFeeCents b) then Inl (Errorf ''breakdown: platform fee must be non-negative'' [])
      else if \<not> IsNonNegative (bd_WithholdingTaxCents b) then Inl (Errorf ''breakdown: withholding tax must be non-negative'' [])
      else if \<not> IsPositive (bd_NetPayoutCents b) then Inl (Errorf ''breakdown: net payout must be positive'' [])
      else
        let expected = Cents_Sub (Cents_Sub (Cents_Add (bd_PrincipalCents b) (bd_GrossReturnCents b))
                          (bd_PlatformFeeCents b)) (bd_WithholdingTaxCents b)
        in if bd_NetPayoutCents b \<noteq> expected
           then Inl (Errorf ''breakdown: net payout %d != principal + return - fee - tax (%d)''
                       [ArgInt (bd_NetPayoutCents b), ArgInt expected])
           else
             let taxable = Cents_Sub (bd_GrossReturnCents b) (bd_PlatformFeeCents b)
             in if bd_WithholdingTaxCents b > taxable
                then Inl (Errorf ''breakdown: withholding tax exceeds taxable return'' [])
                else
                  let currency = TrimSpace (bd_Currency b)
                  in if length currency \<noteq> 3
                     then Inl (Errorf ''breakdown: invalid currency %q'' [ArgStr (bd_Currency b)])
                     else Inr ())"

definition TotalObligationCents :: "Breakdown \<Rightarrow> Cents" where
  "TotalObligationCents b = Cents_Add (bd_PrincipalCents b) (bd_GrossReturnCents b)"

lemmas cents_defs = Cents_Add_def Cents_Sub_def IsPositive_def IsNonNegative_def

section \<open>The terms a calculation accepts\<close>

lemma InvestmentTerms_Validate_iff:
  "InvestmentTerms_Validate t = Inr u \<longleftrightarrow>
     0 < it_PrincipalCents t \<and> it_PrincipalCents t \<le> 922337203685477 \<and>
     0 \<le> it_AnnualRateBPS t \<and> it_AnnualRateBPS t \<le> 10000 \<and> 0 < it_TermDays t \<and>
     length (TrimSpace (it_Currency t)) = 3"
  by (auto simp: InvestmentTerms_Validate_def Let_def validate_iffs split: sum.splits if_splits)

section \<open>Consistent breakdowns\<close>

text \<open>
  The amounts fit in 64 bits; \<open>amounts_ok\<close> is the exact statement of conservation: what leaves
  is what was owed, split into payout, fee and tax, with the tax taken from the taxable return.
\<close>

definition amounts_ok :: "int \<Rightarrow> int \<Rightarrow> int \<Rightarrow> int \<Rightarrow> int \<Rightarrow> bool" where
  "amounts_ok p g f t n \<longleftrightarrow>
     0 < p \<and> 0 \<le> g \<and> 0 \<le> f \<and> 0 \<le> t \<and> 0 < n \<and> t \<le> g - f \<and> p + g = n + f + t"

abbreviation breakdown_amounts_ok :: "Breakdown \<Rightarrow> bool" where
  "breakdown_amounts_ok b \<equiv> amounts_ok (bd_PrincipalCents b) (bd_GrossReturnCents b)
     (bd_PlatformFeeCents b) (bd_WithholdingTaxCents b) (bd_NetPayoutCents b)"

text \<open>When principal plus return fits in 64 bits, \<open>Validate\<close> accepts exactly the breakdowns that conserve.\<close>

lemma wrap64_sub_nonneg [go_arith]:
  "in_int64 a \<Longrightarrow> in_int64 b \<Longrightarrow> 0 \<le> a \<Longrightarrow> 0 \<le> b \<Longrightarrow> wrap64 (a - b) = a - b"
  by (rule wrap64_id) (auto simp: in_int64_def)

lemma Breakdown_Validate_iff:
  assumes "in_int64 (bd_PlatformFeeCents b)" "in_int64 (bd_WithholdingTaxCents b)"
    "in_int64 (bd_GrossReturnCents b)"
    "in_int64 (bd_PrincipalCents b + bd_GrossReturnCents b)"
  shows "Breakdown_Validate b = Inr u \<longleftrightarrow>
     breakdown_amounts_ok b \<and> length (TrimSpace (bd_Currency b)) = 3"
proof (cases "0 < bd_PrincipalCents b \<and> 0 \<le> bd_GrossReturnCents b \<and> 0 \<le> bd_PlatformFeeCents b \<and>
    0 \<le> bd_WithholdingTaxCents b \<and> 0 < bd_NetPayoutCents b")
  case True
  let ?p = "bd_PrincipalCents b" and ?g = "bd_GrossReturnCents b" and ?f = "bd_PlatformFeeCents b"
    and ?t = "bd_WithholdingTaxCents b" and ?n = "bd_NetPayoutCents b"
  have tax: "wrap64 (?g - ?f) = ?g - ?f"
    using True assms by (intro wrap64_sub_nonneg) auto
  have net: "wrap64 (?p + ?g - ?f - ?t) = ?p + ?g - ?f - ?t" if "?t \<le> ?g - ?f"
    using True assms that by (intro wrap64_id) (auto simp: in_int64_def)
  have "Breakdown_Validate b = Inr u \<longleftrightarrow>
      ?n = wrap64 (?p + ?g - ?f - ?t) \<and> ?t \<le> ?g - ?f \<and> length (TrimSpace (bd_Currency b)) = 3"
    using True by (auto simp: Breakdown_Validate_def Let_def cents_defs tax split: if_splits)
  with True net show ?thesis by (auto simp: amounts_ok_def)
next
  case False
  then show ?thesis
    by (auto simp: Breakdown_Validate_def cents_defs amounts_ok_def split: if_splits)
qed

lemma TotalObligation_exact:
  "in_int64 (bd_PrincipalCents b + bd_GrossReturnCents b) \<Longrightarrow>
   TotalObligationCents b = bd_PrincipalCents b + bd_GrossReturnCents b"
  by (simp add: TotalObligationCents_def cents_defs wrap64_id)

section \<open>Currency codes\<close>

definition is_letter :: "char \<Rightarrow> bool" where
  "is_letter c = (let n = (of_char c :: nat) in (65 \<le> n \<and> n \<le> 90) \<or> (97 \<le> n \<and> n \<le> 122))"

lemma strip_runes_none:
  "(\<forall>r \<in> set rs. r \<noteq> [] \<longrightarrow> take (length r) s \<noteq> r) \<Longrightarrow> strip_runes rs s = s"
  by (subst strip_runes.simps) (auto split: option.splits simp: find_Some_iff)

lemma TrimSpace_letters:
  assumes "list_all is_letter s"
  shows "TrimSpace s = s"
proof -
  have key: "take (length r) s' \<noteq> r" if "list_all is_letter s'" "r \<noteq> []" "\<not> is_letter (hd r)" for r s' :: string
    using that by (cases r; cases s') (auto simp: take_Cons')
  have "strip_runes space_runes s = s"
    using assms by (intro strip_runes_none ballI impI key) (auto simp: space_runes_def is_letter_def)
  moreover have "strip_runes (map rev space_runes) (rev s) = rev s"
    using assms by (intro strip_runes_none ballI impI key) (auto simp: space_runes_def is_letter_def)
  ultimately show ?thesis by (simp add: TrimSpace_def)
qed

lemma of_char_char_of_small: "n < 256 \<Longrightarrow> (of_char (char_of n) :: nat) = n"
  by (simp add: of_char_of)

lemma is_letter_upper_char: "is_letter c \<Longrightarrow> is_letter (upper_char c)"
  by (auto simp: is_letter_def upper_char_def Let_def of_char_char_of_small)

lemma ToUpper_letters:
  "list_all is_letter s \<Longrightarrow> ToUpper up s = map upper_char s \<and> list_all is_letter (map upper_char s)"
  by (auto simp: ToUpper_def is_ascii_def list_all_iff is_letter_upper_char)
     (auto simp: is_letter_def Let_def)

end
