(* ===== verification/Calculator.thy ===== *)
theory Calculator
  imports Settlement_Domain
begin

text \<open>
  \<^verbatim>\<open>internal/settlement/calculator/service.go\<close>: the settlement amounts of matured terms.
  \<open>calc_amounts\<close> is the reference the code is compared with: exact rational amounts, each
  rounded half-up once.
\<close>

record calc_Config =
  cc_PlatformFeeBPS :: int
  cc_WithholdingTaxBPS :: int

record calc_Service =
  cs_cfg :: calc_Config

definition calculator_New :: "calc_Config \<Rightarrow> calc_Service res" where
  "calculator_New cfg =
     (case ValidateBasisPoints (cc_PlatformFeeBPS cfg) of
        Inl err \<Rightarrow> Inl (WrapPre ''calculator config'' [] err)
      | Inr _ \<Rightarrow>
        (case ValidateBasisPoints (cc_WithholdingTaxBPS cfg) of
           Inl err \<Rightarrow> Inl (WrapPre ''calculator config'' [] err)
         | Inr _ \<Rightarrow> Inr \<lparr>cs_cfg = cfg\<rparr>))"

definition Calculate :: "golib \<Rightarrow> calc_Service \<Rightarrow> InvestmentTerms \<Rightarrow> Breakdown res" where
  "Calculate L s terms =
     (case InvestmentTerms_Validate terms of
        Inl err \<Rightarrow> Inl err
      | Inr _ \<Rightarrow>
        let p = it_PrincipalCents terms
        in (case ProratedReturn p (it_AnnualRateBPS terms) (it_TermDays terms) of
              Inl err \<Rightarrow> Inl (WrapPre ''calculate gross return'' [] err)
            | Inr grossReturn \<Rightarrow>
              (case ApplyBasisPoints grossReturn (cc_PlatformFeeBPS (cs_cfg s)) of
                 Inl err \<Rightarrow> Inl (WrapPre ''calculate platform fee'' [] err)
               | Inr platformFee \<Rightarrow>
                 let taxableReturn = Cents_Sub grossReturn platformFee
                 in (case ApplyBasisPoints taxableReturn (cc_WithholdingTaxBPS (cs_cfg s)) of
                       Inl err \<Rightarrow> Inl (WrapPre ''calculate withholding tax'' [] err)
                     | Inr withholdingTax \<Rightarrow>
                       let netPayout = Cents_Sub (Cents_Sub (Cents_Add p grossReturn) platformFee) withholdingTax;
                           breakdown = \<lparr>bd_PrincipalCents = p,
                                        bd_GrossReturnCents = grossReturn,
                                        bd_PlatformFeeCents = platformFee,
                                        bd_WithholdingTaxCents = withholdingTax,
                                        bd_NetPayoutCents = netPayout,
                                        bd_Currency = ToUpper (unicode_ToUpper L) (TrimSpace (it_Currency terms))\<rparr>
                       in (case Breakdown_Validate breakdown of
                             Inl err \<Rightarrow> Inl err
                           | Inr _ \<Rightarrow> Inr breakdown)))))"

section \<open>Reference amounts\<close>

definition gross_spec :: "InvestmentTerms \<Rightarrow> int" where
  "gross_spec t = half_up (it_PrincipalCents t * it_AnnualRateBPS t * it_TermDays t) (10000 * 365)"

definition fee_spec :: "calc_Service \<Rightarrow> int \<Rightarrow> int" where
  "fee_spec s g = half_up (g * cc_PlatformFeeBPS (cs_cfg s)) 10000"

definition tax_spec :: "calc_Service \<Rightarrow> int \<Rightarrow> int" where
  "tax_spec s g = half_up ((g - fee_spec s g) * cc_WithholdingTaxBPS (cs_cfg s)) 10000"

definition service_ok :: "calc_Service \<Rightarrow> bool" where
  "service_ok s \<longleftrightarrow> 0 \<le> cc_PlatformFeeBPS (cs_cfg s) \<and> cc_PlatformFeeBPS (cs_cfg s) \<le> 10000 \<and>
     0 \<le> cc_WithholdingTaxBPS (cs_cfg s) \<and> cc_WithholdingTaxBPS (cs_cfg s) \<le> 10000"

lemma calculator_New_ok: "calculator_New cfg = Inr s \<longleftrightarrow> service_ok s \<and> cs_cfg s = cfg"
  by (cases s) (auto simp: calculator_New_def service_ok_def validate_iffs split: sum.splits)

text \<open>The largest gross return that the 64-bit product can yield.\<close>

abbreviation max_gross :: int where
  "max_gross \<equiv> 2526951242974"

lemma apply_bps_small:
  assumes "0 \<le> g" "g \<le> max_gross" "0 \<le> b" "b \<le> 10000"
  shows "ApplyBasisPoints g b = Inr (half_up (g * b) 10000)"
proof (rule ApplyBasisPoints_exact)
  have "g * b \<le> max_gross * 10000" using assms by (intro mult_mono) auto
  then show "g * b \<le> MaxInt64 - 5000" by simp
qed (use assms in auto)

lemma fee_tax_bounds:
  assumes "service_ok s" "0 \<le> g"
  shows "0 \<le> fee_spec s g" "fee_spec s g \<le> g" "0 \<le> tax_spec s g" "tax_spec s g \<le> g - fee_spec s g"
proof -
  show fee: "0 \<le> fee_spec s g" "fee_spec s g \<le> g"
    using half_up_bps_le assms by (auto simp: service_ok_def fee_spec_def)
  show "0 \<le> tax_spec s g" "tax_spec s g \<le> g - fee_spec s g"
    using half_up_bps_le [of "g - fee_spec s g"] fee assms
    by (auto simp: service_ok_def tax_spec_def)
qed

section \<open>Calculate against the reference\<close>

text \<open>
  Fee and tax are computed exactly whatever the gross return is, since the division has made it
  small; so from the gross return onwards the code computes the reference.
\<close>

definition breakdown_of :: "golib \<Rightarrow> calc_Service \<Rightarrow> InvestmentTerms \<Rightarrow> int \<Rightarrow> Breakdown" where
  "breakdown_of L s t g =
     \<lparr>bd_PrincipalCents = it_PrincipalCents t, bd_GrossReturnCents = g,
      bd_PlatformFeeCents = fee_spec s g, bd_WithholdingTaxCents = tax_spec s g,
      bd_NetPayoutCents = it_PrincipalCents t + g - fee_spec s g - tax_spec s g,
      bd_Currency = ToUpper (unicode_ToUpper L) (TrimSpace (it_Currency t))\<rparr>"

lemma small_in_int64:
  "- 10000000000000000 \<le> x \<Longrightarrow> x \<le> 10000000000000000 \<Longrightarrow> in_int64 x"
  by (simp add: in_int64_def)

lemma Breakdown_Validate_breakdown_of:
  assumes "service_ok s" "0 \<le> g" "g \<le> max_gross" "0 < it_PrincipalCents t" "it_PrincipalCents t \<le> 922337203685477"
  shows "Breakdown_Validate (breakdown_of L s t g) = Inr u \<longleftrightarrow>
    length (TrimSpace (ToUpper (unicode_ToUpper L) (TrimSpace (it_Currency t)))) = 3"
proof -
  note b = fee_tax_bounds [OF assms(1,2)]
  have "breakdown_amounts_ok (breakdown_of L s t g)"
    using b assms by (auto simp: amounts_ok_def breakdown_of_def)
  moreover have "in_int64 (fee_spec s g)" "in_int64 (tax_spec s g)" "in_int64 g"
    "in_int64 (it_PrincipalCents t + g)"
    using b assms by (auto intro!: small_in_int64)
  ultimately show ?thesis
    by (subst Breakdown_Validate_iff) (auto simp: breakdown_of_def)
qed

lemma Calculate_from_gross:
  assumes s: "service_ok s" and v: "InvestmentTerms_Validate t = Inr ()"
    and g: "ProratedReturn (it_PrincipalCents t) (it_AnnualRateBPS t) (it_TermDays t) = Inr g" and nn: "0 \<le> g"
  shows "Calculate L s t =
    (case Breakdown_Validate (breakdown_of L s t g) of Inl e \<Rightarrow> Inl e | Inr _ \<Rightarrow> Inr (breakdown_of L s t g))"
proof -
  have gb: "g \<le> max_gross" using ProratedReturn_bound [OF g] by simp
  note b = fee_tax_bounds [OF s nn]
  have P: "0 < it_PrincipalCents t" "it_PrincipalCents t \<le> 922337203685477"
    using v by (auto simp: InvestmentTerms_Validate_iff)
  have fee: "ApplyBasisPoints g (cc_PlatformFeeBPS (cs_cfg s)) = Inr (fee_spec s g)"
    using apply_bps_small nn gb s by (auto simp: service_ok_def fee_spec_def)
  have sub: "Cents_Sub g (fee_spec s g) = g - fee_spec s g"
    using b nn gb by (auto simp: cents_defs intro!: wrap64_id small_in_int64)
  have tax: "ApplyBasisPoints (g - fee_spec s g) (cc_WithholdingTaxBPS (cs_cfg s)) = Inr (tax_spec s g)"
    using apply_bps_small [of "g - fee_spec s g"] b nn gb s by (auto simp: service_ok_def tax_spec_def)
  have net: "Cents_Sub (Cents_Sub (Cents_Add (it_PrincipalCents t) g) (fee_spec s g)) (tax_spec s g)
      = it_PrincipalCents t + g - fee_spec s g - tax_spec s g"
    using b nn gb P by (auto simp: cents_defs intro!: wrap64_id small_in_int64)
  show ?thesis
    by (simp add: Calculate_def v g fee sub tax net Let_def breakdown_of_def split: sum.split)
qed

text \<open>A gross return that wrapped to a negative number never gets through the final validation.\<close>

lemma Calculate_gross_nonneg:
  assumes "Calculate L s t = Inr b"
  obtains g where "InvestmentTerms_Validate t = Inr ()"
    "ProratedReturn (it_PrincipalCents t) (it_AnnualRateBPS t) (it_TermDays t) = Inr g" "0 \<le> g"
proof -
  from assms obtain g where "InvestmentTerms_Validate t = Inr ()"
    "ProratedReturn (it_PrincipalCents t) (it_AnnualRateBPS t) (it_TermDays t) = Inr g" "0 \<le> g"
    by (auto simp: Calculate_def Let_def Breakdown_Validate_def cents_defs split: sum.splits if_splits)
  then show thesis by (rule that)
qed

lemma Calculate_Inr:
  assumes s: "service_ok s" and c: "Calculate L s t = Inr b"
  obtains g where "InvestmentTerms_Validate t = Inr ()" "0 \<le> g" "g \<le> max_gross"
    "ProratedReturn (it_PrincipalCents t) (it_AnnualRateBPS t) (it_TermDays t) = Inr g"
    "b = breakdown_of L s t g" "Breakdown_Validate b = Inr ()"
proof -
  from Calculate_gross_nonneg [OF c] obtain g where v: "InvestmentTerms_Validate t = Inr ()"
    and g: "ProratedReturn (it_PrincipalCents t) (it_AnnualRateBPS t) (it_TermDays t) = Inr g" and nn: "0 \<le> g" .
  from ProratedReturn_bound [OF g] have "g \<le> max_gross" by simp
  moreover from c Calculate_from_gross [OF s v g nn] have "b = breakdown_of L s t g" "Breakdown_Validate b = Inr ()"
    by (auto split: sum.splits)
  ultimately show thesis using that v g nn by blast
qed

section \<open>A concrete calculation\<close>

definition demo_terms :: InvestmentTerms where
  "demo_terms = \<lparr>it_PrincipalCents = 1000000, it_AnnualRateBPS = 800, it_TermDays = 365, it_Currency = ''USD''\<rparr>"

definition demo_svc :: calc_Service where
  "demo_svc = \<lparr>cs_cfg = \<lparr>cc_PlatformFeeBPS = 100, cc_WithholdingTaxBPS = 1500\<rparr>\<rparr>"

definition demo_breakdown :: Breakdown where
  "demo_breakdown = \<lparr>bd_PrincipalCents = 1000000, bd_GrossReturnCents = 80000, bd_PlatformFeeCents = 800,
     bd_WithholdingTaxCents = 11880, bd_NetPayoutCents = 1067320, bd_Currency = ''USD''\<rparr>"

lemma demo_service: "calculator_New \<lparr>cc_PlatformFeeBPS = 100, cc_WithholdingTaxBPS = 1500\<rparr> = Inr demo_svc"
  by (simp add: calculator_New_def demo_svc_def)

lemma TrimSpace_USD [simp]: "TrimSpace ''USD'' = ''USD''"
  by (rule TrimSpace_letters) (simp add: is_letter_def)

lemma ToUpper_USD [simp]: "ToUpper up ''USD'' = ''USD''"
  by (simp add: ToUpper_def is_ascii_def upper_char_def)

lemma demo_calculate: "Calculate L demo_svc demo_terms = Inr demo_breakdown"
  by (simp add: Calculate_def demo_svc_def demo_terms_def demo_breakdown_def InvestmentTerms_Validate_def
      ProratedReturn_def ApplyBasisPoints_def money_consts cents_defs wrap64_def Let_def
      signed_divide_int_def Breakdown_Validate_def)

text \<open>
  C5. Whenever the calculator returns a breakdown, the money is conserved as exact integers
  (principal plus return is payout plus fee plus tax, although every step is 64-bit arithmetic
  that could wrap), fee and tax are non-negative and within what they are taken from, fee and tax
  are the half-up roundings of the configured rates, and the investor never receives less than
  the principal.
\<close>

theorem Calculate_conserves:
  assumes "calculator_New cfg = Inr s" and "Calculate L s t = Inr b"
  shows "bd_PrincipalCents b = it_PrincipalCents t
    \<and> bd_PrincipalCents b + bd_GrossReturnCents b
        = bd_NetPayoutCents b + bd_PlatformFeeCents b + bd_WithholdingTaxCents b
    \<and> 0 \<le> bd_PlatformFeeCents b \<and> bd_PlatformFeeCents b \<le> bd_GrossReturnCents b
    \<and> 0 \<le> bd_WithholdingTaxCents b
    \<and> bd_WithholdingTaxCents b \<le> bd_GrossReturnCents b - bd_PlatformFeeCents b
    \<and> bd_PlatformFeeCents b = half_up (bd_GrossReturnCents b * cc_PlatformFeeBPS cfg) 10000
    \<and> bd_WithholdingTaxCents b
        = half_up ((bd_GrossReturnCents b - bd_PlatformFeeCents b) * cc_WithholdingTaxBPS cfg) 10000
    \<and> it_PrincipalCents t \<le> bd_NetPayoutCents b"
proof -
  have s: "service_ok s" "cs_cfg s = cfg" using assms(1) by (auto simp: calculator_New_ok)
  from Calculate_Inr [OF s(1) assms(2)] obtain g where g: "0 \<le> g" "b = breakdown_of L s t g" by metis
  with fee_tax_bounds [OF s(1) g(1)] show ?thesis
    by (auto simp: breakdown_of_def fee_spec_def tax_spec_def s(2))
qed

text \<open>The seed data's first investment (10000 dollars at 8\% for a year), with the default rates.\<close>

theorem Calculate_conserves_witness:
  "\<exists>s b. calculator_New \<lparr>cc_PlatformFeeBPS = 100, cc_WithholdingTaxBPS = 1500\<rparr> = Inr s
    \<and> Calculate demo_lib s demo_terms = Inr b \<and> it_PrincipalCents demo_terms \<le> bd_NetPayoutCents b
    \<and> bd_NetPayoutCents b = 1067320"
  using Calculate_conserves [OF demo_service demo_calculate [of demo_lib]] demo_service demo_calculate
  by (auto simp: demo_breakdown_def)

text \<open>
  C30. On terms that pass validation and whose product principal times rate times days does not
  overflow 64 bits, with a currency that is a three-letter code, the calculator succeeds and its
  gross return is the half-up rounding of the exact pro rata return.
\<close>

theorem Calculate_exact:
  assumes "calculator_New cfg = Inr s" and "InvestmentTerms_Validate t = Inr ()"
    and "list_all is_letter (TrimSpace (it_Currency t))"
    and "it_PrincipalCents t * it_AnnualRateBPS t * it_TermDays t \<le> MaxInt64 - 1825000"
  shows "Calculate L s t = Inr (breakdown_of L s t (gross_spec t))"
proof -
  let ?g = "gross_spec t"
  have s: "service_ok s" using assms(1) by (simp add: calculator_New_ok)
  have v: "0 < it_PrincipalCents t" "it_PrincipalCents t \<le> 922337203685477" "0 \<le> it_AnnualRateBPS t"
    "it_AnnualRateBPS t \<le> 10000" "0 < it_TermDays t" "length (TrimSpace (it_Currency t)) = 3"
    using assms(2) by (auto simp: InvestmentTerms_Validate_iff)
  have g: "ProratedReturn (it_PrincipalCents t) (it_AnnualRateBPS t) (it_TermDays t) = Inr ?g"
    using ProratedReturn_exact [of "it_PrincipalCents t" "it_AnnualRateBPS t" "it_TermDays t"] v assms(4)
    by (simp add: gross_spec_def)
  have nn: "0 \<le> ?g" using v by (auto simp: gross_spec_def intro!: half_up_nonneg)
  have gb: "?g \<le> max_gross" using ProratedReturn_bound [OF g] by simp
  have "Breakdown_Validate (breakdown_of L s t ?g) = Inr ()"
    using ToUpper_letters [OF assms(3)] TrimSpace_letters v
    by (auto simp: Breakdown_Validate_breakdown_of [OF s nn gb v(1,2)])
  with Calculate_from_gross [OF s assms(2) g nn] show ?thesis by simp
qed

theorem Calculate_exact_witness:
  "Calculate demo_lib demo_svc demo_terms = Inr (breakdown_of demo_lib demo_svc demo_terms (gross_spec demo_terms))
    \<and> gross_spec demo_terms = 80000"
proof -
  have "InvestmentTerms_Validate demo_terms = Inr ()"
    by (simp add: demo_terms_def InvestmentTerms_Validate_iff)
  moreover have "list_all is_letter (TrimSpace (it_Currency demo_terms))"
    by (simp add: demo_terms_def is_letter_def)
  ultimately show ?thesis
    using Calculate_exact [OF demo_service, of demo_terms demo_lib]
    by (simp add: demo_terms_def gross_spec_def half_up_def)
qed

text \<open>
  C35. The bound on the principal does not prevent overflow of the pro rata product: the calculator
  accepts terms (seven hundred billion dollars at 8\% over a year) and returns, without an error, a
  gross return of about a tenth of the true one.
\<close>

theorem Calculate_overflow_undetected:
  "\<exists>t s b. calculator_New \<lparr>cc_PlatformFeeBPS = 100, cc_WithholdingTaxBPS = 1500\<rparr> = Inr s
     \<and> InvestmentTerms_Validate t = Inr () \<and> Calculate L s t = Inr b
     \<and> 10 * bd_GrossReturnCents b < gross_spec t"
proof -
  let ?t = "\<lparr>it_PrincipalCents = 70000000000000, it_AnnualRateBPS = 800, it_TermDays = 365, it_Currency = ''USD''\<rparr>"
  let ?s = "\<lparr>cs_cfg = \<lparr>cc_PlatformFeeBPS = 100, cc_WithholdingTaxBPS = 1500\<rparr>\<rparr>"
  have usd: "list_all is_letter ''USD''" by (simp add: is_letter_def)
  have s: "service_ok ?s" by (simp add: service_ok_def)
  have v: "InvestmentTerms_Validate ?t = Inr ()"
    using TrimSpace_letters [OF usd] by (simp add: InvestmentTerms_Validate_iff)
  have g: "ProratedReturn 70000000000000 800 365 = Inr 546097514052"
    by (simp add: ProratedReturn_def money_consts wrap64_def Let_def signed_divide_int_def)
  have "Breakdown_Validate (breakdown_of L ?s ?t 546097514052) = Inr ()"
    using ToUpper_letters [OF usd, of "unicode_ToUpper L"] TrimSpace_letters [OF usd] TrimSpace_letters
    by (subst Breakdown_Validate_breakdown_of [OF s]) auto
  then have "Calculate L ?s ?t = Inr (breakdown_of L ?s ?t 546097514052)"
    using Calculate_from_gross [OF s v, of 546097514052] g by simp
  moreover have "10 * 546097514052 < gross_spec ?t" by (simp add: gross_spec_def half_up_def)
  moreover have "calculator_New \<lparr>cc_PlatformFeeBPS = 100, cc_WithholdingTaxBPS = 1500\<rparr> = Inr ?s"
    by (simp add: calculator_New_def)
  ultimately show ?thesis using v by (force simp: breakdown_of_def)
qed

end
