(* ===== verification/Ledger_Posting.thy ===== *)
theory Ledger_Posting
  imports Audit_Trail Calculator "HOL-Library.Multiset"
begin

text \<open>
  \<^verbatim>\<open>internal/ledger/posting.go\<close>: the double-entry posting of a settlement. The theory shows
  when a posting balances, what a successful posting appends to the ledger, and that a job which has
  entries is never posted again.
\<close>

definition sideDebit :: string where "sideDebit = ''D''"
definition sideCredit :: string where "sideCredit = ''C''"
definition accountTypeLiability :: string where "accountTypeLiability = ''liability''"
definition accountTypeAsset :: string where "accountTypeAsset = ''asset''"
definition accountTypeRevenue :: string where "accountTypeRevenue = ''revenue''"
definition platformFeeAccountCode :: string where "platformFeeAccountCode = ''PLATFORM_FEE_REVENUE''"
definition withholdingTaxAccountCode :: string where "withholdingTaxAccountCode = ''WITHHOLDING_TAX_PAYABLE''"

lemmas posting_consts = sideDebit_def sideCredit_def accountTypeLiability_def accountTypeAsset_def accountTypeRevenue_def
  platformFeeAccountCode_def withholdingTaxAccountCode_def

record PostSettlementInput =
  ps_JobID :: uuid
  ps_InvestorID :: uuid
  ps_Breakdown :: Breakdown

definition EntryGroupIDFromJob :: "golib \<Rightarrow> uuid \<Rightarrow> uuid" where
  "EntryGroupIDFromJob L jobID = uuid_NewSHA1_OID L (''arrakin:settlement:'' @ uuid_String L jobID)"

definition investorPayableCode :: "golib \<Rightarrow> uuid \<Rightarrow> string" where
  "investorPayableCode L investorID = ''INVESTOR_PAYABLE:'' @ uuid_String L investorID"

definition investorWalletCode :: "golib \<Rightarrow> uuid \<Rightarrow> string" where
  "investorWalletCode L investorID = ''INVESTOR_WALLET:'' @ uuid_String L investorID"

definition buildPostingLines :: "golib \<Rightarrow> uuid \<Rightarrow> Breakdown \<Rightarrow> LedgerLineInput list" where
  "buildPostingLines L investorID b =
     (let currency = bd_Currency b;
          totalObligation = TotalObligationCents b;
          metadata = JObj [(''investor_id'', JStr (uuid_String L investorID)), (''currency'', JStr currency)]
      in [\<lparr>li_AccountCode = investorPayableCode L investorID, li_AccountName = ''Investor Payable'',
           li_AccountType = accountTypeLiability, li_Side = sideDebit, li_AmountCents = totalObligation,
           li_Currency = currency, li_Description = ''Settlement: reduce investor payable'', li_Metadata = metadata\<rparr>,
          \<lparr>li_AccountCode = investorWalletCode L investorID, li_AccountName = ''Investor Wallet'',
           li_AccountType = accountTypeAsset, li_Side = sideCredit, li_AmountCents = bd_NetPayoutCents b,
           li_Currency = currency, li_Description = ''Settlement: credit investor wallet'', li_Metadata = metadata\<rparr>,
          \<lparr>li_AccountCode = platformFeeAccountCode, li_AccountName = ''Platform Fee Revenue'',
           li_AccountType = accountTypeRevenue, li_Side = sideCredit, li_AmountCents = bd_PlatformFeeCents b,
           li_Currency = currency, li_Description = ''Settlement: recognize platform fee'', li_Metadata = metadata\<rparr>,
          \<lparr>li_AccountCode = withholdingTaxAccountCode, li_AccountName = ''Withholding Tax Payable'',
           li_AccountType = accountTypeLiability, li_Side = sideCredit, li_AmountCents = bd_WithholdingTaxCents b,
           li_Currency = currency, li_Description = ''Settlement: withhold tax payable'', li_Metadata = metadata\<rparr>])"

fun sum_sides :: "int \<Rightarrow> int \<Rightarrow> LedgerLineInput list \<Rightarrow> (int \<times> int) res" where
  "sum_sides debits credits [] = Inr (debits, credits)"
| "sum_sides debits credits (line # lines) =
     (if li_AmountCents line \<le> 0 then Inl (Errorf ''ledger line amount must be positive'' [])
      else if li_Side line = sideDebit then sum_sides (wrap64 (debits + li_AmountCents line)) credits lines
      else if li_Side line = sideCredit then sum_sides debits (wrap64 (credits + li_AmountCents line)) lines
      else Inl (Errorf ''invalid ledger side %q'' [ArgStr (li_Side line)]))"

definition validateBalanced :: "LedgerLineInput list \<Rightarrow> unit res" where
  "validateBalanced lines =
     (case sum_sides 0 0 lines of
        Inl err \<Rightarrow> Inl err
      | Inr (debits, credits) \<Rightarrow>
          if debits \<noteq> credits
          then Inl (Errorf ''unbalanced posting: debits=%d credits=%d'' [ArgInt debits, ArgInt credits])
          else Inr ())"

definition PostSettlement :: "golib \<Rightarrow> tx_env \<Rightarrow> PostSettlementInput \<Rightarrow> LedgerEntry list txm" where
  "PostSettlement L E input =
     (case Breakdown_Validate (ps_Breakdown input) of
        Inl err \<Rightarrow> failE (WrapPre ''post settlement'' [] err)
      | Inr _ \<Rightarrow>
        if ps_JobID input = uuid_Nil then failE (Errorf ''post settlement: job id is required'' [])
        else if ps_InvestorID input = uuid_Nil then failE (Errorf ''post settlement: investor id is required'' [])
        else tryE (LedgerRepo_GetEntryGroupID E (ps_JobID input)) (\<lambda>r. case r of
          Inr existingGroup \<Rightarrow> LedgerRepo_ListByJobID E (ps_JobID input)
        | Inl err \<Rightarrow>
            if \<not> IsNotFound err then failE (WrapPre ''post settlement'' [] err)
            else let entryGroupID = EntryGroupIDFromJob L (ps_JobID input);
                     lines = buildPostingLines L (ps_InvestorID input) (ps_Breakdown input)
                 in (case validateBalanced lines of
                       Inl err \<Rightarrow> failE err
                     | Inr _ \<Rightarrow> wrapE ''post settlement'' []
                         (LedgerRepo_PostEntries L E (ps_JobID input) entryGroupID lines))))"

context engine_store
begin

lemma PostSettlement_keeps [tx_intros]: "keeps R (PostSettlement L E input)"
  unfolding PostSettlement_def Let_def
  by (auto intro!: tx_intros split: sum.splits)

end

section \<open>When a posting balances\<close>

lemma validateBalanced_four:
  assumes "in_int64 (bd_PrincipalCents b + bd_GrossReturnCents b)" "breakdown_amounts_ok b"
  shows "validateBalanced (buildPostingLines L i b) =
     (if bd_PlatformFeeCents b = 0 \<or> bd_WithholdingTaxCents b = 0
      then Inl (Errorf ''ledger line amount must be positive'' []) else Inr ())"
proof -
  have "0 < bd_PrincipalCents b + bd_GrossReturnCents b"
    using assms(2) by (auto simp: amounts_ok_def)
  with assms show ?thesis
    by (auto simp: validateBalanced_def buildPostingLines_def Let_def posting_consts TotalObligation_exact amounts_ok_def
        wrap64_id in_int64_def split: if_splits)
qed

section \<open>What a posting appends\<close>

text \<open>
  \<open>posted d job g line e\<close>: the entry \<open>e\<close> of the tables \<open>d\<close> records \<open>line\<close> for the job in group
  \<open>g\<close>, on the account of that code.
\<close>

definition posted :: "db \<Rightarrow> uuid \<Rightarrow> uuid \<Rightarrow> LedgerLineInput \<Rightarrow> LedgerEntry \<Rightarrow> bool" where
  "posted d job g line e \<longleftrightarrow> le_SettlementJobID e = job \<and> le_EntryGroupID e = g
     \<and> le_Side e = bpchar 1 (li_Side line) \<and> le_AmountCents e = li_AmountCents line
     \<and> le_Description e = li_Description line \<and> le_Metadata e = li_Metadata line
     \<and> (\<exists>a \<in> set (ledger_accounts d). la_ID a = le_AccountID e \<and> la_Code a = li_AccountCode line)"

definition accounts_grow :: "db \<Rightarrow> db \<Rightarrow> bool" where
  "accounts_grow d d' \<longleftrightarrow>
     (\<forall>a \<in> set (ledger_accounts d). \<exists>a' \<in> set (ledger_accounts d'). la_ID a' = la_ID a \<and> la_Code a' = la_Code a)"

lemma accounts_grow_refl [simp]: "accounts_grow d d"
  by (auto simp: accounts_grow_def)

lemma accounts_growI:
  "(\<And>a. a \<in> set (ledger_accounts d) \<Longrightarrow>
      f a \<in> set (ledger_accounts d') \<and> la_ID (f a) = la_ID a \<and> la_Code (f a) = la_Code a) \<Longrightarrow> accounts_grow d d'"
  unfolding accounts_grow_def by metis

lemma accounts_grow_trans: "accounts_grow d d' \<Longrightarrow> accounts_grow d' d'' \<Longrightarrow> accounts_grow d d''"
  unfolding accounts_grow_def by metis

lemma posted_grow: "posted d job g l e \<Longrightarrow> accounts_grow d d' \<Longrightarrow> posted d' job g l e"
  unfolding posted_def accounts_grow_def by metis

lemma Upsert_Rows:
  assumes "UpsertLedgerAccount code name typ E u d = Rows a d'" "ledger_ok d"
  shows "\<exists>as. d' = d\<lparr>ledger_accounts := as\<rparr>" "a \<in> set (ledger_accounts d')" "la_Code a = code" "accounts_grow d d'"
    "ledger_ok d'"
proof -
  have "(\<exists>as. d' = d\<lparr>ledger_accounts := as\<rparr>) \<and> a \<in> set (ledger_accounts d') \<and> la_Code a = code \<and> accounts_grow d d'"
  proof (cases "find (\<lambda>a. la_Code a = code) (ledger_accounts d)")
    case None
    with assms(1) have "d' = d\<lparr>ledger_accounts := ledger_accounts d @ [a]\<rparr>" "la_Code a = code"
      by (auto simp: UpsertLedgerAccount_def Let_def split: if_splits)
    then show ?thesis by (auto simp: accounts_grow_def)
  next
    case (Some b)
    note b = find_eq_SomeD [OF Some]
    from assms(1) Some have a: "a = b\<lparr>la_Name := name\<rparr>"
        and d': "d' = d\<lparr>ledger_accounts := map (\<lambda>c. if la_Code c = code then a else c) (ledger_accounts d)\<rparr>"
      by (auto simp: UpsertLedgerAccount_def split: if_splits)
    have "c = b" if "c \<in> set (ledger_accounts d)" "la_Code c = code" for c
      using assms(2) b that by (auto simp: ledger_ok_def dest: distinct_map_same_key)
    then have "accounts_grow d d'"
      by (intro accounts_growI [where f = "\<lambda>c. if la_Code c = code then a else c"]) (auto simp: d' a)
    moreover have "a \<in> set (ledger_accounts d')" using b by (force simp: d')
    moreover have "la_Code a = code" using a b by simp
    ultimately show ?thesis using d' by blast
  qed
  then show "\<exists>as. d' = d\<lparr>ledger_accounts := as\<rparr>" "a \<in> set (ledger_accounts d')" "la_Code a = code" "accounts_grow d d'"
    by simp_all
  from assms show "ledger_ok d'" by (rule upsert_ledger_ok)
qed

text \<open>The tables after a posting: the ledger has the new entries, the chart of accounts has grown.\<close>

definition ledger_step :: "db \<Rightarrow> LedgerEntry list \<Rightarrow> db \<Rightarrow> bool" where
  "ledger_step d es d' \<longleftrightarrow> ledger_ok d' \<and> accounts_grow d d'
     \<and> (\<exists>as. d' = d\<lparr>ledger_accounts := as, ledger_entries := ledger_entries d @ es\<rparr>)"

lemma ledger_step_trans: "ledger_step d es d' \<Longrightarrow> ledger_step d' fs d'' \<Longrightarrow> ledger_step d (es @ fs) d''"
  unfolding ledger_step_def by (auto intro: accounts_grow_trans)

lemma insert_ledger_ok: "InsertLedgerEntry q E u d = Rows e d' \<Longrightarrow> ledger_ok d \<Longrightarrow> ledger_ok d'"
  by (auto simp: InsertLedgerEntry_Rows ledger_ok_def)

lemma post_line_ok:
  assumes "post_line E job g line st = (Inr e, st')" "ledger_ok (tx_db st)"
  shows "ledger_step (tx_db st) [e] (tx_db st')" "posted (tx_db st') job g line e"
    "tx_proc st' = tx_proc st" "\<not> tx_aborted st'"
proof -
  from assms(1) obtain a d1 u1 u2 q where up: "UpsertLedgerAccount (li_AccountCode line) (li_AccountName line)
        (li_AccountType line) E u1 (tx_db st) = Rows a d1"
      and ins: "InsertLedgerEntry q E u2 d1 = Rows e (tx_db st')"
      and q: "ip_EntryGroupID q = g" "ip_SettlementJobID q = job" "ip_AccountID q = la_ID a" "ip_Side q = li_Side line"
        "ip_AmountCents q = li_AmountCents line" "ip_Description q = li_Description line" "ip_Metadata q = li_Metadata line"
      and st: "tx_proc st' = tx_proc st" "\<not> tx_aborted st'"
    by (auto simp: post_line_def tx_success)
  note u = Upsert_Rows [OF up assms(2)]
  from ins q have e: "tx_db st' = d1\<lparr>ledger_entries := ledger_entries d1 @ [e]\<rparr>" "le_SettlementJobID e = job"
      "le_EntryGroupID e = g" "le_Side e = bpchar 1 (li_Side line)" "le_AmountCents e = li_AmountCents line"
      "le_AccountID e = la_ID a" "le_Description e = li_Description line" "le_Metadata e = li_Metadata line"
    by (auto simp: InsertLedgerEntry_Rows new_entry_def)
  from u(1) obtain as where d1: "d1 = (tx_db st)\<lparr>ledger_accounts := as\<rparr>" by blast
  have "accounts_grow (tx_db st) (tx_db st')" using u(4) e(1) by (simp add: accounts_grow_def)
  with d1 e(1) insert_ledger_ok [OF ins u(5)] show "ledger_step (tx_db st) [e] (tx_db st')"
    by (auto simp: ledger_step_def)
  show "posted (tx_db st') job g line e"
    using u(2,3) e by (auto simp: posted_def)
  from st show "tx_proc st' = tx_proc st" "\<not> tx_aborted st'" by auto
qed

lemma post_lines_ok:
  assumes "mapE (post_line E job g) lines st = (Inr es, st')" "ledger_ok (tx_db st)" "\<not> tx_aborted st"
  shows "ledger_step (tx_db st) es (tx_db st') \<and> list_all2 (posted (tx_db st') job g) lines es
    \<and> tx_proc st' = tx_proc st \<and> \<not> tx_aborted st'"
  using assms
proof (induction lines arbitrary: es st)
  case Nil
  then show ?case by (auto simp: ledger_step_def intro: exI [of _ "ledger_accounts (tx_db st)"])
next
  case (Cons line lines)
  from Cons.prems(1) obtain e fs st1 where 1: "post_line E job g line st = (Inr e, st1)"
      and 2: "mapE (post_line E job g) lines st1 = (Inr fs, st')" and es: "es = e # fs"
    by (auto simp: bindE_Inr)
  note l = post_line_ok [OF 1 Cons.prems(2)]
  from l(1) have "ledger_ok (tx_db st1)" by (simp add: ledger_step_def)
  note r = Cons.IH [OF 2 this l(4)]
  from l(1) r have "ledger_step (tx_db st) (e # fs) (tx_db st')"
    using ledger_step_trans [of "tx_db st" "[e]" "tx_db st1" fs "tx_db st'"] by simp
  moreover from r have "posted (tx_db st') job g line e"
    using l(2) posted_grow by (auto simp: ledger_step_def)
  ultimately show ?case using r l(3) es by simp
qed

text \<open>The four lines of a settlement, and the balance of a list of entries.\<close>

definition side_total :: "string \<Rightarrow> LedgerEntry list \<Rightarrow> int" where
  "side_total s es = sum_list (map le_AmountCents (filter (\<lambda>e. le_Side e = s) es))"

definition settlement_entries :: "golib \<Rightarrow> db \<Rightarrow> uuid \<Rightarrow> uuid \<Rightarrow> Breakdown \<Rightarrow> LedgerEntry list \<Rightarrow> bool" where
  "settlement_entries L d job investor b es \<longleftrightarrow>
     list_all2 (posted d job (EntryGroupIDFromJob L job)) (buildPostingLines L investor b) es"

definition entries_of :: "db \<Rightarrow> uuid \<Rightarrow> LedgerEntry list" where
  "entries_of d job = filter (\<lambda>e. le_SettlementJobID e = job) (ledger_entries d)"

lemma bpchar_side [simp]: "bpchar (Suc 0) sideDebit = ''D''" "bpchar (Suc 0) sideCredit = ''C''"
  by (simp_all add: posting_consts)

lemma settlement_entries_amounts:
  assumes "settlement_entries L d job investor b es" "in_int64 (bd_PrincipalCents b + bd_GrossReturnCents b)"
    "breakdown_amounts_ok b"
  shows "side_total ''D'' es = bd_PrincipalCents b + bd_GrossReturnCents b"
    "side_total ''C'' es = bd_PrincipalCents b + bd_GrossReturnCents b"
    "length es = 4" "\<forall>e \<in> set es. le_SettlementJobID e = job"
  using assms
  by (auto simp: settlement_entries_def buildPostingLines_def Let_def list_all2_Cons1 posted_def side_total_def
      TotalObligation_exact amounts_ok_def)

lemma GetLedgerEntryGroupIDByJobID_NoRows:
  "GetLedgerEntryGroupIDByJobID job E u d = NoRows \<longleftrightarrow> entries_of d job = []"
  "GetLedgerEntryGroupIDByJobID job E u d \<noteq> SqlError c"
proof -
  have "sort_key f xs = [] \<longleftrightarrow> xs = []" for f :: "LedgerEntry \<Rightarrow> nat" and xs
    by (metis length_0_conv length_sort)
  then show "GetLedgerEntryGroupIDByJobID job E u d = NoRows \<longleftrightarrow> entries_of d job = []"
    by (auto simp: GetLedgerEntryGroupIDByJobID_def entries_of_def split: list.splits)
qed (auto simp: GetLedgerEntryGroupIDByJobID_def split: list.splits)

lemma PostEntries_ok:
  assumes "LedgerRepo_PostEntries L E job g lines st = (Inr es, st')" "ledger_ok (tx_db st)"
  shows "entries_of (tx_db st) job = []" "ledger_step (tx_db st) es (tx_db st')"
    "list_all2 (posted (tx_db st') job g) lines es" "tx_proc st' = tx_proc st" "\<not> tx_aborted st'"
proof -
  obtain r st1 where q: "run_stmt E (GetLedgerEntryGroupIDByJobID job) st = (r, st1)" by fastforce
  with assms(1) have r: "r = Inl PgxErrNoRows" and m: "mapE (post_line E job g) lines st1 = (Inr es, st')"
    by (auto simp: LedgerRepo_PostEntries_def tryE_def bindE_def failE_def liftE_def returnE_def run_stmt_def
        split: sum.splits if_splits sql_result.splits)
  from q r have "\<not> tx_aborted st" "GetLedgerEntryGroupIDByJobID job E (gen_uuid E (tx_stmts st)) (tx_db st) = NoRows"
      and st1: "tx_db st1 = tx_db st" "tx_proc st1 = tx_proc st" "tx_aborted st1 = tx_aborted st"
    by (auto simp: run_stmt_def split: if_splits sql_result.splits)
  then show "entries_of (tx_db st) job = []" by (simp add: GetLedgerEntryGroupIDByJobID_NoRows)
  from post_lines_ok [OF m] assms(2) st1 \<open>\<not> tx_aborted st\<close>
  show "ledger_step (tx_db st) es (tx_db st')" "list_all2 (posted (tx_db st') job g) lines es"
      "tx_proc st' = tx_proc st" "\<not> tx_aborted st'" by simp_all
qed

text \<open>
  A successful posting either found the entries of the job and changed nothing, or there were
  none and it appended the four lines.
\<close>

definition posting_outcome :: "golib \<Rightarrow> PostSettlementInput \<Rightarrow> tx \<Rightarrow> LedgerEntry list \<Rightarrow> tx \<Rightarrow> bool" where
  "posting_outcome L input st es st' \<longleftrightarrow> tx_proc st' = tx_proc st \<and> \<not> tx_aborted st' \<and>
     (if entries_of (tx_db st) (ps_JobID input) = []
      then ledger_step (tx_db st) es (tx_db st')
         \<and> settlement_entries L (tx_db st') (ps_JobID input) (ps_InvestorID input) (ps_Breakdown input) es
         \<and> validateBalanced (buildPostingLines L (ps_InvestorID input) (ps_Breakdown input)) = Inr ()
      else tx_db st' = tx_db st \<and> mset es = mset (entries_of (tx_db st) (ps_JobID input)))"

lemma PostSettlement_ok:
  assumes "PostSettlement L E input st = (Inr es, st')" "ledger_ok (tx_db st)"
  shows "Breakdown_Validate (ps_Breakdown input) = Inr ()" "ps_JobID input \<noteq> uuid_Nil" "ps_InvestorID input \<noteq> uuid_Nil"
    "posting_outcome L input st es st'"
proof -
  let ?job = "ps_JobID input" and ?lines = "buildPostingLines L (ps_InvestorID input) (ps_Breakdown input)"
  from assms(1) show v: "Breakdown_Validate (ps_Breakdown input) = Inr ()" "?job \<noteq> uuid_Nil"
      "ps_InvestorID input \<noteq> uuid_Nil"
    by (auto simp: PostSettlement_def split: sum.splits if_splits)
  obtain r st1 where q: "LedgerRepo_GetEntryGroupID E ?job st = (r, st1)" by fastforce
  have run: "case r of Inr g \<Rightarrow> LedgerRepo_ListByJobID E ?job st1 = (Inr es, st')
      | Inl err \<Rightarrow> validateBalanced ?lines = Inr ()
          \<and> LedgerRepo_PostEntries L E ?job (EntryGroupIDFromJob L ?job) ?lines st1 = (Inr es, st')"
    using assms(1) v q
    by (auto simp: PostSettlement_def tryE_def Let_def split: sum.splits if_splits)
  have st1: "tx_db st1 = tx_db st" "tx_proc st1 = tx_proc st"
    using q by (auto simp: LedgerRepo_GetEntryGroupID_def noRowsAs_def tryE_def run_stmt_def returnE_def failE_def
        split: if_splits sql_result.splits dest: reads_unchanged)
  show "posting_outcome L input st es st'"
  proof (cases r)
    case (Inr g)
    with q have "GetLedgerEntryGroupIDByJobID ?job E (gen_uuid E (tx_stmts st)) (tx_db st) \<noteq> NoRows"
      by (auto simp: LedgerRepo_GetEntryGroupID_def run_stmt_Inr)
    with run Inr st1 show ?thesis
      by (auto simp: posting_outcome_def LedgerRepo_ListByJobID_def run_stmt_Inr ListLedgerEntriesByJobID_def
          entries_of_def GetLedgerEntryGroupIDByJobID_NoRows)
  next
    case (Inl err)
    with run have p: "LedgerRepo_PostEntries L E ?job (EntryGroupIDFromJob L ?job) ?lines st1 = (Inr es, st')"
        "validateBalanced ?lines = Inr ()" by auto
    from PostEntries_ok [OF p(1)] assms(2) st1 p(2) show ?thesis
      by (simp add: posting_outcome_def settlement_entries_def)
  qed
qed

end
