(* ===== verification/Retry_Policy.thy ===== *)
theory Retry_Policy
  imports Arrakin_Prelude
begin

text \<open>
  \<^verbatim>\<open>internal/settlement/retry/policy.go\<close>: exponential backoff between payout attempts. All
  durations are 64-bit nanoseconds. \<^verbatim>\<open>rand.Int63n(n)\<close> is a number below \<open>n\<close> chosen by the
  \<open>seed\<close>. A shift by a negative count panics, which is \<open>None\<close>.
\<close>

record Policy =
  BaseDelay :: duration
  MaxDelay :: duration

definition DefaultPolicy :: Policy where
  "DefaultPolicy = \<lparr>BaseDelay = 5 * Second, MaxDelay = 15 * 60 * Second\<rparr>"

definition rand_Int63n :: "int \<Rightarrow> int \<Rightarrow> int" where
  "rand_Int63n seed n = seed mod n"

definition NextRetryAt :: "Policy \<Rightarrow> int \<Rightarrow> int \<Rightarrow> gotime \<Rightarrow> gotime option" where
  "NextRetryAt p seed retryCount now =
     (let base = (if BaseDelay p \<le> 0 then 5 * Second else BaseDelay p);
          mx = (if MaxDelay p \<le> 0 then 15 * 60 * Second else MaxDelay p);
          shift = (if retryCount > 30 then 30 else retryCount)
      in if shift < 0 then None
         else let delay = wrap64 (base * 2 ^ nat shift);
                  delay = (if delay > mx then mx else delay);
                  jit = rand_Int63n seed Second
              in Some (now + wrap64 (delay + jit)))"

section \<open>The documented delay\<close>

definition effective_base :: "Policy \<Rightarrow> duration" where
  "effective_base p = (if BaseDelay p \<le> 0 then 5 * Second else BaseDelay p)"

definition effective_max :: "Policy \<Rightarrow> duration" where
  "effective_max p = (if MaxDelay p \<le> 0 then 15 * 60 * Second else MaxDelay p)"

definition backoff :: "Policy \<Rightarrow> int \<Rightarrow> duration" where
  "backoff p n = min (effective_max p) (effective_base p * 2 ^ nat n)"

text \<open>The products and the sum stay in 64 bits for policies up to these bounds.\<close>

definition policy_ok :: "Policy \<Rightarrow> bool" where
  "policy_ok p \<longleftrightarrow> effective_base p * 2 ^ 30 < 2 ^ 63 \<and> effective_max p \<le> 2 ^ 63 - 1 - Second"

lemma rand_range: "0 < n \<Longrightarrow> 0 \<le> rand_Int63n s n \<and> rand_Int63n s n < n"
  by (simp add: rand_Int63n_def)

lemma effective_pos: "0 < effective_base p" "0 < effective_max p"
  by (simp_all add: effective_base_def effective_max_def)

lemma pow_30_le: "nat n \<le> 30 \<Longrightarrow> (2::int) ^ nat n \<le> 2 ^ 30"
  by (rule power_increasing) auto

lemma base_pow_range:
  assumes "policy_ok p" "n \<le> 30"
  shows "0 \<le> effective_base p * 2 ^ nat n" "effective_base p * 2 ^ nat n < 2 ^ 63"
proof -
  have "effective_base p * 2 ^ nat n \<le> effective_base p * 2 ^ 30"
    using assms(2) effective_pos by (intro mult_left_mono pow_30_le) (auto intro: less_imp_le)
  with assms(1) show "effective_base p * 2 ^ nat n < 2 ^ 63" by (simp add: policy_ok_def)
  show "0 \<le> effective_base p * 2 ^ nat n" using effective_pos by (simp add: less_imp_le)
qed

text \<open>The cap on the exponent is invisible as long as the cap on the delay is reached by then.\<close>

lemma NextRetryAt_backoff:
  assumes "policy_ok p" "0 \<le> n"
  shows "\<exists>j. 0 \<le> j \<and> j < Second \<and> NextRetryAt p s n now = Some (now + backoff p (min n 30) + j)"
proof -
  let ?n = "min n 30" and ?j = "rand_Int63n s Second"
  have n: "(if n > 30 then 30 else n) = ?n" "0 \<le> ?n" "?n \<le> 30" using assms(2) by auto
  note r = base_pow_range [OF assms(1) n(3)]
  have w: "wrap64 (effective_base p * 2 ^ nat ?n) = effective_base p * 2 ^ nat ?n"
    using r by (intro wrap64_id) (simp add: in_int64_def)
  have j: "0 \<le> ?j \<and> ?j < Second" by (rule rand_range) simp
  have b: "0 \<le> backoff p ?n" "backoff p ?n \<le> 2 ^ 63 - 1 - Second"
    using r effective_pos [of p] assms(1) by (auto simp: backoff_def policy_ok_def)
  then have "wrap64 (backoff p ?n + ?j) = backoff p ?n + ?j"
    using j by (intro wrap64_id) (auto simp: in_int64_def)
  moreover have "NextRetryAt p s n now = Some (now + wrap64 (backoff p ?n + ?j))"
    using n w unfolding NextRetryAt_def Let_def effective_base_def [symmetric] effective_max_def [symmetric]
    by (auto simp: backoff_def min_def split: if_splits)
  ultimately show ?thesis using j by auto
qed

lemma backoff_mono: "0 \<le> m \<Longrightarrow> m \<le> n \<Longrightarrow> backoff p m \<le> backoff p n"
  unfolding backoff_def using effective_pos [of p]
  by (intro min.mono mult_left_mono power_increasing) auto

section \<open>Properties\<close>

text \<open>
  C4. Backoff delay: under a policy whose products fit in 64 bits, the next attempt of a job that has
  failed \<open>n\<close> times before is due between \<^verbatim>\<open>min(cap, base * 2^n)\<close> (the exponent counted
  up to 30) and one second more after now, and one failure later the delay is at least as long.
\<close>

theorem NextRetryAt_bounds:
  assumes "policy_ok p" "0 \<le> n"
  shows "\<exists>t. NextRetryAt p s n now = Some t
    \<and> now + backoff p (min n 30) \<le> t \<and> t < now + backoff p (min n 30) + Second
    \<and> backoff p (min n 30) \<le> backoff p (min (n + 1) 30) \<and> now < t"
proof -
  have "0 < backoff p (min n 30)"
    using effective_pos [of p] by (simp add: backoff_def)
  moreover have "backoff p (min n 30) \<le> backoff p (min (n + 1) 30)"
    using assms(2) by (intro backoff_mono) auto
  moreover obtain j where "0 \<le> j" "j < Second" "NextRetryAt p s n now = Some (now + backoff p (min n 30) + j)"
    using NextRetryAt_backoff [OF assms] by blast
  ultimately show ?thesis by auto
qed

theorem NextRetryAt_bounds_witness:
  "policy_ok DefaultPolicy \<and>
   (\<exists>t. NextRetryAt DefaultPolicy 7 3 100 = Some t \<and> 100 + 40 * Second \<le> t \<and> t < 100 + 41 * Second)"
proof -
  have "policy_ok DefaultPolicy"
    by (simp add: policy_ok_def effective_base_def effective_max_def DefaultPolicy_def)
  moreover have "backoff DefaultPolicy (min 3 30) = 40 * Second"
    by (simp add: backoff_def effective_base_def effective_max_def DefaultPolicy_def)
  ultimately show ?thesis
    using NextRetryAt_bounds [of DefaultPolicy 3 7 100] by auto
qed

text \<open>
  Overflow of the backoff: with a base delay of ten seconds and a cap of fifteen minutes, both of
  which the configuration accepts, a job that has failed thirty times gets a next attempt in the past:
  the product wraps to a negative delay that the cap does not catch.
\<close>

theorem NextRetryAt_overflow:
  "\<exists>t. NextRetryAt \<lparr>BaseDelay = 10 * Second, MaxDelay = 15 * 60 * Second\<rparr> s 30 now = Some t \<and> t < now"
proof -
  have "0 \<le> rand_Int63n s Second \<and> rand_Int63n s Second < Second" by (rule rand_range) simp
  moreover from this have "wrap64 (wrap64 (10 * Second * 2 ^ 30) + rand_Int63n s Second) < 0"
    by (simp add: wrap64_def)
  ultimately show ?thesis
    by (simp add: NextRetryAt_def Let_def wrap64_def)
qed

end
