(* ===== verification/Worker.thy ===== *)
theory Worker
  imports Ledger_Posting Retry_Policy
begin

text \<open>
  \<^verbatim>\<open>internal/worker/processor.go\<close> and \<^verbatim>\<open>internal/worker/pool.go\<close>: claiming and
  executing one settlement job in one transaction, and the pool that calls it. The logger is left
  out; the counters and the calls of the payout gateway are kept in \<open>proc\<close>.
\<close>

record Processor =
  wp_lib :: golib
  wp_gateway :: Gateway
  wp_retry :: Policy

text \<open>\<open>L\<close> is the library behind the posting service; the store, the repositories and the publisher have no state of their own.\<close>

definition NewProcessor :: "golib \<Rightarrow> Gateway \<Rightarrow> Policy \<Rightarrow> Processor" where
  "NewProcessor L gateway retryPolicy = \<lparr>wp_lib = L, wp_gateway = gateway, wp_retry = retryPolicy\<rparr>"

section \<open>Counters and gateway calls\<close>

definition inc_claimed :: "proc \<Rightarrow> proc" where
  "inc_claimed p = p\<lparr>proc_metrics := (proc_metrics p)\<lparr>JobsClaimed := JobsClaimed (proc_metrics p) + 1\<rparr>\<rparr>"
definition inc_succeeded :: "proc \<Rightarrow> proc" where
  "inc_succeeded p = p\<lparr>proc_metrics := (proc_metrics p)\<lparr>JobsSucceeded := JobsSucceeded (proc_metrics p) + 1\<rparr>\<rparr>"
definition inc_retried :: "proc \<Rightarrow> proc" where
  "inc_retried p = p\<lparr>proc_metrics := (proc_metrics p)\<lparr>JobsRetried := JobsRetried (proc_metrics p) + 1\<rparr>\<rparr>"
definition inc_dead :: "proc \<Rightarrow> proc" where
  "inc_dead p = p\<lparr>proc_metrics := (proc_metrics p)\<lparr>JobsDeadLettered := JobsDeadLettered (proc_metrics p) + 1\<rparr>\<rparr>"

definition call_gateway :: "Processor \<Rightarrow> ExecuteInput \<Rightarrow> payout_Result txm" where
  "call_gateway P input = bindE (updProc (\<lambda>p. p\<lparr>proc_payouts := proc_payouts p @ [input]\<rparr>)) (\<lambda>_. returnE (wp_gateway P input))"

section \<open>Processor\<close>

definition job_breakdown :: "SettlementJob \<Rightarrow> string \<Rightarrow> Breakdown" where
  "job_breakdown job currency =
     \<lparr>bd_PrincipalCents = sj_PrincipalCents job, bd_GrossReturnCents = sj_GrossReturnCents job,
      bd_PlatformFeeCents = sj_PlatformFeeCents job, bd_WithholdingTaxCents = sj_WithholdingTaxCents job,
      bd_NetPayoutCents = sj_NetPayoutCents job, bd_Currency = currency\<rparr>"

definition finishSuccess :: "Processor \<Rightarrow> tx_env \<Rightarrow> SettlementJob \<Rightarrow> PayoutAttempt \<Rightarrow> uuid \<Rightarrow> string \<Rightarrow> string
    \<Rightarrow> LedgerEntry list \<Rightarrow> unit txm" where
  "finishSuccess P E job attempt jobID payoutReference workerID entries =
     bindE (PayoutAttemptRepo_MarkSucceeded E (pa_ID attempt) payoutReference) (\<lambda>_.
     bindE (SettlementJobRepo_MarkSucceeded E (sj_ID job) payoutReference) (\<lambda>_.
     bindE (MaturityRepo_MarkSettled E (sj_MaturityScheduleID job)) (\<lambda>_.
     let groupID = EntryGroupIDFromJob (wp_lib P) jobID
     in bindE (PublishLedgerPosted (wp_lib P) E jobID groupID workerID (int (length entries))) (\<lambda>_.
     bindE (PublishJobTransition E jobID ActionSettlementJobSucceeded workerID
              [(''payout_reference'', JStr payoutReference)]) (\<lambda>_.
     updProc inc_succeeded)))))"

definition completeSuccess :: "Processor \<Rightarrow> tx_env \<Rightarrow> SettlementJob \<Rightarrow> PayoutAttempt \<Rightarrow> uuid \<Rightarrow> uuid \<Rightarrow> string
    \<Rightarrow> string \<Rightarrow> string \<Rightarrow> unit txm" where
  "completeSuccess P E job attempt investorID jobID currency payoutReference workerID =
     (case Breakdown_Validate (job_breakdown job currency) of
        Inl err \<Rightarrow> failE err
      | Inr _ \<Rightarrow>
        tryE (PostSettlement (wp_lib P) E
                \<lparr>ps_JobID = jobID, ps_InvestorID = investorID, ps_Breakdown = job_breakdown job currency\<rparr>)
          (\<lambda>r. case r of
             Inl err \<Rightarrow> if \<not> errors_Is err ErrLedgerAlreadyPosted then failE (WrapPre ''post ledger'' [] err)
                        else finishSuccess P E job attempt jobID payoutReference workerID []
           | Inr entries \<Rightarrow> finishSuccess P E job attempt jobID payoutReference workerID entries))"

definition deadLetter :: "Processor \<Rightarrow> tx_env \<Rightarrow> SettlementJob \<Rightarrow> uuid \<Rightarrow> string \<Rightarrow> go_error \<Rightarrow> ErrorClass \<Rightarrow> unit txm" where
  "deadLetter P E job jobID workerID err errorClass =
     (let reason = (if errorClass \<noteq> ErrorClassTerminal then ''max retries exceeded'' else ''terminal payout failure'')
      in bindE (SettlementJobRepo_MarkDeadLetter E (sj_ID job) reason (error_text err) errorClass) (\<lambda>_.
         bindE (PublishJobTransition E jobID ActionSettlementJobDeadLetter workerID
                  [(''reason'', JStr reason), (''error'', JStr (error_text err))]) (\<lambda>_.
         updProc inc_dead)))"

definition scheduleRetry :: "Processor \<Rightarrow> tx_env \<Rightarrow> SettlementJob \<Rightarrow> PayoutAttempt \<Rightarrow> uuid \<Rightarrow> string \<Rightarrow> go_error \<Rightarrow> unit txm" where
  "scheduleRetry P E job attempt jobID workerID err =
     (case NextRetryAt (wp_retry P) (jitter E) (sj_RetryCount job) (go_now E) of
        None \<Rightarrow> failE GoPanic
      | Some nextRetry \<Rightarrow>
         bindE (SettlementJobRepo_MarkFailedRetryable E (sj_ID job) nextRetry (error_text err)) (\<lambda>_.
         bindE (PublishJobTransition E jobID ActionSettlementJobFailed workerID
                  [(''retry_count'', JInt (wrap32 (sj_RetryCount job + 1))), (''next_retry_at'', JTime nextRetry),
                   (''error'', JStr (error_text err)), (''attempt_number'', JInt (pa_AttemptNumber attempt))]) (\<lambda>_.
         updProc inc_retried)))"

definition handleFailure :: "Processor \<Rightarrow> tx_env \<Rightarrow> SettlementJob \<Rightarrow> PayoutAttempt \<Rightarrow> uuid \<Rightarrow> string \<Rightarrow> go_error \<Rightarrow> ErrorClass
    \<Rightarrow> unit txm" where
  "handleFailure P E job attempt jobID workerID err resultClass =
     (let errorClass = (if resultClass = ErrorClassRaw [] then ErrorClassTransient else resultClass)
      in bindE (PayoutAttemptRepo_MarkFailed E (pa_ID attempt) (error_text err) errorClass) (\<lambda>_.
         if errorClass = ErrorClassTerminal \<or> wrap32 (sj_RetryCount job + 1) \<ge> sj_MaxRetries job
         then deadLetter P E job jobID workerID err errorClass
         else scheduleRetry P E job attempt jobID workerID err))"

definition execute_payout :: "Processor \<Rightarrow> tx_env \<Rightarrow> string \<Rightarrow> SettlementJob \<Rightarrow> uuid \<Rightarrow> Investment \<Rightarrow> uuid
    \<Rightarrow> PayoutAttempt \<Rightarrow> unit txm" where
  "execute_payout P E workerID job jobID investment investorID attempt =
     bindE (call_gateway P \<lparr>ei_JobID = jobID, ei_AttemptNumber = pa_AttemptNumber attempt,
              ei_SimulationProfile = inv_SimulationProfile investment, ei_NetPayoutCents = sj_NetPayoutCents job\<rparr>)
       (\<lambda>result. case pr_Err result of
          None \<Rightarrow> completeSuccess P E job attempt investorID jobID (inv_Currency investment)
                    (pr_PayoutReference result) workerID
        | Some err \<Rightarrow> handleFailure P E job attempt jobID workerID err (pr_ErrorClass result))"

definition process_body :: "Processor \<Rightarrow> tx_env \<Rightarrow> string \<Rightarrow> unit txm" where
  "process_body P E workerID =
     bindE (SettlementJobRepo_Claim E workerID) (\<lambda>job.
     bindE (updProc inc_claimed) (\<lambda>_.
     bindE (liftE (PgtypeToUUID (Some (sj_ID job)))) (\<lambda>jobID.
     bindE (wrapE ''load investment'' [] (run_stmt E (GetInvestmentByID (sj_InvestmentID job)))) (\<lambda>investment.
     bindE (liftE (PgtypeToUUID (Some (inv_InvestorID investment)))) (\<lambda>investorID.
     bindE (wrapE ''start payout attempt'' [] (PayoutAttemptRepo_Start E (sj_ID job))) (\<lambda>attempt.
     bindE (PublishJobTransition E jobID ActionSettlementJobClaimed workerID
              [(''attempt_number'', JInt (pa_AttemptNumber attempt))]) (\<lambda>_.
     execute_payout P E workerID job jobID investment investorID attempt)))))))"

definition ProcessOne :: "Processor \<Rightarrow> tx_env \<Rightarrow> string \<Rightarrow> sys \<Rightarrow> unit res \<times> sys" where
  "ProcessOne P E workerID s = WithTx E (process_body P E workerID) s"

section \<open>Pool\<close>

record pool_Config =
  WorkerCount :: int
  PollInterval :: duration
  BatchSize :: int

record Pool =
  pl_cfg :: pool_Config
  pl_processor :: Processor
  pl_instance :: string

definition NewPool :: "pool_Config \<Rightarrow> Processor \<Rightarrow> string \<Rightarrow> Pool" where
  "NewPool cfg processor instanceID =
     (let cfg = (if WorkerCount cfg \<le> 0 then cfg\<lparr>WorkerCount := 4\<rparr> else cfg);
          cfg = (if PollInterval cfg \<le> 0 then cfg\<lparr>PollInterval := Second\<rparr> else cfg);
          cfg = (if BatchSize cfg \<le> 0 then cfg\<lparr>BatchSize := 1\<rparr> else cfg);
          inst = (if instanceID = [] then ''arrakin'' else instanceID)
      in \<lparr>pl_cfg = cfg, pl_processor = processor, pl_instance = inst\<rparr>)"

definition worker_ids :: "Pool \<Rightarrow> string list" where
  "worker_ids p = map (\<lambda>i. pl_instance p @ ''-worker-'' @ itoa (int i)) [0..<nat (WorkerCount (pl_cfg p))]"

text \<open>One environment per transaction; the loop leaves at the first error of \<^verbatim>\<open>ProcessOne\<close>.\<close>

primrec drain_loop :: "Processor \<Rightarrow> string \<Rightarrow> (nat \<Rightarrow> tx_env) \<Rightarrow> nat \<Rightarrow> sys \<Rightarrow> sys" where
  "drain_loop P w Es 0 s = s"
| "drain_loop P w Es (Suc n) s =
     (case ProcessOne P (Es 0) w s of
        (Inl err, s') \<Rightarrow> s'
      | (Inr _, s') \<Rightarrow> drain_loop P w (\<lambda>i. Es (Suc i)) n s')"

definition drain :: "Pool \<Rightarrow> string \<Rightarrow> (nat \<Rightarrow> tx_env) \<Rightarrow> sys \<Rightarrow> sys" where
  "drain p w Es s = drain_loop (pl_processor p) w Es (nat (BatchSize (pl_cfg p))) s"

section \<open>What the worker respects\<close>

context engine_store
begin

lemma finishSuccess_keeps [tx_intros]: "keeps R (finishSuccess P E job attempt jobID ref w es)"
  unfolding finishSuccess_def Let_def by (intro tx_intros)

lemma completeSuccess_keeps [tx_intros]: "keeps R (completeSuccess P E job attempt investor jobID cur ref w)"
  unfolding completeSuccess_def by (auto intro!: tx_intros split: sum.splits)

lemma handleFailure_keeps [tx_intros]: "keeps R (handleFailure P E job attempt jobID w err c)"
  unfolding handleFailure_def deadLetter_def scheduleRetry_def Let_def
  by (auto intro!: tx_intros split: option.splits)

lemma execute_payout_keeps [tx_intros]: "keeps R (execute_payout P E w job jobID iv investor attempt)"
  unfolding execute_payout_def call_gateway_def by (auto intro!: tx_intros split: option.splits)

lemma process_body_keeps [tx_intros]: "keeps R (process_body P E w)"
  unfolding process_body_def by (intro tx_intros stmts_keep)

lemma ProcessOne_keeps: "R (sys_db s) (sys_db (snd (ProcessOne P E w s)))"
  unfolding ProcessOne_def by (intro WithTx_keeps tx_intros)

lemma drain_loop_keeps: "R (sys_db s) (sys_db (drain_loop P w Es n s))"
proof (induction n arbitrary: s Es)
  case (Suc n)
  from ProcessOne_keeps [of s P "Es 0" w] Suc [of "snd (ProcessOne P (Es 0) w s)"] show ?case
    by (auto split: prod.splits sum.splits intro: R_trans)
qed simp

end

end
