(* ===== verification/Worker_Runs.thy ===== *)
theory Worker_Runs
  imports Worker
begin

text \<open>
  What a run of the worker that commits has done: the exact tables after each step of
  \<^verbatim>\<open>process_body\<close>, on tables that satisfy the schema.
\<close>

section \<open>Single steps\<close>

lemma run_stmt_okD:
  assumes "run_stmt E q st = (Inr x, st')"
  shows "q E (gen_uuid E (tx_stmts st)) (tx_db st) = Rows x (tx_db st')" "tx_proc st' = tx_proc st"
    "\<not> tx_aborted st" "\<not> tx_aborted st'"
  using assms by (auto simp: run_stmt_Inr)

lemma Claim_ok:
  assumes "SettlementJobRepo_Claim E w st = (Inr job, st')"
  obtains j where "claim_candidate E (tx_db st) = Some j" "job = claimed E w j"
    "tx_db st' = replace_job (claimed E w j) (tx_db st)" "tx_proc st' = tx_proc st" "\<not> tx_aborted st'"
  using assms by (auto simp: SettlementJobRepo_Claim_def run_stmt_Inr ClaimSettlementJob_def split: option.splits)

lemma Start_ok:
  assumes "PayoutAttemptRepo_Start E i st = (Inr a, st')"
  obtains u where "a = new_attempt i (next_attempt (tx_db st) i) E u" "u \<notin> pa_ID ` set (payout_attempts (tx_db st))"
    "tx_db st' = (tx_db st)\<lparr>payout_attempts := payout_attempts (tx_db st) @ [a]\<rparr>"
    "tx_proc st' = tx_proc st" "\<not> tx_aborted st'"
proof -
  from assms obtain n st1 where "run_stmt E (GetNextAttemptNumber i) st = (Inr n, st1)"
      and "run_stmt E (CreatePayoutAttempt i n) st1 = (Inr a, st')"
    by (auto simp: PayoutAttemptRepo_Start_def bindE_Inr)
  note n = run_stmt_okD [OF this(1)] and c = run_stmt_okD [OF this(2)]
  from n(1) have d: "n = next_attempt (tx_db st) i" "tx_db st1 = tx_db st"
    by (auto simp: GetNextAttemptNumber_def split: if_splits)
  from c(1) have "a = new_attempt i n E (gen_uuid E (tx_stmts st1))"
      "gen_uuid E (tx_stmts st1) \<notin> pa_ID ` set (payout_attempts (tx_db st1))"
      "tx_db st' = (tx_db st1)\<lparr>payout_attempts := payout_attempts (tx_db st1) @ [a]\<rparr>"
    by (auto simp: CreatePayoutAttempt_def split: if_splits)
  with d n(2) c(2,4) show thesis by (intro that) simp_all
qed

lemma finish_attempt:
  assumes "update_attempt (pa_ID a) f d = Rows x d'" "payout_attempts d = as @ [a]"
    "pa_ID a \<notin> pa_ID ` set as" "pa_Status a = PayoutAttemptStatusStarted"
  shows "d' = d\<lparr>payout_attempts := as @ [f a]\<rparr>"
proof -
  have f: "find (\<lambda>b. pa_ID b = pa_ID a \<and> pa_Status b = PayoutAttemptStatusStarted) (payout_attempts d) = Some a"
    using assms(2-4) by (intro find_uniqueI) (auto simp: image_iff)
  have "map (\<lambda>b. if pa_ID b = pa_ID a then f a else b) as = as"
    using assms(3) by (intro map_if_id) (auto simp: image_iff)
  with assms(1,2) f show "d' = d\<lparr>payout_attempts := as @ [f a]\<rparr>"
    by (auto simp: update_attempt_def split: if_splits)
qed

lemma replace_job_twice:
  "sj_ID j = sj_ID k \<Longrightarrow> replace_job j (replace_job k d) = replace_job j d"
  by (auto simp: replace_job_def)

lemma finish_job:
  assumes "update_job (sj_ID c) s f d = Rows x d'" "settlement_jobs d = settlement_jobs (replace_job c d0)"
    "distinct (map sj_ID (settlement_jobs d0))" "j \<in> set (settlement_jobs d0)" "sj_ID c = sj_ID j"
    "sj_Status c = s" "sj_ID (f c) = sj_ID c"
  shows "x = f c" "d' = d\<lparr>settlement_jobs := settlement_jobs (replace_job (f c) d0)\<rparr>"
    "\<And>k. k \<in> set (settlement_jobs d0) \<Longrightarrow> sj_ID k \<noteq> sj_ID c \<Longrightarrow> \<not> job_clash (f c) k"
proof -
  note set = set_replace_job [OF assms(4,5)]
  have f: "find (\<lambda>k. sj_ID k = sj_ID c \<and> sj_Status k = s) (settlement_jobs d) = Some c"
    unfolding assms(2) using assms(6) by (intro find_uniqueI) (auto simp: set)
  from assms(1) f show "x = f c" by (auto simp: update_job_Rows)
  have "settlement_jobs (replace_job (f c) d) = settlement_jobs (replace_job (f c) d0)"
    using assms(2,7) replace_job_twice [of "f c" c d0] by (simp add: replace_job_def)
  with assms(1) f show "d' = d\<lparr>settlement_jobs := settlement_jobs (replace_job (f c) d0)\<rparr>"
    by (auto simp: update_job_Rows replace_job_def)
  fix k assume "k \<in> set (settlement_jobs d0)" "sj_ID k \<noteq> sj_ID c"
  with assms(1,2) f show "\<not> job_clash (f c) k" by (auto simp: update_job_Rows set)
qed

definition settle_maturity :: "tx_env \<Rightarrow> uuid \<Rightarrow> MaturitySchedule list \<Rightarrow> MaturitySchedule list" where
  "settle_maturity E i ms = map (\<lambda>m. if ms_ID m = i then maturity_settled E m else m) ms"

lemma MarkMaturitySettled_ok:
  assumes "MarkMaturitySettled i E u d = Rows x d'" "distinct (map ms_ID (maturity_schedules d))"
  shows "d' = d\<lparr>maturity_schedules := settle_maturity E i (maturity_schedules d)\<rparr>"
    "\<exists>m \<in> set (maturity_schedules d). ms_ID m = i
       \<and> (ms_Status m = MaturityStatusPending \<or> ms_Status m = MaturityStatusProcessing)"
proof -
  from assms(1) obtain m where m: "m \<in> set (maturity_schedules d)" "ms_ID m = i"
      "ms_Status m = MaturityStatusPending \<or> ms_Status m = MaturityStatusProcessing"
      and d': "d' = d\<lparr>maturity_schedules := map (\<lambda>m'. if ms_ID m' = i then maturity_settled E m else m') (maturity_schedules d)\<rparr>"
    by (auto simp: MarkMaturitySettled_def split: option.splits dest!: find_eq_SomeD)
  have "map (\<lambda>m'. if ms_ID m' = i then maturity_settled E m else m') (maturity_schedules d)
      = settle_maturity E i (maturity_schedules d)"
    unfolding settle_maturity_def using assms(2) m(1,2)
    by (intro map_cong) (auto dest: distinct_map_same_key)
  with d' show "d' = d\<lparr>maturity_schedules := settle_maturity E i (maturity_schedules d)\<rparr>" by simp
  from m show "\<exists>m \<in> set (maturity_schedules d). ms_ID m = i
       \<and> (ms_Status m = MaturityStatusPending \<or> ms_Status m = MaturityStatusProcessing)" by blast
qed

lemma auditedE:
  assumes "audited st P st'"
  obtains v where "tx_db st' = (tx_db st)\<lparr>audit_events := audit_events (tx_db st) @ [v]\<rparr>" "P v"
    "tx_proc st' = tx_proc st" "\<not> tx_aborted st'"
  using assms by (auto simp: audited_def)

section \<open>The job in flight\<close>

text \<open>
  The tables between claiming and finishing job \<open>j\<close> of the tables \<open>d\<close>: the job is leased, the attempt
  \<open>a\<close> is started, the claim is in the audit trail.
\<close>

definition in_flight :: "tx_env \<Rightarrow> string \<Rightarrow> db \<Rightarrow> SettlementJob \<Rightarrow> PayoutAttempt \<Rightarrow> AuditEvent list \<Rightarrow> db" where
  "in_flight E w d j a vs = (replace_job (claimed E w j) d)\<lparr>payout_attempts := payout_attempts d @ [a],
     audit_events := audit_events d @ vs\<rparr>"

definition flight_ok :: "tx_env \<Rightarrow> db \<Rightarrow> SettlementJob \<Rightarrow> Investment \<Rightarrow> PayoutAttempt \<Rightarrow> bool" where
  "flight_ok E d j v a \<longleftrightarrow> schema_ok d \<and> claim_candidate E d = Some j
     \<and> v \<in> set (investments d) \<and> inv_ID v = sj_InvestmentID j \<and> pa_ID a \<notin> pa_ID ` set (payout_attempts d)
     \<and> (\<exists>u. a = new_attempt (sj_ID j) (next_attempt d (sj_ID j)) E u)"

lemma claimed_simps [simp]:
  "sj_ID (claimed E w j) = sj_ID j" "sj_Status (claimed E w j) = SettlementJobStatusProcessing"
  "sj_InvestmentID (claimed E w j) = sj_InvestmentID j" "sj_MaturityScheduleID (claimed E w j) = sj_MaturityScheduleID j"
  "sj_NetPayoutCents (claimed E w j) = sj_NetPayoutCents j" "sj_RetryCount (claimed E w j) = sj_RetryCount j"
  "sj_MaxRetries (claimed E w j) = sj_MaxRetries j" "job_breakdown (claimed E w j) c = job_breakdown j c"
  by (simp_all add: claimed_def job_breakdown_def)

definition execute_input :: "SettlementJob \<Rightarrow> Investment \<Rightarrow> PayoutAttempt \<Rightarrow> ExecuteInput" where
  "execute_input j v a = \<lparr>ei_JobID = sj_ID j, ei_AttemptNumber = pa_AttemptNumber a,
     ei_SimulationProfile = inv_SimulationProfile v, ei_NetPayoutCents = sj_NetPayoutCents j\<rparr>"

definition call_recorded :: "ExecuteInput \<Rightarrow> proc \<Rightarrow> proc" where
  "call_recorded i p = p\<lparr>proc_payouts := proc_payouts p @ [i]\<rparr>"

lemma claim_phase:
  assumes "process_body P E w st = (Inr (), st')" "schema_ok (tx_db st)"
  obtains j v a ev st1 where "flight_ok E (tx_db st) j v a"
    "ae_Action ev = ActionSettlementJobClaimed" "ae_EntityID ev = sj_ID j"
    "tx_db st1 = in_flight E w (tx_db st) j a [ev]" "tx_proc st1 = inc_claimed (tx_proc st)" "\<not> tx_aborted st1"
    "execute_payout P E w (claimed E w j) (sj_ID j) v (inv_InvestorID v) a st1 = (Inr (), st')"
proof -
  from assms(1) obtain job v a e sta stb stc std where cl: "SettlementJobRepo_Claim E w st = (Inr job, sta)"
      and iv: "run_stmt E (GetInvestmentByID (sj_InvestmentID job)) (sta\<lparr>tx_proc := inc_claimed (tx_proc sta)\<rparr>) = (Inr v, stb)"
      and at: "PayoutAttemptRepo_Start E (sj_ID job) stb = (Inr a, stc)"
      and au: "PublishJobTransition E (sj_ID job) ActionSettlementJobClaimed w
                 [(''attempt_number'', JInt (pa_AttemptNumber a))] stc = (Inr e, std)"
      and ex: "execute_payout P E w job (sj_ID job) v (inv_InvestorID v) a std = (Inr (), st')"
    by (auto simp: process_body_def bindE_Inr)
  obtain j where j: "claim_candidate E (tx_db st) = Some j" "job = claimed E w j"
      "tx_db sta = replace_job (claimed E w j) (tx_db st)" "tx_proc sta = tx_proc st"
    using Claim_ok [OF cl] by metis
  note iv = run_stmt_okD [OF iv]
  from iv(1) j have stb: "tx_db stb = replace_job (claimed E w j) (tx_db st)"
      and v: "v \<in> set (investments (tx_db st))" "inv_ID v = sj_InvestmentID j"
    by (auto simp: GetInvestmentByID_def split: option.splits dest!: find_eq_SomeD)
  obtain u where a: "a = new_attempt (sj_ID j) (next_attempt (tx_db stb) (sj_ID j)) E u"
      "u \<notin> pa_ID ` set (payout_attempts (tx_db stb))"
      "tx_db stc = (tx_db stb)\<lparr>payout_attempts := payout_attempts (tx_db stb) @ [a]\<rparr>"
      "tx_proc stc = tx_proc stb"
    using Start_ok [OF at] j(2) by (metis claimed_simps(1))
  obtain ev where e: "tx_db std = (tx_db stc)\<lparr>audit_events := audit_events (tx_db stc) @ [ev]\<rparr>"
      "ae_Action ev = ActionSettlementJobClaimed" "ae_EntityID ev = sj_ID j" "tx_proc std = tx_proc stc" "\<not> tx_aborted std"
    using auditedE [OF PublishJobTransition_ok [OF au]] j(2) by (metis claimed_simps(1))
  have "flight_ok E (tx_db st) j v a"
    using assms(2) j v a stb unfolding flight_ok_def
    by (auto simp: next_attempt_def new_attempt_def)
  then show thesis
    using e a(3,4) stb iv(2) j ex by (intro that [of j v a ev std]) (auto simp: in_flight_def)
qed

section \<open>The end of a run\<close>

text \<open>A run that paid: the job is succeeded, the maturity settled, the ledger has its posting.\<close>

definition paid :: "Processor \<Rightarrow> tx_env \<Rightarrow> string \<Rightarrow> db \<Rightarrow> SettlementJob \<Rightarrow> Investment \<Rightarrow> PayoutAttempt \<Rightarrow> db \<Rightarrow> bool" where
  "paid P E w d j v a d' \<longleftrightarrow>
     (let ref = pr_PayoutReference (wp_gateway P (execute_input j v a));
          j' = job_succeeded E ref (claimed E w j)
      in \<exists>as es vs. d' = (replace_job j' d)\<lparr>
             maturity_schedules := settle_maturity E (sj_MaturityScheduleID j) (maturity_schedules d),
             payout_attempts := payout_attempts d @ [attempt_succeeded E ref a],
             ledger_accounts := as, ledger_entries := ledger_entries d @ es, audit_events := audit_events d @ vs\<rparr>
           \<and> ActionSettlementJobSucceeded \<in> ae_Action ` set vs \<and> ActionLedgerPosted \<in> ae_Action ` set vs
           \<and> Breakdown_Validate (job_breakdown j (inv_Currency v)) = Inr ()
           \<and> (\<exists>m \<in> set (maturity_schedules d). ms_ID m = sj_MaturityScheduleID j
                \<and> (ms_Status m = MaturityStatusPending \<or> ms_Status m = MaturityStatusProcessing))
           \<and> accounts_grow d d' \<and> ledger_ok d'
           \<and> (if entries_of d (sj_ID j) = []
              then settlement_entries (wp_lib P) d' (sj_ID j) (inv_InvestorID v) (job_breakdown j (inv_Currency v)) es
                \<and> validateBalanced (buildPostingLines (wp_lib P) (inv_InvestorID v) (job_breakdown j (inv_Currency v))) = Inr ()
              else es = []))"

text \<open>A run whose payout failed: the job waits for its next attempt or is dead, nothing else happened.\<close>

definition errored :: "Processor \<Rightarrow> tx_env \<Rightarrow> string \<Rightarrow> db \<Rightarrow> SettlementJob \<Rightarrow> Investment \<Rightarrow> PayoutAttempt \<Rightarrow> db \<Rightarrow> bool" where
  "errored P E w d j v a d' \<longleftrightarrow>
     (let res = wp_gateway P (execute_input j v a);
          cls = (if pr_ErrorClass res = ErrorClassRaw [] then ErrorClassTransient else pr_ErrorClass res);
          msg = error_text (the (pr_Err res));
          c = claimed E w j
      in \<exists>j' vs. d' = (replace_job j' d)\<lparr>payout_attempts := payout_attempts d @ [attempt_failed E msg cls a],
             audit_events := audit_events d @ vs\<rparr>
           \<and> error_class_valid cls
           \<and> (if cls = ErrorClassTerminal \<or> wrap32 (sj_RetryCount j + 1) \<ge> sj_MaxRetries j
              then j' = job_dead E (if cls \<noteq> ErrorClassTerminal then ''max retries exceeded'' else ''terminal payout failure'')
                          msg cls c
                \<and> ActionSettlementJobDeadLetter \<in> ae_Action ` set vs
              else ActionSettlementJobFailed \<in> ae_Action ` set vs \<and> in_int32 (sj_RetryCount j + 1)
                \<and> (\<exists>t. NextRetryAt (wp_retry P) (jitter E) (sj_RetryCount j) (go_now E) = Some t
                     \<and> j' = job_failed E (timestamptz t) msg c)))"

lemma job_update_simps [simp]:
  "sj_ID (job_succeeded E ref j) = sj_ID j" "sj_ID (job_failed E t msg j) = sj_ID j"
  "sj_ID (job_dead E reason msg c j) = sj_ID j"
  "sj_Status (job_succeeded E ref j) = SettlementJobStatusSucceeded"
  "sj_Status (job_failed E t msg j) = SettlementJobStatusFailed"
  "sj_Status (job_dead E reason msg c j) = SettlementJobStatusDeadLetter"
  by (simp_all add: job_succeeded_def job_failed_def job_dead_def)

lemma flight_okD:
  assumes "flight_ok E d j v a"
  shows "jobs_ok d" "distinct (map sj_ID (settlement_jobs d))" "distinct (map ms_ID (maturity_schedules d))" "ledger_ok d"
    "j \<in> set (settlement_jobs d)" "pa_ID a \<notin> pa_ID ` set (payout_attempts d)" "pa_Status a = PayoutAttemptStatusStarted"
  using assms claim_candidate_SomeD(1) [of E d j]
  by (auto simp: flight_ok_def schema_ok_def jobs_ok_def maturities_ok_def new_attempt_def)

lemma finish_success_phase:
  assumes run: "finishSuccess P E (claimed E w j) a (sj_ID j) ref w es st = (Inr (), st')"
    and f: "flight_ok E d j v a"
    and jobs: "settlement_jobs (tx_db st) = settlement_jobs (replace_job (claimed E w j) d)"
    and att: "payout_attempts (tx_db st) = payout_attempts d @ [a]"
    and mat: "maturity_schedules (tx_db st) = maturity_schedules d"
  shows "\<exists>vs. tx_db st' = (tx_db st)\<lparr>settlement_jobs := settlement_jobs (replace_job (job_succeeded E ref (claimed E w j)) d),
      payout_attempts := payout_attempts d @ [attempt_succeeded E ref a],
      maturity_schedules := settle_maturity E (sj_MaturityScheduleID j) (maturity_schedules d),
      audit_events := audit_events (tx_db st) @ vs\<rparr>
    \<and> ActionSettlementJobSucceeded \<in> ae_Action ` set vs \<and> ActionLedgerPosted \<in> ae_Action ` set vs"
    "\<exists>m \<in> set (maturity_schedules d). ms_ID m = sj_MaturityScheduleID j
       \<and> (ms_Status m = MaturityStatusPending \<or> ms_Status m = MaturityStatusProcessing)"
    "tx_proc st' = inc_succeeded (tx_proc st)"
proof -
  note fd = flight_okD [OF f]
  from run obtain x1 x2 x3 x4 x5 s1 s2 s3 s4 s5 where
      r1: "run_stmt E (FinishPayoutAttemptSuccess (pa_ID a) ref) st = (Inr x1, s1)"
    and r2: "run_stmt E (MarkJobSucceeded (sj_ID j) ref) s1 = (Inr x2, s2)"
    and r3: "run_stmt E (MarkMaturitySettled (sj_MaturityScheduleID j)) s2 = (Inr x3, s3)"
    and r4: "PublishLedgerPosted (wp_lib P) E (sj_ID j) (EntryGroupIDFromJob (wp_lib P) (sj_ID j)) w (int (length es)) s3 = (Inr x4, s4)"
    and r5: "PublishJobTransition E (sj_ID j) ActionSettlementJobSucceeded w [(''payout_reference'', JStr ref)] s4 = (Inr x5, s5)"
    and st': "st' = s5\<lparr>tx_proc := inc_succeeded (tx_proc s5)\<rparr>"
    by (auto simp: finishSuccess_def bindE_Inr Let_def PayoutAttemptRepo_MarkSucceeded_def
        SettlementJobRepo_MarkSucceeded_def MaturityRepo_MarkSettled_def)
  note o1 = run_stmt_okD [OF r1] and o2 = run_stmt_okD [OF r2] and o3 = run_stmt_okD [OF r3]
  have d1: "tx_db s1 = (tx_db st)\<lparr>payout_attempts := payout_attempts d @ [attempt_succeeded E ref a]\<rparr>"
    by (rule finish_attempt [OF o1(1) [unfolded FinishPayoutAttemptSuccess_def] att fd(6,7)])
  have "settlement_jobs (tx_db s1) = settlement_jobs (replace_job (claimed E w j) d)" using jobs d1 by simp
  with o2(1) have d2: "tx_db s2 = (tx_db s1)\<lparr>settlement_jobs := settlement_jobs (replace_job (job_succeeded E ref (claimed E w j)) d)\<rparr>"
    unfolding MarkJobSucceeded_def by (intro finish_job(2) [where j = j]) (use fd in auto)
  have m2: "maturity_schedules (tx_db s2) = maturity_schedules d" using mat d1 d2 by simp
  note d3 = MarkMaturitySettled_ok [OF o3(1), unfolded m2, OF fd(3)]
  from d3(2) show "\<exists>m \<in> set (maturity_schedules d). ms_ID m = sj_MaturityScheduleID j
       \<and> (ms_Status m = MaturityStatusPending \<or> ms_Status m = MaturityStatusProcessing)" .
  obtain v4 where d4: "tx_db s4 = (tx_db s3)\<lparr>audit_events := audit_events (tx_db s3) @ [v4]\<rparr>" "ae_Action v4 = ActionLedgerPosted"
      "tx_proc s4 = tx_proc s3"
    using auditedE [OF PublishLedgerPosted_ok [OF r4]] by metis
  obtain v5 where d5: "tx_db s5 = (tx_db s4)\<lparr>audit_events := audit_events (tx_db s4) @ [v5]\<rparr>"
      "ae_Action v5 = ActionSettlementJobSucceeded" "tx_proc s5 = tx_proc s4"
    using auditedE [OF PublishJobTransition_ok [OF r5]] by metis
  show "\<exists>vs. tx_db st' = (tx_db st)\<lparr>settlement_jobs := settlement_jobs (replace_job (job_succeeded E ref (claimed E w j)) d),
      payout_attempts := payout_attempts d @ [attempt_succeeded E ref a],
      maturity_schedules := settle_maturity E (sj_MaturityScheduleID j) (maturity_schedules d),
      audit_events := audit_events (tx_db st) @ vs\<rparr>
    \<and> ActionSettlementJobSucceeded \<in> ae_Action ` set vs \<and> ActionLedgerPosted \<in> ae_Action ` set vs"
    by (rule exI [of _ "[v4, v5]"]) (use d1 d2 d3(1) d4 d5 st' in simp)
  show "tx_proc st' = inc_succeeded (tx_proc st)"
    using st' d5(3) d4(3) o3(2) o2(2) o1(2) by simp
qed

text \<open>
  The posting looks for existing entries itself, so the repository's own check, in the same
  transaction, never finds any: the branch of \<^verbatim>\<open>completeSuccess\<close> that tolerates
  \<^verbatim>\<open>ErrLedgerAlreadyPosted\<close> is not taken.
\<close>

lemma post_line_raises: "raises (\<lambda>e. \<not> errors_Is e ErrLedgerAlreadyPosted) (post_line E job g line)"
  unfolding post_line_def
  by (intro raises_intros raises_stmt) (auto simp: driver_error_def)

lemma PostEntries_already:
  assumes "LedgerRepo_PostEntries L E job g lines st = (Inl e, st')" "errors_Is e ErrLedgerAlreadyPosted"
  shows "entries_of (tx_db st) job \<noteq> []"
proof -
  obtain r st1 where q: "run_stmt E (GetLedgerEntryGroupIDByJobID job) st = (r, st1)" by fastforce
  show ?thesis
  proof (cases r)
    case (Inr x)
    with q have "GetLedgerEntryGroupIDByJobID job E (gen_uuid E (tx_stmts st)) (tx_db st) \<noteq> NoRows"
      by (auto simp: run_stmt_Inr)
    then show ?thesis by (simp add: GetLedgerEntryGroupIDByJobID_NoRows)
  next
    case (Inl e')
    moreover from q Inl have "driver_error e'"
      by (auto simp: run_stmt_def driver_error_def split: if_splits sql_result.splits)
    moreover have "raises (\<lambda>e. \<not> errors_Is e ErrLedgerAlreadyPosted) (mapE (post_line E job g) lines)"
      by (intro raises_intros post_line_raises)
    ultimately show ?thesis
      using assms q by (auto simp: LedgerRepo_PostEntries_def tryE_def driver_error_def raises_def split: if_splits)
  qed
qed

lemma GetEntryGroupID_NotFound:
  assumes "LedgerRepo_GetEntryGroupID E job st = (Inl e, st1)" "IsNotFound e"
  shows "entries_of (tx_db st) job = []" "tx_db st1 = tx_db st"
  using assms
  by (auto simp: LedgerRepo_GetEntryGroupID_def noRowsAs_Inl IsNotFound_def run_stmt_def
      GetLedgerEntryGroupIDByJobID_NoRows split: if_splits sql_result.splits)

lemma sum_sides_error: "sum_sides a b ls = Inl e \<Longrightarrow> \<not> errors_Is e ErrLedgerAlreadyPosted"
  by (induction ls arbitrary: a b) (auto split: if_splits)

lemma PostSettlement_not_already:
  assumes run: "PostSettlement L E input st = (Inl err, st')"
  shows "\<not> errors_Is err ErrLedgerAlreadyPosted"
proof
  assume already: "errors_Is err ErrLedgerAlreadyPosted"
  let ?job = "ps_JobID input" and ?lines = "buildPostingLines L (ps_InvestorID input) (ps_Breakdown input)"
  have bal: "validateBalanced ls = Inl e \<Longrightarrow> \<not> errors_Is e ErrLedgerAlreadyPosted" for ls e
    by (auto simp: validateBalanced_def split: sum.splits if_splits dest: sum_sides_error)
  obtain r st1 where q: "LedgerRepo_GetEntryGroupID E ?job st = (r, st1)" by fastforce
  have "Breakdown_Validate (ps_Breakdown input) = Inl e \<Longrightarrow> \<not> errors_Is e ErrLedgerAlreadyPosted" for e
    by (auto simp: Breakdown_Validate_def Let_def split: if_splits)
  with run already have v: "Breakdown_Validate (ps_Breakdown input) = Inr ()" "?job \<noteq> uuid_Nil" "ps_InvestorID input \<noteq> uuid_Nil"
    by (auto simp: PostSettlement_def split: sum.splits if_splits)
  show False
  proof (cases r)
    case (Inr g)
    with run v already q show False
      by (auto simp: PostSettlement_def tryE_def LedgerRepo_ListByJobID_def wrapE_Inl run_stmt_def
          ListLedgerEntriesByJobID_def split: if_splits)
  next
    case (Inl e)
    have "\<not> errors_Is e ErrLedgerAlreadyPosted"
      using q Inl by (auto simp: LedgerRepo_GetEntryGroupID_def noRowsAs_Inl run_stmt_def split: if_splits sql_result.splits)
    with run v already q Inl obtain e' where nf: "IsNotFound e"
        and p: "LedgerRepo_PostEntries L E ?job (EntryGroupIDFromJob L ?job) ?lines st1 = (Inl e', st')"
          "errors_Is e' ErrLedgerAlreadyPosted"
      by (auto simp: PostSettlement_def tryE_def Let_def wrapE_Inl split: if_splits sum.splits dest: bal)
    from GetEntryGroupID_NotFound [of E ?job st e st1] q Inl nf PostEntries_already [OF p] show False by simp
  qed
qed

lemma in_flight_simps [simp]:
  "settlement_jobs (in_flight E w d j a vs) = settlement_jobs (replace_job (claimed E w j) d)"
  "payout_attempts (in_flight E w d j a vs) = payout_attempts d @ [a]"
  "maturity_schedules (in_flight E w d j a vs) = maturity_schedules d"
  "ledger_entries (in_flight E w d j a vs) = ledger_entries d"
  "ledger_accounts (in_flight E w d j a vs) = ledger_accounts d"
  "audit_events (in_flight E w d j a vs) = audit_events d @ vs"
  "entries_of (in_flight E w d j a vs) i = entries_of d i"
  by (simp_all add: in_flight_def entries_of_def)

lemma in_flight_ledger_ok: "ledger_ok d \<Longrightarrow> ledger_ok (in_flight E w d j a vs)"
  unfolding ledger_ok_def in_flight_simps replace_job_ids by blast

lemma posting_outcomeE:
  assumes "posting_outcome L input st es st'" "ledger_ok (tx_db st)"
  obtains as es' where "tx_db st' = (tx_db st)\<lparr>ledger_accounts := as, ledger_entries := ledger_entries (tx_db st) @ es'\<rparr>"
    "accounts_grow (tx_db st) (tx_db st')" "ledger_ok (tx_db st')"
    "if entries_of (tx_db st) (ps_JobID input) = []
     then settlement_entries L (tx_db st') (ps_JobID input) (ps_InvestorID input) (ps_Breakdown input) es'
       \<and> validateBalanced (buildPostingLines L (ps_InvestorID input) (ps_Breakdown input)) = Inr ()
     else es' = []"
    "tx_proc st' = tx_proc st" "\<not> tx_aborted st'"
proof (cases "entries_of (tx_db st) (ps_JobID input) = []")
  case True
  with assms(1) obtain as where "tx_db st' = (tx_db st)\<lparr>ledger_accounts := as, ledger_entries := ledger_entries (tx_db st) @ es\<rparr>"
    by (auto simp: posting_outcome_def ledger_step_def)
  with True assms show ?thesis by (intro that [where as = as and es' = es]) (simp_all add: posting_outcome_def ledger_step_def)
next
  case False
  with assms show ?thesis
    by (intro that [where as = "ledger_accounts (tx_db st)" and es' = "[]"]) (simp_all add: posting_outcome_def)
qed

lemma posted_cong: "ledger_accounts d = ledger_accounts d' \<Longrightarrow> posted d = posted d'"
  by (intro ext) (simp add: posted_def)

lemma complete_phase:
  assumes run: "completeSuccess P E (claimed E w j) a (inv_InvestorID v) (sj_ID j) (inv_Currency v) ref w st = (Inr (), st')"
    and f: "flight_ok E d j v a" and st: "tx_db st = in_flight E w d j a vs0"
    and ref: "ref = pr_PayoutReference (wp_gateway P (execute_input j v a))"
  shows "paid P E w d j v a (tx_db st')" "tx_proc st' = inc_succeeded (tx_proc st)"
proof -
  let ?in = "\<lparr>ps_JobID = sj_ID j, ps_InvestorID = inv_InvestorID v, ps_Breakdown = job_breakdown j (inv_Currency v)\<rparr>"
  from run obtain es st1 where post: "PostSettlement (wp_lib P) E ?in st = (Inr es, st1)"
      and fin: "finishSuccess P E (claimed E w j) a (sj_ID j) ref w es st1 = (Inr (), st')"
    by (auto simp: completeSuccess_def tryE_def split: sum.splits prod.splits if_splits
        dest: PostSettlement_not_already)
  have "ledger_ok (tx_db st)" using flight_okD(4) [OF f] st by (simp add: in_flight_ledger_ok)
  note p = PostSettlement_ok [OF post this]
  obtain as es' where d0: "tx_db st1 = (tx_db st)\<lparr>ledger_accounts := as, ledger_entries := ledger_entries (tx_db st) @ es'\<rparr>"
      and grow: "accounts_grow (tx_db st) (tx_db st1)" and lok: "ledger_ok (tx_db st1)"
      and led0: "if entries_of (tx_db st) (ps_JobID ?in) = []
        then settlement_entries (wp_lib P) (tx_db st1) (ps_JobID ?in) (ps_InvestorID ?in) (ps_Breakdown ?in) es'
          \<and> validateBalanced (buildPostingLines (wp_lib P) (ps_InvestorID ?in) (ps_Breakdown ?in)) = Inr ()
        else es' = []"
      and pr: "tx_proc st1 = tx_proc st"
    by (rule posting_outcomeE [OF p(4) \<open>ledger_ok (tx_db st)\<close>])
  have d1: "tx_db st1 = (tx_db st)\<lparr>ledger_accounts := as, ledger_entries := ledger_entries d @ es'\<rparr>"
    using d0 st by simp
  have led: "if entries_of d (sj_ID j) = []
      then settlement_entries (wp_lib P) (tx_db st1) (sj_ID j) (inv_InvestorID v) (job_breakdown j (inv_Currency v)) es'
        \<and> validateBalanced (buildPostingLines (wp_lib P) (inv_InvestorID v) (job_breakdown j (inv_Currency v))) = Inr ()
      else es' = []"
    using led0 unfolding st by (simp split: if_splits)
  have s1: "settlement_jobs (tx_db st1) = settlement_jobs (replace_job (claimed E w j) d)"
      "payout_attempts (tx_db st1) = payout_attempts d @ [a]" "maturity_schedules (tx_db st1) = maturity_schedules d"
    using d1 st by simp_all
  note fin = finish_success_phase [OF fin f s1]
  then obtain vs where d': "tx_db st' = (tx_db st1)\<lparr>settlement_jobs := settlement_jobs (replace_job (job_succeeded E ref (claimed E w j)) d),
      payout_attempts := payout_attempts d @ [attempt_succeeded E ref a],
      maturity_schedules := settle_maturity E (sj_MaturityScheduleID j) (maturity_schedules d),
      audit_events := audit_events (tx_db st1) @ vs\<rparr>"
      and vs: "ActionSettlementJobSucceeded \<in> ae_Action ` set vs" "ActionLedgerPosted \<in> ae_Action ` set vs"
    by blast
  have "tx_db st' = (replace_job (job_succeeded E ref (claimed E w j)) d)\<lparr>
      maturity_schedules := settle_maturity E (sj_MaturityScheduleID j) (maturity_schedules d),
      payout_attempts := payout_attempts d @ [attempt_succeeded E ref a],
      ledger_accounts := as, ledger_entries := ledger_entries d @ es', audit_events := audit_events d @ (vs0 @ vs)\<rparr>"
    using d' d1 st by (simp add: in_flight_def replace_job_def)
  moreover have "accounts_grow d (tx_db st')" using grow d' st by (simp add: accounts_grow_def)
  moreover have "ledger_ok (tx_db st')"
  proof -
    have ids: "map sj_ID (settlement_jobs (tx_db st')) = map sj_ID (settlement_jobs (tx_db st1))"
      using d' s1(1) by simp
    have "ledger_entries (tx_db st') = ledger_entries (tx_db st1)" "ledger_accounts (tx_db st') = ledger_accounts (tx_db st1)"
      using d' by simp_all
    with lok show ?thesis unfolding ledger_ok_def ids by simp
  qed
  moreover have "settlement_entries L (tx_db st') i iv b es' = settlement_entries L (tx_db st1) i iv b es'" for L i iv b
    unfolding settlement_entries_def using posted_cong [of "tx_db st'" "tx_db st1"] d' by simp
  ultimately show "paid P E w d j v a (tx_db st')"
    using vs led p(1) fin(2) unfolding paid_def Let_def ref [symmetric]
    by (intro exI [of _ as] exI [of _ es'] exI [of _ "vs0 @ vs"])
       (simp add: image_Un split: if_splits)
  from fin(3) pr show "tx_proc st' = inc_succeeded (tx_proc st)" by simp
qed

lemma failure_close:
  assumes f: "flight_ok E d j v a" and st1: "tx_db st1 = (in_flight E w d j a vs0)\<lparr>payout_attempts := payout_attempts d @ [a']\<rparr>"
    and mark: "update_job (sj_ID j) SettlementJobStatusProcessing F (tx_db st1) = Rows y (tx_db st2)"
    and id: "sj_ID (F (claimed E w j)) = sj_ID j"
    and pub: "PublishJobTransition E (sj_ID j) act w e st2 = (Inr g, st3)"
  obtains ev where "ae_Action ev = act" "tx_proc st3 = tx_proc st2"
    "tx_db st3 = (replace_job (F (claimed E w j)) d)\<lparr>payout_attempts := payout_attempts d @ [a'],
       audit_events := audit_events d @ (vs0 @ [ev])\<rparr>"
proof -
  note fd = flight_okD [OF f]
  have mark': "update_job (sj_ID (claimed E w j)) SettlementJobStatusProcessing F (tx_db st1) = Rows y (tx_db st2)"
    using mark by simp
  have d2: "tx_db st2 = (tx_db st1)\<lparr>settlement_jobs := settlement_jobs (replace_job (F (claimed E w j)) d)\<rparr>"
    by (rule finish_job(2) [OF mark' _ fd(2,5)]) (use id st1 in simp_all)
  obtain ev where ev: "tx_db st3 = (tx_db st2)\<lparr>audit_events := audit_events (tx_db st2) @ [ev]\<rparr>" "ae_Action ev = act"
      "tx_proc st3 = tx_proc st2"
    using auditedE [OF PublishJobTransition_ok [OF pub]] by metis
  show thesis
    by (rule that [OF ev(2,3)]) (use ev(1) d2 st1 in \<open>simp add: in_flight_def replace_job_def\<close>)
qed

lemma failure_phase:
  assumes run: "handleFailure P E (claimed E w j) a (sj_ID j) w err (pr_ErrorClass res) st = (Inr (), st')"
    and f: "flight_ok E d j v a" and st: "tx_db st = in_flight E w d j a vs0"
    and res: "res = wp_gateway P (execute_input j v a)" and err: "pr_Err res = Some err"
  shows "errored P E w d j v a (tx_db st')
    \<and> (tx_proc st' = inc_dead (tx_proc st) \<or> tx_proc st' = inc_retried (tx_proc st))"
proof -
  define cls where "cls = (if pr_ErrorClass res = ErrorClassRaw [] then ErrorClassTransient else pr_ErrorClass res)"
  define reason where "reason = (if cls \<noteq> ErrorClassTerminal then ''max retries exceeded'' else ''terminal payout failure'')"
  let ?c = "claimed E w j" and ?msg = "error_text err"
  let ?dead = "cls = ErrorClassTerminal \<or> wrap32 (sj_RetryCount j + 1) \<ge> sj_MaxRetries j"
  note fd = flight_okD [OF f]
  from run obtain x st1 where at: "run_stmt E (FinishPayoutAttemptFailure (pa_ID a) ?msg cls) st = (Inr x, st1)"
      and rest: "(if ?dead then deadLetter P E ?c (sj_ID j) w err cls
                  else scheduleRetry P E ?c a (sj_ID j) w err) st1 = (Inr (), st')"
    by (auto simp: handleFailure_def Let_def bindE_Inr PayoutAttemptRepo_MarkFailed_def cls_def [symmetric])
  note o = run_stmt_okD [OF at]
  from o(1) have cls: "error_class_valid cls"
      and up: "update_attempt (pa_ID a) (attempt_failed E ?msg cls) (tx_db st) = Rows x (tx_db st1)"
    by (auto simp: FinishPayoutAttemptFailure_def split: if_splits)
  have "tx_db st1 = (tx_db st)\<lparr>payout_attempts := payout_attempts d @ [attempt_failed E ?msg cls a]\<rparr>"
    by (rule finish_attempt [OF up _ fd(6,7)]) (simp add: st)
  then have st1: "tx_db st1 = (in_flight E w d j a vs0)\<lparr>payout_attempts := payout_attempts d @ [attempt_failed E ?msg cls a]\<rparr>"
    using st by simp
  note close = failure_close [OF f st1]
  show ?thesis
  proof (cases ?dead)
    case True
    with rest obtain y e g s2 s3 where m: "run_stmt E (MarkJobDeadLetter (sj_ID j) reason ?msg cls) st1 = (Inr y, s2)"
        and pub: "PublishJobTransition E (sj_ID j) ActionSettlementJobDeadLetter w e s2 = (Inr g, s3)"
        and st': "st' = s3\<lparr>tx_proc := inc_dead (tx_proc s3)\<rparr>"
      by (auto simp: deadLetter_def Let_def bindE_Inr SettlementJobRepo_MarkDeadLetter_def reason_def [symmetric])
    note m = run_stmt_okD [OF m]
    from m(1) cls have "update_job (sj_ID j) SettlementJobStatusProcessing (job_dead E reason ?msg cls) (tx_db st1) = Rows y (tx_db s2)"
      by (simp add: MarkJobDeadLetter_def)
    then obtain ev where "ae_Action ev = ActionSettlementJobDeadLetter" "tx_proc s3 = tx_proc s2"
        "tx_db s3 = (replace_job (job_dead E reason ?msg cls ?c) d)\<lparr>payout_attempts := payout_attempts d @ [attempt_failed E ?msg cls a],
           audit_events := audit_events d @ (vs0 @ [ev])\<rparr>"
      by (rule close [OF _ _ pub]) auto
    with True st' cls err m(2) o(2) show ?thesis
      unfolding errored_def Let_def res [symmetric] cls_def [symmetric] reason_def [symmetric]
      by (intro conjI exI [of _ "job_dead E reason ?msg cls ?c"] exI [of _ "vs0 @ [ev]"]) (simp_all add: reason_def)
  next
    case False
    with rest obtain t y e g s2 s3 where t: "NextRetryAt (wp_retry P) (jitter E) (sj_RetryCount j) (go_now E) = Some t"
        and m: "run_stmt E (MarkJobFailedRetryable (sj_ID j) t ?msg) st1 = (Inr y, s2)"
        and pub: "PublishJobTransition E (sj_ID j) ActionSettlementJobFailed w e s2 = (Inr g, s3)"
        and st': "st' = s3\<lparr>tx_proc := inc_retried (tx_proc s3)\<rparr>"
      by (auto simp: scheduleRetry_def bindE_Inr SettlementJobRepo_MarkFailedRetryable_def split: option.splits)
    note m = run_stmt_okD [OF m]
    let ?j' = "job_failed E (timestamptz t) ?msg ?c"
    from m(1) have "update_job (sj_ID j) SettlementJobStatusProcessing (job_failed E (timestamptz t) ?msg) (tx_db st1) = Rows y (tx_db s2)"
      by (simp add: MarkJobFailedRetryable_def)
    note up = this
    have "y = ?j'"
      by (rule finish_job(1) [OF up [folded claimed_simps(1) [of E w j]], of d j])
        (use fd st1 in \<open>simp_all add: in_flight_def job_failed_def\<close>)
    moreover from up have "in_int32 (sj_RetryCount y)" unfolding update_job_Rows by blast
    ultimately have i32: "in_int32 (sj_RetryCount j + 1)" by (simp add: job_failed_def)
    from up obtain ev where "ae_Action ev = ActionSettlementJobFailed" "tx_proc s3 = tx_proc s2"
        "tx_db s3 = (replace_job ?j' d)\<lparr>payout_attempts := payout_attempts d @ [attempt_failed E ?msg cls a],
           audit_events := audit_events d @ (vs0 @ [ev])\<rparr>"
      by (rule close [OF _ _ pub]) auto
    with False st' cls err m(2) o(2) t i32 show ?thesis
      unfolding errored_def Let_def res [symmetric] cls_def [symmetric]
      by (intro conjI exI [of _ ?j'] exI [of _ "vs0 @ [ev]"]) simp_all
  qed
qed

section \<open>Runs that commit\<close>

lemma process_body_ok:
  assumes "process_body P E w st = (Inr (), st')" "schema_ok (tx_db st)"
  obtains j v a where "flight_ok E (tx_db st) j v a"
    "(if pr_Err (wp_gateway P (execute_input j v a)) = None then paid P E w (tx_db st) j v a (tx_db st')
      else errored P E w (tx_db st) j v a (tx_db st'))"
    "proc_payouts (tx_proc st') = proc_payouts (tx_proc st) @ [execute_input j v a]"
proof -
  obtain j v a ev st1 where f: "flight_ok E (tx_db st) j v a"
      and st1: "tx_db st1 = in_flight E w (tx_db st) j a [ev]" "tx_proc st1 = inc_claimed (tx_proc st)"
      and ex: "execute_payout P E w (claimed E w j) (sj_ID j) v (inv_InvestorID v) a st1 = (Inr (), st')"
    using claim_phase [OF assms] by metis
  let ?res = "wp_gateway P (execute_input j v a)"
  let ?st2 = "st1\<lparr>tx_proc := call_recorded (execute_input j v a) (tx_proc st1)\<rparr>"
  have run: "(case pr_Err ?res of
      None \<Rightarrow> completeSuccess P E (claimed E w j) a (inv_InvestorID v) (sj_ID j) (inv_Currency v) (pr_PayoutReference ?res) w
    | Some err \<Rightarrow> handleFailure P E (claimed E w j) a (sj_ID j) w err (pr_ErrorClass ?res)) ?st2 = (Inr (), st')"
    using ex by (simp add: execute_payout_def call_gateway_def bindE_def tryE_def updProc_def returnE_def
        execute_input_def call_recorded_def split: option.splits)
  have st2: "tx_db ?st2 = in_flight E w (tx_db st) j a [ev]" using st1 by simp
  show thesis
  proof (cases "pr_Err ?res")
    case None
    with run have "completeSuccess P E (claimed E w j) a (inv_InvestorID v) (sj_ID j) (inv_Currency v)
        (pr_PayoutReference ?res) w ?st2 = (Inr (), st')" by simp
    note c = complete_phase [OF this f st2 refl]
    show thesis
      by (rule that [OF f]) (use None c st1(2) in \<open>simp_all add: inc_succeeded_def inc_claimed_def call_recorded_def\<close>)
  next
    case (Some err)
    with run have "handleFailure P E (claimed E w j) a (sj_ID j) w err (pr_ErrorClass ?res) ?st2 = (Inr (), st')" by simp
    note c = failure_phase [OF this f st2 refl Some]
    show thesis
      by (rule that [OF f])
        (use Some c st1(2) in \<open>auto simp: inc_dead_def inc_retried_def inc_claimed_def call_recorded_def\<close>)
  qed
qed

text \<open>The job after a payout that failed.\<close>

lemma errored_job:
  assumes "errored P E w d j v a d'" "pr_Err (wp_gateway P (execute_input j v a)) = Some err"
  defines "res \<equiv> wp_gateway P (execute_input j v a)"
  obtains j' where "settlement_jobs d' = settlement_jobs (replace_job j' d)" "ledger_entries d' = ledger_entries d"
    "maturity_schedules d' = maturity_schedules d"
    "if pr_ErrorClass res = ErrorClassTerminal
     then j' = job_dead E ''terminal payout failure'' (error_text err) ErrorClassTerminal (claimed E w j)
     else if wrap32 (sj_RetryCount j + 1) \<ge> sj_MaxRetries j
     then \<exists>c. j' = job_dead E ''max retries exceeded'' (error_text err) c (claimed E w j)
     else in_int32 (sj_RetryCount j + 1)
        \<and> (\<exists>t. NextRetryAt (wp_retry P) (jitter E) (sj_RetryCount j) (go_now E) = Some t
            \<and> j' = job_failed E (timestamptz t) (error_text err) (claimed E w j))"
proof -
  define cls where "cls = (if pr_ErrorClass res = ErrorClassRaw [] then ErrorClassTransient else pr_ErrorClass res)"
  from assms(1,2) obtain j' vs as where d': "d' = (replace_job j' d)\<lparr>payout_attempts := as, audit_events := vs\<rparr>"
      and j': "if cls = ErrorClassTerminal \<or> wrap32 (sj_RetryCount j + 1) \<ge> sj_MaxRetries j
        then j' = job_dead E (if cls \<noteq> ErrorClassTerminal then ''max retries exceeded'' else ''terminal payout failure'')
               (error_text err) cls (claimed E w j)
        else in_int32 (sj_RetryCount j + 1)
           \<and> (\<exists>t. NextRetryAt (wp_retry P) (jitter E) (sj_RetryCount j) (go_now E) = Some t
               \<and> j' = job_failed E (timestamptz t) (error_text err) (claimed E w j))"
    unfolding errored_def Let_def res_def [symmetric] cls_def [symmetric]
    by (cases "cls = ErrorClassTerminal \<or> wrap32 (sj_RetryCount j + 1) \<ge> sj_MaxRetries j") auto
  have "cls = ErrorClassTerminal \<longleftrightarrow> pr_ErrorClass res = ErrorClassTerminal" by (simp add: cls_def)
  with d' j' show thesis by (intro that [of j']) (auto split: if_splits)
qed

end
