(* ===== verification/Idempotency.thy ===== *)
theory Idempotency
  imports Audit_Trail
begin

text \<open>
  \<^verbatim>\<open>internal/idempotency/service.go\<close> and \<^verbatim>\<open>runIdempotent\<close> of
  \<^verbatim>\<open>internal/api/handlers/helpers.go\<close>.

  The handler that \<^verbatim>\<open>Execute\<close> runs does not use the transaction that holds the key: it opens
  its own, on another connection. \<^verbatim>\<open>Execute\<close> therefore runs on a pair: the open transaction of
  the key and the committed system the handler works on. After the handler, the open transaction
  (READ COMMITTED) sees the handler's committed rows beside its own uncommitted key; the handlers of
  the API do not write \<^verbatim>\<open>idempotency_keys\<close>.
\<close>

record StoredResponse =
  sr_StatusCode :: int
  sr_Body :: json

datatype key_state = StateNotFound | StateInProgress | StateCompleted

record idem_Service =
  is_ttl :: duration

definition NewIdemService :: "duration \<Rightarrow> idem_Service" where
  "NewIdemService ttl = (if ttl \<le> 0 then \<lparr>is_ttl = 24 * 3600 * Second\<rparr> else \<lparr>is_ttl = ttl\<rparr>)"

definition no_response :: StoredResponse where
  "no_response = \<lparr>sr_StatusCode = 0, sr_Body = JNull\<rparr>"

definition lookupState :: "tx_env \<Rightarrow> string \<Rightarrow> string \<Rightarrow> (key_state \<times> StoredResponse) txm" where
  "lookupState E scope key =
     tryE (IdempotencyRepo_GetActive E scope key) (\<lambda>r. case r of
       Inl err \<Rightarrow> if IsNotFound err then returnE (StateNotFound, no_response)
                  else failE (WrapPre ''idempotency lookup'' [] err)
     | Inr row \<Rightarrow> (case ik_ResponseStatus row of
         None \<Rightarrow> returnE (StateInProgress, no_response)
       | Some code \<Rightarrow> returnE (StateCompleted, \<lparr>sr_StatusCode = code,
             sr_Body = (case ik_ResponseBody row of None \<Rightarrow> JNull | Some b \<Rightarrow> b)\<rparr>)))"

definition Lookup :: "tx_env \<Rightarrow> string \<Rightarrow> string \<Rightarrow> (StoredResponse \<times> bool) txm" where
  "Lookup E scope key =
     bindE (lookupState E scope key) (\<lambda>(state, response).
       if state \<noteq> StateCompleted then returnE (no_response, False) else returnE (response, True))"

definition Reserve :: "idem_Service \<Rightarrow> tx_env \<Rightarrow> string \<Rightarrow> string \<Rightarrow> string \<Rightarrow> unit txm" where
  "Reserve S E scope key requestHash =
     bindE (lookupState E scope key) (\<lambda>(state, _).
       if state \<noteq> StateNotFound then failE ErrIdempotencyKeyExists
       else tryE (IdempotencyRepo_Reserve E
              \<lparr>rp_Scope = scope, rp_Key = key, rp_RequestHash = (if requestHash \<noteq> [] then Some requestHash else None),
               rp_ExpiresAt = go_now E + is_ttl S\<rparr>)
            (\<lambda>r. case r of
               Inr _ \<Rightarrow> returnE ()
             | Inl err \<Rightarrow> if errors_Is err ErrIdempotencyKeyExists then failE err
                         else failE (WrapPre ''idempotency reserve'' [] err)))"

definition Complete :: "tx_env \<Rightarrow> string \<Rightarrow> string \<Rightarrow> StoredResponse \<Rightarrow> unit txm" where
  "Complete E scope key response =
     bindE (wrapE ''idempotency complete'' []
       (IdempotencyRepo_Complete E scope key (wrap32 (sr_StatusCode response)) (sr_Body response))) (\<lambda>_. returnE ())"

section \<open>Execute\<close>

type_synonym handler = "sys \<Rightarrow> StoredResponse res \<times> sys"

text \<open>What the open transaction sees after the handler has committed.\<close>

definition refresh :: "tx \<Rightarrow> sys \<Rightarrow> tx" where
  "refresh st s = st\<lparr>tx_db := (sys_db s)\<lparr>idempotency_keys := idempotency_keys (tx_db st)\<rparr>, tx_proc := sys_proc s\<rparr>"

definition Execute :: "idem_Service \<Rightarrow> tx_env \<Rightarrow> string \<Rightarrow> string \<Rightarrow> string \<Rightarrow> handler
    \<Rightarrow> tx \<times> sys \<Rightarrow> (StoredResponse \<times> bool) res \<times> tx \<times> sys" where
  "Execute S E scope key requestHash fn = (\<lambda>(st, s).
     case lookupState E scope key st of
       (Inl err, st) \<Rightarrow> (Inl err, st, s)
     | (Inr (StateCompleted, stored), st) \<Rightarrow> (Inr (stored, True), st, s)
     | (Inr (StateInProgress, _), st) \<Rightarrow> (Inl ErrKeyInProgress, st, s)
     | (Inr (StateNotFound, _), st) \<Rightarrow>
         (case Reserve S E scope key requestHash st of
            (Inl err, st) \<Rightarrow>
              if errors_Is err ErrIdempotencyKeyExists
              then (case lookupState E scope key st of
                      (Inl lookupErr, st) \<Rightarrow> (Inl lookupErr, st, s)
                    | (Inr (StateCompleted, stored), st) \<Rightarrow> (Inr (stored, True), st, s)
                    | (Inr (StateInProgress, _), st) \<Rightarrow> (Inl ErrKeyInProgress, st, s)
                    | (Inr (StateNotFound, _), st) \<Rightarrow> (Inl err, st, s))
              else (Inl err, st, s)
          | (Inr _, st) \<Rightarrow>
              (case fn s of
                 (Inl err, s) \<Rightarrow> (Inl err, refresh st s, s)
               | (Inr response, s) \<Rightarrow>
                   (case Complete E scope key response (refresh st s) of
                      (Inl err, st) \<Rightarrow> (Inl err, st, s)
                    | (Inr _, st) \<Rightarrow> (Inr (response, False), st, s)))))"

section \<open>runIdempotent\<close>

text \<open>
  The wrapper of every mutating endpoint; the result is the error handed to \<^verbatim>\<open>WriteError\<close> or
  the response with its replay flag. A response without a key is not stored.
\<close>

definition runIdempotent :: "idem_Service \<Rightarrow> tx_env \<Rightarrow> string \<Rightarrow> string \<Rightarrow> handler
    \<Rightarrow> sys \<Rightarrow> (StoredResponse \<times> bool) res \<times> sys" where
  "runIdempotent S E key scope fn s =
     (if key = [] then (case fn s of (Inl err, s') \<Rightarrow> (Inl err, s') | (Inr resp, s') \<Rightarrow> (Inr (resp, False), s'))
      else if begin_fault E then (Inl (WrapPre ''begin tx'' [] ConnErr), s)
      else (case Execute S E scope key [] fn (begin_tx s, s) of
              (Inl err, st, s') \<Rightarrow> (Inl err, s')
            | (Inr x, st, s') \<Rightarrow>
                if tx_aborted st then (Inl (WrapPre ''commit tx'' [] PgxCommitRollback), s')
                else (case commit_outcome E of
                        CommitOk \<Rightarrow> (Inr x, \<lparr>sys_db = tx_db st, sys_proc = tx_proc st\<rparr>)
                      | CommitFailed \<Rightarrow> (Inl (WrapPre ''commit tx'' [] ConnErr), s')
                      | CommitAppliedUnreported \<Rightarrow>
                          (Inl (WrapPre ''commit tx'' [] ConnErr), \<lparr>sys_db = tx_db st, sys_proc = tx_proc st\<rparr>))))"

section \<open>The key of a request\<close>

definition key_row :: "db \<Rightarrow> string \<Rightarrow> string \<Rightarrow> IdempotencyKey option" where
  "key_row d scope key = find (\<lambda>k. ik_Scope k = scope \<and> ik_Key k = key) (idempotency_keys d)"

lemma find_active:
  assumes "ops_ok d"
  shows "find (\<lambda>k. ik_Scope k = scope \<and> ik_Key k = key \<and> t < ik_ExpiresAt k) (idempotency_keys d) =
    (case key_row d scope key of None \<Rightarrow> None | Some k \<Rightarrow> if t < ik_ExpiresAt k then Some k else None)"
proof (cases "key_row d scope key")
  case None
  then have "find (\<lambda>k. ik_Scope k = scope \<and> ik_Key k = key \<and> t < ik_ExpiresAt k) (idempotency_keys d) = None"
    by (auto simp: key_row_def find_None_iff)
  with None show ?thesis by simp
next
  case (Some k)
  note k = find_eq_SomeD [OF Some [unfolded key_row_def]]
  have uniq: "k' = k" if "k' \<in> set (idempotency_keys d)" "ik_Scope k' = scope" "ik_Key k' = key" for k'
    using distinct_map_same_key [of "\<lambda>k. (ik_Scope k, ik_Key k)" "idempotency_keys d" k' k] assms k that
    by (simp add: ops_ok_def)
  show ?thesis
  proof (cases "t < ik_ExpiresAt k")
    case True
    with k uniq have "find (\<lambda>k. ik_Scope k = scope \<and> ik_Key k = key \<and> t < ik_ExpiresAt k) (idempotency_keys d) = Some k"
      by (intro find_uniqueI) auto
    with Some True show ?thesis by simp
  next
    case False
    with uniq have "find (\<lambda>k. ik_Scope k = scope \<and> ik_Key k = key \<and> t < ik_ExpiresAt k) (idempotency_keys d) = None"
      by (auto simp: find_None_iff)
    with Some False show ?thesis by simp
  qed
qed

definition response_of :: "IdempotencyKey \<Rightarrow> StoredResponse option" where
  "response_of k = map_option (\<lambda>c. \<lparr>sr_StatusCode = c,
     sr_Body = (case ik_ResponseBody k of None \<Rightarrow> JNull | Some b \<Rightarrow> b)\<rparr>) (ik_ResponseStatus k)"

lemma lookupState_run:
  assumes "\<not> tx_aborted st" "\<not> stmt_fault E (tx_stmts st)" "ops_ok (tx_db st)"
  shows "lookupState E scope key st =
    (Inr (case key_row (tx_db st) scope key of
            None \<Rightarrow> (StateNotFound, no_response)
          | Some k \<Rightarrow> if pg_now E < ik_ExpiresAt k
              then (case response_of k of None \<Rightarrow> (StateInProgress, no_response) | Some r \<Rightarrow> (StateCompleted, r))
              else (StateNotFound, no_response)), st\<lparr>tx_stmts := Suc (tx_stmts st)\<rparr>)"
  using assms
  by (auto simp: lookupState_def IdempotencyRepo_GetActive_def noRowsAs_def tryE_def run_stmt_def returnE_def failE_def
      GetActiveIdempotencyKey_def find_active IsNotFound_def response_of_def split: option.splits)

lemma lookupState_not_found_cases:
  assumes "ops_ok (tx_db st)" "\<And>k. key_row (tx_db st) scope key = Some k \<Longrightarrow> ik_ExpiresAt k \<le> pg_now E"
  shows "lookupState E scope key st = (Inr (StateNotFound, no_response), st\<lparr>tx_stmts := Suc (tx_stmts st)\<rparr>)
    \<or> (\<exists>e st'. lookupState E scope key st = (Inl (WrapPre ''idempotency lookup'' []
          (WrapPre ''get active idempotency key'' [] e)), st') \<and> (e = ConnErr \<or> e = PgError ''25P02''))"
proof (cases "tx_aborted st \<or> stmt_fault E (tx_stmts st)")
  case True
  then show ?thesis
    by (auto simp: lookupState_def IdempotencyRepo_GetActive_def noRowsAs_def tryE_def run_stmt_def failE_def IsNotFound_def)
next
  case False
  with lookupState_run [of st E scope key] assms show ?thesis
    by (auto split: option.splits)
qed

text \<open>A row of the key in the table, expired or not, makes the insertion fail and aborts the transaction.\<close>

lemma Reserve_clash:
  assumes "key_row d scope key = Some k"
  shows "CreateIdempotencyKey key scope h x E u d = SqlError ''23505''"
  using find_eq_SomeD [OF assms [unfolded key_row_def]] by (auto simp: CreateIdempotencyKey_def)

lemma Reserve_fresh:
  assumes "\<not> tx_aborted st" "\<not> stmt_fault E (tx_stmts st)" "\<not> stmt_fault E (Suc (tx_stmts st))" "ops_ok (tx_db st)"
    "key_row (tx_db st) scope key = None" "gen_uuid E (Suc (tx_stmts st)) \<notin> ik_ID ` set (idempotency_keys (tx_db st))"
  obtains k where "ik_Scope k = scope" "ik_Key k = key" "ik_ExpiresAt k = timestamptz (go_now E + is_ttl S)"
    "Reserve S E scope key [] st = (Inr (), st\<lparr>tx_db := (tx_db st)\<lparr>idempotency_keys := idempotency_keys (tx_db st) @ [k]\<rparr>,
       tx_stmts := Suc (Suc (tx_stmts st))\<rparr>)"
proof -
  let ?u = "gen_uuid E (Suc (tx_stmts st))"
  let ?k = "\<lparr>ik_ID = ?u, ik_Key = key, ik_Scope = scope, ik_RequestHash = None, ik_ResponseStatus = None,
     ik_ResponseBody = None, ik_CreatedAt = pg_now E, ik_ExpiresAt = timestamptz (go_now E + is_ttl S)\<rparr>"
  have "CreateIdempotencyKey key scope None (go_now E + is_ttl S) E ?u (tx_db st)
      = Rows ?k ((tx_db st)\<lparr>idempotency_keys := idempotency_keys (tx_db st) @ [?k]\<rparr>)"
    using assms(5,6) by (force simp: CreateIdempotencyKey_def key_row_def find_None_iff Let_def)
  with assms(1-5) show thesis
    by (intro that [of ?k])
      (simp_all add: Reserve_def bindE_def tryE_def lookupState_run IdempotencyRepo_Reserve_def run_stmt_def returnE_def)
qed

lemma Complete_run:
  assumes "\<not> tx_aborted st" "\<not> stmt_fault E (tx_stmts st)" "idempotency_keys (tx_db st) = ks @ [k]"
    "ik_Scope k = scope" "ik_Key k = key" "\<And>q. q \<in> set ks \<Longrightarrow> \<not> (ik_Scope q = scope \<and> ik_Key q = key)"
  shows "Complete E scope key r st = (Inr (), st\<lparr>tx_db := (tx_db st)\<lparr>idempotency_keys :=
      ks @ [k\<lparr>ik_ResponseStatus := Some (wrap32 (sr_StatusCode r)), ik_ResponseBody := Some (sr_Body r)\<rparr>]\<rparr>,
    tx_stmts := Suc (tx_stmts st)\<rparr>)"
proof -
  have "find (\<lambda>k. ik_Scope k = scope \<and> ik_Key k = key) (ks @ [k]) = Some k"
    using assms(4-6) by (intro find_uniqueI) auto
  moreover have "map (\<lambda>q. if ik_Scope q = scope \<and> ik_Key q = key then k' else q) ks = ks" for k'
    using assms(6) by (intro map_if_id) auto
  ultimately show ?thesis
    using assms(1-5)
    by (simp add: Complete_def bindE_def tryE_def wrapE_def IdempotencyRepo_Complete_def noRowsAs_def run_stmt_def
        returnE_def CompleteIdempotencyKey_def Let_def)
qed

section \<open>What a keyed request does to the tables\<close>

text \<open>The transaction of the key writes \<^verbatim>\<open>idempotency_keys\<close> only.\<close>

definition keys_step :: "db \<Rightarrow> db \<Rightarrow> bool" where
  "keys_step d d' \<longleftrightarrow> (\<exists>ks. d' = d\<lparr>idempotency_keys := ks\<rparr>) \<and> (ops_ok d \<longrightarrow> ops_ok d')"

interpretation keys: db_preorder keys_step
proof
  show "keys_step d d" for d
    by (auto simp: keys_step_def intro: exI [of _ "idempotency_keys d"])
qed (auto simp: keys_step_def)

lemma key_stmts_keep:
  "query_keeps keys_step (CreateIdempotencyKey k scope h x)"
  "query_keeps keys_step (CompleteIdempotencyKey scope k n body)"
proof -
  have "keys_step d d'" if "CreateIdempotencyKey k scope h x E u d = Rows r d'" for E u d r d'
    using that by (auto simp: keys_step_def CreateIdempotencyKey_def Let_def ops_ok_def split: if_splits)
  then show "query_keeps keys_step (CreateIdempotencyKey k scope h x)" by (auto simp: query_keeps_def)
  have "keys_step d d'" if run: "CompleteIdempotencyKey scope k n body E u d = Rows r d'" for E u d r d'
  proof -
    have "ops_ok d \<Longrightarrow> ops_ok d'" by (rule complete_key_ops_ok [OF run])
    with run show ?thesis by (auto simp: keys_step_def CompleteIdempotencyKey_def Let_def split: option.splits)
  qed
  then show "query_keeps keys_step (CompleteIdempotencyKey scope k n body)" by (auto simp: query_keeps_def)
qed

lemma lookupState_keeps: "keeps keys_step (lookupState E scope key)"
  unfolding lookupState_def IdempotencyRepo_GetActive_def
  by (intro keys.keeps_try keys.keeps_noRowsAs keys.keeps_stmt keys.read_keeps)
    (auto intro!: keys.keeps_return keys.keeps_fail split: sum.splits option.splits)

lemma Reserve_key_keeps: "keeps keys_step (Reserve S E scope key h)"
  unfolding Reserve_def IdempotencyRepo_Reserve_def
  by (intro keys.keeps_bind lookupState_keeps)
    (auto intro!: keys.keeps_try keys.keeps_stmt key_stmts_keep keys.keeps_return keys.keeps_fail split: sum.splits prod.splits)

lemma Complete_key_keeps: "keeps keys_step (Complete E scope key r)"
  unfolding Complete_def IdempotencyRepo_Complete_def
  by (intro keys.keeps_bind keys.keeps_wrap keys.keeps_noRowsAs keys.keeps_stmt key_stmts_keep keys.keeps_return)

text \<open>\<open>merged s s1 d\<close>: the tables \<open>d\<close> are those of \<open>s1\<close> with the keys of a transaction opened at \<open>s\<close>.\<close>

definition merged :: "sys \<Rightarrow> sys \<Rightarrow> db \<Rightarrow> bool" where
  "merged s s1 d \<longleftrightarrow> (\<exists>ks. d = (sys_db s1)\<lparr>idempotency_keys := ks\<rparr>)
     \<and> (ops_ok (sys_db s) \<longrightarrow> ops_ok (sys_db s1) \<longrightarrow> ops_ok d)"

lemma merged_open: "keys_step (sys_db s) d \<Longrightarrow> merged s s d"
  by (auto simp: merged_def keys_step_def)

lemma merged_refresh: "keys_step (sys_db s) (tx_db t) \<Longrightarrow> merged s s1 (tx_db (refresh t s1))"
  by (auto simp: merged_def refresh_def keys_step_def ops_ok_def)

lemma merged_step: "merged s s1 d \<Longrightarrow> keys_step d d' \<Longrightarrow> merged s s1 d'"
  by (auto simp: merged_def keys_step_def)

lemma Execute_tables:
  assumes "Execute S E scope key h fn (st, s) = (r, st', s')" "keys_step (sys_db s) (tx_db st)"
  shows "(s' = s \<or> s' = snd (fn s)) \<and> merged s s' (tx_db st')"
proof -
  obtain q st1 where l: "lookupState E scope key st = (q, st1)" by fastforce
  have k1: "keys_step (sys_db s) (tx_db st1)"
    using keys.keeps_run [OF lookupState_keeps l] assms(2) by (rule keys.R_trans [rotated])
  obtain q2 st2 where rs: "Reserve S E scope key h st1 = (q2, st2)" by fastforce
  have k2: "keys_step (sys_db s) (tx_db st2)"
    using keys.keeps_run [OF Reserve_key_keeps rs] k1 by (rule keys.R_trans [rotated])
  obtain q3 st3 where l3: "lookupState E scope key st2 = (q3, st3)" by fastforce
  have k3: "keys_step (sys_db s) (tx_db st3)"
    using keys.keeps_run [OF lookupState_keeps l3] k2 by (rule keys.R_trans [rotated])
  obtain q4 s1 where f: "fn s = (q4, s1)" by fastforce
  have m4: "merged s s1 (tx_db (refresh st2 s1))" using k2 by (rule merged_refresh)
  have m5: "merged s s1 (tx_db st5)" if "Complete E scope key resp (refresh st2 s1) = (q5, st5)" for resp q5 st5
    using m4 keys.keeps_run [OF Complete_key_keeps that] by (rule merged_step)
  note m = merged_open [OF k1] merged_open [OF k2] merged_open [OF k3] m4
  from assms(1) m m5 show ?thesis
    unfolding Execute_def prod.case l
    by (auto simp: rs l3 f split: sum.splits prod.splits key_state.splits if_splits)
qed

lemma runIdempotent_tables:
  obtains s1 where "s1 = s \<or> s1 = snd (fn s)" "merged s s1 (sys_db (snd (runIdempotent S E key scope fn s)))"
proof -
  have same: "merged s s1 (sys_db s1)" for s1
    by (auto simp: merged_def intro: exI [of _ "idempotency_keys (sys_db s1)"])
  obtain r st s' where ex: "Execute S E scope key [] fn (begin_tx s, s) = (r, st, s')"
    by (cases "Execute S E scope key [] fn (begin_tx s, s)") auto
  have "keys_step (sys_db s) (tx_db (begin_tx s))" by (simp add: begin_tx_def)
  note t = Execute_tables [OF ex this]
  have "sys_db (snd (runIdempotent S E key scope fn s)) \<in> {sys_db s, sys_db (snd (fn s)), sys_db s', tx_db st}"
    unfolding runIdempotent_def ex by (simp split: prod.split sum.split commit_outcome.split)
  then show thesis using t same by (auto intro: that)
qed

section \<open>Properties\<close>

text \<open>An environment in which nothing fails.\<close>

definition no_faults :: "tx_env \<Rightarrow> bool" where
  "no_faults E \<longleftrightarrow> \<not> begin_fault E \<and> commit_outcome E = CommitOk \<and> stmt_fault E = (\<lambda>_. False)"

lemma runIdempotent_replays:
  assumes "no_faults E" "ops_ok (sys_db s)" "key \<noteq> []" "key_row (sys_db s) scope key = Some k"
    "pg_now E < ik_ExpiresAt k" "response_of k = Some r"
  shows "runIdempotent S E key scope fn s = (Inr (r, True), s)"
  using assms by (simp add: runIdempotent_def Execute_def no_faults_def lookupState_run begin_tx_def)

lemma runIdempotent_first:
  assumes "no_faults E" "ops_ok (sys_db s)" "key \<noteq> []" "key_row (sys_db s) scope key = None"
    "gen_uuid E 2 \<notin> ik_ID ` set (idempotency_keys (sys_db s))" "fn s = (Inr resp, s1)"
  obtains k where "ik_Scope k = scope" "ik_Key k = key" "ik_ExpiresAt k = timestamptz (go_now E + is_ttl S)"
    "response_of k = Some (resp\<lparr>sr_StatusCode := wrap32 (sr_StatusCode resp)\<rparr>)"
    "runIdempotent S E key scope fn s = (Inr (resp, False),
       s1\<lparr>sys_db := (sys_db s1)\<lparr>idempotency_keys := idempotency_keys (sys_db s) @ [k]\<rparr>\<rparr>)"
proof -
  let ?st = "\<lparr>tx_db = sys_db s, tx_aborted = False, tx_stmts = Suc 0, tx_proc = sys_proc s\<rparr>"
  obtain k where k: "ik_Scope k = scope" "ik_Key k = key" "ik_ExpiresAt k = timestamptz (go_now E + is_ttl S)"
      and res: "Reserve S E scope key [] ?st = (Inr (), ?st\<lparr>tx_db := (sys_db s)\<lparr>idempotency_keys := idempotency_keys (sys_db s) @ [k]\<rparr>,
       tx_stmts := Suc (Suc (Suc 0))\<rparr>)"
    by (rule Reserve_fresh [of ?st E scope key S])
      (use assms in \<open>auto simp: no_faults_def numeral_2_eq_2\<close>)
  let ?k = "k\<lparr>ik_ResponseStatus := Some (wrap32 (sr_StatusCode resp)), ik_ResponseBody := Some (sr_Body resp)\<rparr>"
  let ?st2 = "refresh (?st\<lparr>tx_db := (sys_db s)\<lparr>idempotency_keys := idempotency_keys (sys_db s) @ [k]\<rparr>, tx_stmts := Suc (Suc (Suc 0))\<rparr>) s1"
  have comp: "Complete E scope key resp ?st2 = (Inr (), ?st2\<lparr>tx_db := (tx_db ?st2)\<lparr>idempotency_keys :=
      idempotency_keys (sys_db s) @ [?k]\<rparr>, tx_stmts := Suc (tx_stmts ?st2)\<rparr>)"
    by (rule Complete_run) (use assms(1,4) k in \<open>auto simp: no_faults_def refresh_def key_row_def find_None_iff\<close>)
  have look: "lookupState E scope key (begin_tx s) = (Inr (StateNotFound, no_response), ?st)"
    using assms(1,2,4) by (simp add: lookupState_run no_faults_def begin_tx_def)
  show thesis
  proof (rule that [of ?k])
    show "runIdempotent S E key scope fn s = (Inr (resp, False),
       s1\<lparr>sys_db := (sys_db s1)\<lparr>idempotency_keys := idempotency_keys (sys_db s) @ [?k]\<rparr>\<rparr>)"
      using assms(1,3,6) by (simp add: runIdempotent_def Execute_def look res comp [unfolded refresh_def, simplified] no_faults_def refresh_def)
  qed (use k in \<open>simp_all add: response_of_def\<close>)
qed

text \<open>
  C25. Exactly one execution per key: the first request with a key runs its handler and answers with
  the handler's response, and any later request with the same scope and key, before the key expires,
  is answered with that response, flagged as a replay, without running its own handler and without
  changing anything.
\<close>

theorem runIdempotent_once:
  assumes "no_faults E" "no_faults E'" "ops_ok (sys_db s)" "key \<noteq> []" "key_row (sys_db s) scope key = None"
    and "gen_uuid E 2 \<notin> ik_ID ` set (idempotency_keys (sys_db s))"
    and "fn s = (Inr resp, s1)" "ops_ok (sys_db s1)" "in_int32 (sr_StatusCode resp)"
    and "pg_now E' < timestamptz (go_now E + is_ttl S)"
  shows "\<exists>s2. runIdempotent S E key scope fn s = (Inr (resp, False), s2)
    \<and> (\<forall>fn'. runIdempotent S E' key scope fn' s2 = (Inr (resp, True), s2))
    \<and> s2 = s1\<lparr>sys_db := (sys_db s1)\<lparr>idempotency_keys := idempotency_keys (sys_db s2)\<rparr>\<rparr>"
proof -
  obtain k where k: "ik_Scope k = scope" "ik_Key k = key" "ik_ExpiresAt k = timestamptz (go_now E + is_ttl S)"
      "response_of k = Some (resp\<lparr>sr_StatusCode := wrap32 (sr_StatusCode resp)\<rparr>)"
      and run: "runIdempotent S E key scope fn s = (Inr (resp, False),
       s1\<lparr>sys_db := (sys_db s1)\<lparr>idempotency_keys := idempotency_keys (sys_db s) @ [k]\<rparr>\<rparr>)"
    by (rule runIdempotent_first [of E s key scope fn resp s1 S]) (use assms in auto)
  let ?s2 = "s1\<lparr>sys_db := (sys_db s1)\<lparr>idempotency_keys := idempotency_keys (sys_db s) @ [k]\<rparr>\<rparr>"
  have new: "\<forall>q \<in> set (idempotency_keys (sys_db s)). \<not> (ik_Scope q = scope \<and> ik_Key q = key)"
    using assms(5) by (auto simp: key_row_def find_None_iff)
  have row: "key_row (sys_db ?s2) scope key = Some k"
    unfolding key_row_def using k new by (intro find_uniqueI) auto
  have "ops_ok (sys_db ?s2)"
    using assms(3,8) new k by (auto simp: ops_ok_def)
  moreover have "response_of k = Some resp"
    using k(4) assms(9) by (simp add: wrap32_id)
  ultimately have "runIdempotent S E' key scope fn' ?s2 = (Inr (resp, True), ?s2)" for fn'
    using runIdempotent_replays [OF assms(2) _ assms(4) row] k(3) assms(10) by simp
  with run show ?thesis by (intro exI [of _ ?s2]) simp
qed

theorem runIdempotent_once_witness:
  "\<exists>s2. runIdempotent (NewIdemService 0) (demo_env 0) ''k'' ''replay'' (\<lambda>s. (Inr \<lparr>sr_StatusCode = 202, sr_Body = JNull\<rparr>, s)) empty_sys
        = (Inr (\<lparr>sr_StatusCode = 202, sr_Body = JNull\<rparr>, False), s2)
    \<and> runIdempotent (NewIdemService 0) (demo_env 1) ''k'' ''replay'' (\<lambda>s. (Inl ConnErr, s)) s2
        = (Inr (\<lparr>sr_StatusCode = 202, sr_Body = JNull\<rparr>, True), s2)"
proof -
  have *: "no_faults (demo_env n)" for n by (simp add: no_faults_def)
  have "pg_now (demo_env 1) < timestamptz (go_now (demo_env 0) + is_ttl (NewIdemService 0))"
    by (simp add: NewIdemService_def timestamptz_def)
  moreover have "ops_ok (sys_db empty_sys)" "key_row (sys_db empty_sys) scope key = None"
      "gen_uuid (demo_env 0) 2 \<notin> ik_ID ` set (idempotency_keys (sys_db empty_sys))" for scope key
    by (simp_all add: empty_sys_def empty_db_def ops_ok_def key_row_def)
  ultimately obtain s2 where s2: "runIdempotent (NewIdemService 0) (demo_env 0) ''k'' ''replay''
        (\<lambda>s. (Inr \<lparr>sr_StatusCode = 202, sr_Body = JNull\<rparr>, s)) empty_sys
        = (Inr (\<lparr>sr_StatusCode = 202, sr_Body = JNull\<rparr>, False), s2)"
      "\<forall>fn'. runIdempotent (NewIdemService 0) (demo_env 1) ''k'' ''replay'' fn' s2
        = (Inr (\<lparr>sr_StatusCode = 202, sr_Body = JNull\<rparr>, True), s2)"
    using runIdempotent_once [OF * [of 0] * [of 1], of empty_sys "''k''" "''replay''"
        "\<lambda>s. (Inr \<lparr>sr_StatusCode = 202, sr_Body = JNull\<rparr>, s)" "\<lparr>sr_StatusCode = 202, sr_Body = JNull\<rparr>" empty_sys "NewIdemService 0"]
    by (auto simp: in_int32_def)
  then show ?thesis by blast
qed

text \<open>
  C38. An expired key is never usable again: once the row of a key has expired, every request with that
  scope and key fails without running its handler, since the lookup skips the row, the insertion hits
  the unique index, and the lookup after the conflict runs in an aborted transaction.
\<close>

theorem runIdempotent_expired_stuck:
  assumes "ops_ok (sys_db s)" "key \<noteq> []" "key_row (sys_db s) scope key = Some k" "ik_ExpiresAt k \<le> pg_now E"
  shows "\<exists>e. runIdempotent S E key scope fn s = (Inl e, s)"
proof -
  have exp: "ik_ExpiresAt k' \<le> pg_now E" if "key_row (sys_db s) scope key = Some k'" for k'
    using that assms(3,4) by simp
  note look = lookupState_not_found_cases [of "begin_tx s" scope key E]
    lookupState_not_found_cases [of "(begin_tx s)\<lparr>tx_stmts := Suc 0\<rparr>" scope key E]
  have look2: "\<exists>e st'. lookupState E scope key st = (Inl e, st')" if "tx_aborted st" for st
    using that by (auto simp: lookupState_def IdempotencyRepo_GetActive_def noRowsAs_def tryE_def run_stmt_def failE_def
        IsNotFound_def)
  have ins: "\<exists>e st'. IdempotencyRepo_Reserve E p st = (Inl e, st') \<and> tx_aborted st'"
    if "tx_db st = sys_db s" "rp_Scope p = scope" "rp_Key p = key" for p st
    using that Reserve_clash [OF assms(3)]
    by (auto simp: IdempotencyRepo_Reserve_def tryE_def run_stmt_def failE_def isUniqueViolation_def)
  let ?st = "\<lparr>tx_db = sys_db s, tx_aborted = False, tx_stmts = Suc 0, tx_proc = sys_proc s\<rparr>"
  have res: "\<exists>e st'. Reserve S E scope key [] ?st = (Inl e, st') \<and> (errors_Is e ErrIdempotencyKeyExists \<longrightarrow> tx_aborted st')"
    using look(2) ins [of "?st\<lparr>tx_stmts := Suc (Suc 0)\<rparr>" "\<lparr>rp_Scope = scope, rp_Key = key, rp_RequestHash = None,
      rp_ExpiresAt = go_now E + is_ttl S\<rparr>"] assms(1) exp
    by (auto simp: Reserve_def bindE_def tryE_def failE_def begin_tx_def)
  show ?thesis
  proof (cases "begin_fault E")
    case False
    from look(1) assms(1) exp consider
        (ok) "lookupState E scope key (begin_tx s) = (Inr (StateNotFound, no_response), ?st)"
      | (err) e st' where "lookupState E scope key (begin_tx s) = (Inl e, st')"
      by (auto simp: begin_tx_def)
    then show ?thesis
    proof cases
      case ok
      from res obtain e st' where r: "Reserve S E scope key [] ?st = (Inl e, st')"
          "errors_Is e ErrIdempotencyKeyExists \<longrightarrow> tx_aborted st'" by blast
      then have "\<exists>e st'. Execute S E scope key [] fn (begin_tx s, s) = (Inl e, st', s)"
        using look2 [of st'] by (auto simp: Execute_def ok)
      with False assms(2) show ?thesis by (auto simp: runIdempotent_def)
    next
      case err
      with False assms(2) show ?thesis by (auto simp: runIdempotent_def Execute_def)
    qed
  qed (use assms(2) in \<open>simp add: runIdempotent_def\<close>)
qed

definition expired_sys :: sys where
  "expired_sys = empty_sys\<lparr>sys_db := empty_db\<lparr>idempotency_keys := [\<lparr>ik_ID = 1, ik_Key = ''k'', ik_Scope = ''replay'',
     ik_RequestHash = None, ik_ResponseStatus = Some 200, ik_ResponseBody = None, ik_CreatedAt = 0, ik_ExpiresAt = 1\<rparr>]\<rparr>\<rparr>"

theorem runIdempotent_expired_stuck_witness:
  "\<exists>e. runIdempotent (NewIdemService 0) (demo_env 0) ''k'' ''replay'' (\<lambda>s. (Inr no_response, s)) expired_sys = (Inl e, expired_sys)"
proof -
  obtain k where "key_row (sys_db expired_sys) ''replay'' ''k'' = Some k" "ik_ExpiresAt k \<le> pg_now (demo_env 0)"
    by (simp add: expired_sys_def key_row_def)
  moreover have "ops_ok (sys_db expired_sys)" by (simp add: expired_sys_def ops_ok_def empty_db_def)
  ultimately show ?thesis using runIdempotent_expired_stuck [of expired_sys "''k''" "''replay''"] by blast
qed

end
