(* ===== verification/Orchestrator.thy ===== *)
theory Orchestrator
  imports Audit_Trail Calculator
begin

text \<open>
  \<^verbatim>\<open>internal/settlement/orchestrator/service.go\<close> and \<^verbatim>\<open>internal/scheduler/scheduler.go\<close>:
  one transaction that turns every due maturity into a settlement job, the scheduler's tick around it,
  and the reaper of stale leases.
\<close>

record orch_Service =
  or_lib :: golib
  or_calc :: calc_Service
  or_maxRetry :: int

definition orchestrator_New :: "golib \<Rightarrow> calc_Service \<Rightarrow> int \<Rightarrow> orch_Service" where
  "orchestrator_New L calc maxRetries = \<lparr>or_lib = L, or_calc = calc, or_maxRetry = wrap32 maxRetries\<rparr>"

definition investment_terms :: "Investment \<Rightarrow> InvestmentTerms" where
  "investment_terms v = \<lparr>it_PrincipalCents = inv_PrincipalCents v, it_AnnualRateBPS = inv_AnnualRateBps v,
     it_TermDays = inv_TermDays v, it_Currency = inv_Currency v\<rparr>"

text \<open>The sixteen bytes of an identifier, as \<^verbatim>\<open>%s\<close> prints them.\<close>

definition uuid_bytes :: "uuid \<Rightarrow> string" where
  "uuid_bytes i = map (\<lambda>k. char_of (unat i div 256 ^ (15 - k) mod 256)) [0..<16]"

definition job_params :: "orch_Service \<Rightarrow> MaturitySchedule \<Rightarrow> Investment \<Rightarrow> Breakdown \<Rightarrow> CreateSettlementJobParams" where
  "job_params S m v b =
     \<lparr>cj_MaturityScheduleID = ms_ID m, cj_InvestmentID = inv_ID v,
      cj_IdempotencyKey = ''maturity:'' @ uuid_String (or_lib S) (ms_ID m),
      cj_PrincipalCents = bd_PrincipalCents b, cj_GrossReturnCents = bd_GrossReturnCents b,
      cj_PlatformFeeCents = bd_PlatformFeeCents b, cj_WithholdingTaxCents = bd_WithholdingTaxCents b,
      cj_NetPayoutCents = bd_NetPayoutCents b, cj_MaxRetries = or_maxRetry S\<rparr>"

definition enqueue_one :: "orch_Service \<Rightarrow> tx_env \<Rightarrow> MaturitySchedule \<times> Investment \<Rightarrow> bool txm" where
  "enqueue_one S E row =
     (case row of (m, v) \<Rightarrow>
        (case Calculate (or_lib S) (or_calc S) (investment_terms v) of
           Inl err \<Rightarrow> failE (WrapPre ''calculate settlement for maturity %s'' [ArgStr (uuid_bytes (ms_ID m))] err)
         | Inr breakdown \<Rightarrow>
             bindE (liftE (PgtypeToUUID (Some (ms_ID m)))) (\<lambda>maturityID.
             bindE (wrapE ''create settlement job'' [] (SettlementJobRepo_CreateIdempotent E (job_params S m v breakdown)))
               (\<lambda>(job, inserted).
                 if \<not> inserted then returnE False
                 else bindE (liftE (PgtypeToUUID (Some (sj_ID job)))) (\<lambda>jobID.
                      bindE (wrapE ''audit job created'' []
                        (PublishJobTransition E jobID ActionSettlementJobCreated (uuid_String (or_lib S) maturityID)
                           [(''maturity_schedule_id'', JStr (uuid_String (or_lib S) maturityID)),
                            (''net_payout_cents'', JInt (bd_NetPayoutCents breakdown))]))
                        (\<lambda>_. returnE True))))))"

primrec enqueue_loop :: "orch_Service \<Rightarrow> tx_env \<Rightarrow> (MaturitySchedule \<times> Investment) list \<Rightarrow> int \<Rightarrow> int txm" where
  "enqueue_loop S E [] created = returnE created"
| "enqueue_loop S E (row # rows) created =
     bindE (enqueue_one S E row) (\<lambda>inserted. enqueue_loop S E rows (if inserted then created + 1 else created))"

definition enqueue_body :: "orch_Service \<Rightarrow> tx_env \<Rightarrow> int txm" where
  "enqueue_body S E = bindE (wrapE ''list due maturities'' [] (MaturityRepo_ListDue E)) (\<lambda>due. enqueue_loop S E due 0)"

definition EnqueueDueMaturities :: "orch_Service \<Rightarrow> tx_env \<Rightarrow> sys \<Rightarrow> int res \<times> sys" where
  "EnqueueDueMaturities S E s =
     (case WithTx E (enqueue_body S E) s of
        (Inl err, s') \<Rightarrow> (Inl err, s')
      | (Inr created, s') \<Rightarrow>
          (Inr created,
           if created > 0
           then s'\<lparr>sys_proc := (sys_proc s')\<lparr>proc_metrics := (proc_metrics (sys_proc s'))
                  \<lparr>JobsEnqueued := JobsEnqueued (proc_metrics (sys_proc s')) + created\<rparr>\<rparr>\<rparr>
           else s'))"

section \<open>Scheduler\<close>

record sched_Config =
  Interval :: duration
  ReaperInterval :: duration
  JobLeaseTimeout :: duration

record Scheduler =
  sc_cfg :: sched_Config
  sc_orchestrator :: orch_Service

text \<open>\<^verbatim>\<open>scheduler.New\<close>; the store, its repositories and the audit publisher have no state of their own.\<close>

definition scheduler_New :: "sched_Config \<Rightarrow> orch_Service \<Rightarrow> Scheduler" where
  "scheduler_New cfg orch = \<lparr>sc_cfg = cfg, sc_orchestrator = orch\<rparr>"

definition run_intervals :: "sched_Config \<Rightarrow> duration \<times> duration" where
  "run_intervals cfg = (if Interval cfg \<le> 0 then 30 * Second else Interval cfg,
                        if ReaperInterval cfg \<le> 0 then 60 * Second else ReaperInterval cfg)"

definition TickOnce :: "Scheduler \<Rightarrow> tx_env \<Rightarrow> sys \<Rightarrow> int res \<times> sys" where
  "TickOnce sc E s = EnqueueDueMaturities (sc_orchestrator sc) E s"

definition runTick :: "Scheduler \<Rightarrow> tx_env \<Rightarrow> sys \<Rightarrow> sys" where
  "runTick sc E s =
     (let s' = s\<lparr>sys_proc := (sys_proc s)\<lparr>proc_metrics := (proc_metrics (sys_proc s))
                  \<lparr>SchedulerTicks := SchedulerTicks (proc_metrics (sys_proc s)) + 1\<rparr>\<rparr>\<rparr>
      in snd (EnqueueDueMaturities (sc_orchestrator sc) E s'))"

definition opt_json :: "string option \<Rightarrow> json" where
  "opt_json x = (case x of None \<Rightarrow> JNull | Some s \<Rightarrow> JStr s)"

definition reap_one :: "golib \<Rightarrow> tx_env \<Rightarrow> SettlementJob \<Rightarrow> unit txm" where
  "reap_one L E job =
     bindE (liftE (PgtypeToUUID (Some (sj_ID job)))) (\<lambda>jobID.
     bindE (PublishJobTransition E jobID ActionSettlementJobLeaseExpired (uuid_String L jobID)
              [(''processing_owner'', opt_json (sj_ProcessingOwner job))]) (\<lambda>_. returnE ()))"

definition reap_body :: "golib \<Rightarrow> tx_env \<Rightarrow> gotime \<Rightarrow> unit txm" where
  "reap_body L E cutoff =
     bindE (SettlementJobRepo_ExpireStaleLeases E cutoff) (\<lambda>jobs.
     bindE (mapE (reap_one L E) jobs) (\<lambda>_.
     if length jobs > 0
     then updProc (\<lambda>p. p\<lparr>proc_metrics := (proc_metrics p)\<lparr>LeasesExpired := LeasesExpired (proc_metrics p) + int (length jobs)\<rparr>\<rparr>)
     else returnE ()))"

definition reapStaleLeases :: "Scheduler \<Rightarrow> tx_env \<Rightarrow> sys \<Rightarrow> sys" where
  "reapStaleLeases sc E s =
     snd (WithTx E (reap_body (or_lib (sc_orchestrator sc)) E (go_now E - JobLeaseTimeout (sc_cfg sc))) s)"

section \<open>What the scheduler respects\<close>

context engine_store
begin

lemma enqueue_one_keeps [tx_intros]: "keeps R (enqueue_one S E row)"
  unfolding enqueue_one_def by (auto intro!: tx_intros split: prod.splits sum.splits)

lemma enqueue_loop_keeps [tx_intros]: "keeps R (enqueue_loop S E rows c)"
  by (induction rows arbitrary: c) (auto intro!: tx_intros)

lemma EnqueueDueMaturities_keeps: "R (sys_db s) (sys_db (snd (EnqueueDueMaturities S E s)))"
proof -
  have "keeps R (enqueue_body S E)"
    unfolding enqueue_body_def by (intro tx_intros)
  from WithTx_keeps [OF this, of s E] show ?thesis
    by (auto simp: EnqueueDueMaturities_def split: prod.splits sum.splits)
qed

lemma runTick_keeps: "R (sys_db s) (sys_db (runTick sc E s))"
  unfolding runTick_def Let_def
  using EnqueueDueMaturities_keeps [of "s\<lparr>sys_proc := p\<rparr>" for p] by simp

lemma reapStaleLeases_keeps: "R (sys_db s) (sys_db (reapStaleLeases sc E s))"
  unfolding reapStaleLeases_def reap_body_def reap_one_def
  by (intro WithTx_keeps tx_intros) (auto intro!: tx_intros)

end

section \<open>What enqueueing creates\<close>

lemma CreateIdempotent_ok:
  assumes "SettlementJobRepo_CreateIdempotent E p st = (Inr (job, ins), st')"
  shows "\<not> tx_aborted st'" "tx_proc st' = tx_proc st"
    "ins \<longleftrightarrow> (\<forall>k \<in> set (settlement_jobs (tx_db st)). sj_MaturityScheduleID k \<noteq> cj_MaturityScheduleID p)"
    "\<not> ins \<Longrightarrow> tx_db st' = tx_db st \<and> job \<in> set (settlement_jobs (tx_db st)) \<and> sj_MaturityScheduleID job = cj_MaturityScheduleID p"
    "ins \<Longrightarrow> (\<exists>u. CreateSettlementJob p E u (tx_db st) = Rows job (tx_db st'))"
proof -
  let ?find = "find (\<lambda>j. sj_MaturityScheduleID j = cj_MaturityScheduleID p) (settlement_jobs (tx_db st))"
  have "\<not> tx_aborted st' \<and> tx_proc st' = tx_proc st \<and>
    (case ?find of Some j \<Rightarrow> \<not> ins \<and> job = j \<and> tx_db st' = tx_db st
     | None \<Rightarrow> ins \<and> (\<exists>u. CreateSettlementJob p E u (tx_db st) = Rows job (tx_db st')))"
    using assms unfolding SettlementJobRepo_CreateIdempotent_def tryE_def
    by (auto simp: run_stmt_def GetSettlementJobByMaturityScheduleID_def isUniqueViolation_def
        split: option.splits if_splits sql_result.splits)
  then show "\<not> tx_aborted st'" "tx_proc st' = tx_proc st"
    "ins \<longleftrightarrow> (\<forall>k \<in> set (settlement_jobs (tx_db st)). sj_MaturityScheduleID k \<noteq> cj_MaturityScheduleID p)"
    "\<not> ins \<Longrightarrow> tx_db st' = tx_db st \<and> job \<in> set (settlement_jobs (tx_db st)) \<and> sj_MaturityScheduleID job = cj_MaturityScheduleID p"
    "ins \<Longrightarrow> (\<exists>u. CreateSettlementJob p E u (tx_db st) = Rows job (tx_db st'))"
    by (auto split: option.splits simp: find_None_iff dest: find_eq_SomeD)
qed

text \<open>\<open>job_for S E d (m, v) j\<close>: the job enqueueing makes for the maturity \<open>m\<close> of the investment \<open>v\<close>.\<close>

definition job_for :: "orch_Service \<Rightarrow> tx_env \<Rightarrow> MaturitySchedule \<times> Investment \<Rightarrow> SettlementJob \<Rightarrow> bool" where
  "job_for S E row j \<longleftrightarrow>
     (\<exists>b. Calculate (or_lib S) (or_calc S) (investment_terms (snd row)) = Inr b
        \<and> j = new_job (job_params S (fst row) (snd row) b) E (sj_ID j))"

definition has_job :: "db \<Rightarrow> MaturitySchedule \<Rightarrow> bool" where
  "has_job d m \<longleftrightarrow> (\<exists>j \<in> set (settlement_jobs d). sj_MaturityScheduleID j = ms_ID m)"

lemma enqueue_one_ok:
  assumes "enqueue_one S E (m, v) st = (Inr ins, st')"
  shows "ins \<longleftrightarrow> \<not> has_job (tx_db st) m" "\<not> ins \<Longrightarrow> tx_db st' = tx_db st"
    "ins \<Longrightarrow> (\<exists>j e. job_for S E (m, v) j \<and> ae_Action e = ActionSettlementJobCreated \<and> ae_EntityID e = sj_ID j
        \<and> tx_db st' = (tx_db st)\<lparr>settlement_jobs := settlement_jobs (tx_db st) @ [j], audit_events := audit_events (tx_db st) @ [e]\<rparr>)"
    "\<exists>b. Calculate (or_lib S) (or_calc S) (investment_terms v) = Inr b" "tx_proc st' = tx_proc st"
proof -
  from assms obtain b where b: "Calculate (or_lib S) (or_calc S) (investment_terms v) = Inr b"
    by (auto simp: enqueue_one_def split: sum.splits)
  then show "\<exists>b. Calculate (or_lib S) (or_calc S) (investment_terms v) = Inr b" by blast
  let ?p = "job_params S m v b"
  from assms b obtain job st1 where c: "SettlementJobRepo_CreateIdempotent E ?p st = (Inr (job, ins), st1)"
      and r: "if ins then \<exists>e det c'. PublishJobTransition E (sj_ID job) ActionSettlementJobCreated c' det st1 = (Inr e, st')
              else st' = st1"
    by (fastforce simp: enqueue_one_def bindE_Inr split: if_splits)
  note c = CreateIdempotent_ok [OF c]
  from c(3) show "ins \<longleftrightarrow> \<not> has_job (tx_db st) m" by (auto simp: has_job_def job_params_def)
  from c(4) r show "\<not> ins \<Longrightarrow> tx_db st' = tx_db st" by auto
  have pub: "audited st1 (\<lambda>e. ae_Action e = ActionSettlementJobCreated \<and> ae_EntityID e = sj_ID job) st'" if "ins"
    using r that PublishJobTransition_ok by (fastforce simp: audited_def)
  then show "tx_proc st' = tx_proc st" using c(2) r by (cases ins) (auto simp: audited_def)
  assume ins: "ins"
  with c(5) have "tx_db st1 = (tx_db st)\<lparr>settlement_jobs := settlement_jobs (tx_db st) @ [job]\<rparr>" "job_for S E (m, v) job"
    using b by (auto simp: CreateSettlementJob_Rows job_for_def)
  with pub [OF ins] show "\<exists>j e. job_for S E (m, v) j \<and> ae_Action e = ActionSettlementJobCreated \<and> ae_EntityID e = sj_ID j
        \<and> tx_db st' = (tx_db st)\<lparr>settlement_jobs := settlement_jobs (tx_db st) @ [j], audit_events := audit_events (tx_db st) @ [e]\<rparr>"
    by (auto simp: audited_def)
qed

definition enqueued :: "orch_Service \<Rightarrow> tx_env \<Rightarrow> (MaturitySchedule \<times> Investment) list \<Rightarrow> db \<Rightarrow> SettlementJob list \<Rightarrow> db \<Rightarrow> bool" where
  "enqueued S E rows d js d' \<longleftrightarrow>
     (\<exists>es. d' = d\<lparr>settlement_jobs := settlement_jobs d @ js, audit_events := audit_events d @ es\<rparr>
        \<and> list_all2 (\<lambda>j e. ae_Action e = ActionSettlementJobCreated \<and> ae_EntityID e = sj_ID j) js es)
     \<and> (\<forall>j \<in> set js. \<exists>row \<in> set rows. job_for S E row j \<and> \<not> has_job d (fst row))
     \<and> (\<forall>row \<in> set rows. has_job d' (fst row)
          \<and> (\<exists>b. Calculate (or_lib S) (or_calc S) (investment_terms (snd row)) = Inr b))"

lemma job_for_fields:
  assumes "job_for S E (m, v) j"
  shows "sj_MaturityScheduleID j = ms_ID m" "sj_InvestmentID j = inv_ID v" "sj_Status j = SettlementJobStatusPending"
    "sj_RetryCount j = 0" "sj_PayoutReference j = None" "sj_NextRetryAt j = None"
  using assms unfolding job_for_def by (auto simp: new_job_def job_params_def) (metis SettlementJob.select_convs)+

lemma has_job_append: "has_job d m \<Longrightarrow> has_job (d\<lparr>settlement_jobs := settlement_jobs d @ js, audit_events := es\<rparr>) m"
  by (auto simp: has_job_def)

lemma job_for_has_job:
  "job_for S E (m, v) j \<Longrightarrow> has_job (d\<lparr>settlement_jobs := settlement_jobs d @ [j], audit_events := es\<rparr>) m"
  by (auto simp: has_job_def dest: job_for_fields)

lemma enqueue_loop_ok:
  assumes "enqueue_loop S E rows c st = (Inr c', st')"
  shows "\<exists>js. enqueued S E rows (tx_db st) js (tx_db st') \<and> c' = c + int (length js) \<and> tx_proc st' = tx_proc st"
  using assms
proof (induction rows arbitrary: c st)
  case Nil
  then show ?case by (auto simp: enqueued_def intro!: exI [of _ "[]"])
next
  case (Cons row rows)
  obtain m v where row: "row = (m, v)" by fastforce
  from Cons.prems obtain ins st1 where one: "enqueue_one S E (m, v) st = (Inr ins, st1)"
      and rest: "enqueue_loop S E rows (if ins then c + 1 else c) st1 = (Inr c', st')"
    by (auto simp: bindE_Inr row)
  note one = enqueue_one_ok [OF one]
  from Cons.IH [OF rest] obtain js where js: "enqueued S E rows (tx_db st1) js (tx_db st')"
      "c' = (if ins then c + 1 else c) + int (length js)" "tx_proc st' = tx_proc st1" by blast
  then obtain es where d': "tx_db st' = (tx_db st1)\<lparr>settlement_jobs := settlement_jobs (tx_db st1) @ js,
      audit_events := audit_events (tx_db st1) @ es\<rparr>"
      "list_all2 (\<lambda>j e. ae_Action e = ActionSettlementJobCreated \<and> ae_EntityID e = sj_ID j) js es"
    unfolding enqueued_def by blast
  show ?case
  proof (cases ins)
    case False
    with one have "tx_db st1 = tx_db st" "has_job (tx_db st) m" by auto
    with js d' one(4) False one(5) show ?thesis
      by (intro exI [of _ js]) (auto simp: enqueued_def row intro: has_job_append)
  next
    case True
    with one(3) obtain j e where j: "job_for S E (m, v) j" "ae_Action e = ActionSettlementJobCreated" "ae_EntityID e = sj_ID j"
        and d1: "tx_db st1 = (tx_db st)\<lparr>settlement_jobs := settlement_jobs (tx_db st) @ [j], audit_events := audit_events (tx_db st) @ [e]\<rparr>"
      by blast
    have "has_job (tx_db st1) m" using j(1) d1 by (simp add: job_for_has_job)
    then have "has_job (tx_db st') m" by (simp add: d'(1) has_job_append)
    moreover have "\<not> has_job (tx_db st) m'" if "\<not> has_job (tx_db st1) m'" for m'
      using that d1 by (auto simp: has_job_def)
    with js(1) have "\<forall>k \<in> set js. \<exists>row \<in> set rows. job_for S E row k \<and> \<not> has_job (tx_db st) (fst row)"
      unfolding enqueued_def by meson
    moreover have "\<forall>row \<in> set rows. has_job (tx_db st') (fst row)
        \<and> (\<exists>b. Calculate (or_lib S) (or_calc S) (investment_terms (snd row)) = Inr b)"
      using js(1) unfolding enqueued_def by blast
    moreover have "tx_db st' = (tx_db st)\<lparr>settlement_jobs := settlement_jobs (tx_db st) @ (j # js),
        audit_events := audit_events (tx_db st) @ (e # es)\<rparr>"
      using d'(1) d1 by simp
    ultimately have "enqueued S E (row # rows) (tx_db st) (j # js) (tx_db st')"
      using d'(2) j one(1,4) True unfolding enqueued_def row
      by (intro conjI exI [of _ "e # es"]) auto
    with js(2,3) one(5) True show ?thesis by (intro exI [of _ "j # js"]) simp
  qed
qed

lemma enqueue_body_ok:
  assumes "enqueue_body S E st = (Inr n, st')"
  obtains due js u where "ListDueMaturitySchedules E u (tx_db st) = Rows due (tx_db st)"
    "enqueued S E due (tx_db st) js (tx_db st')" "n = int (length js)"
proof -
  from assms obtain due st1 where q: "run_stmt E ListDueMaturitySchedules st = (Inr due, st1)"
      and l: "enqueue_loop S E due 0 st1 = (Inr n, st')"
    by (auto simp: enqueue_body_def bindE_Inr MaturityRepo_ListDue_def)
  from q have "tx_db st1 = tx_db st" "ListDueMaturitySchedules E (gen_uuid E (tx_stmts st)) (tx_db st) = Rows due (tx_db st)"
    by (auto simp: run_stmt_Inr ListDueMaturitySchedules_def)
  with enqueue_loop_ok [OF l] show thesis by (auto intro: that)
qed

end
