(* ===== verification/Services.thy ===== *)
theory Services
  imports Idempotency Orchestrator
begin

text \<open>
  \<^verbatim>\<open>internal/reconciliation/service.go\<close> and \<^verbatim>\<open>internal/api/services/*.go\<close>: the
  reconciliation flags, and the reads and administrative actions behind the HTTP handlers.
\<close>

section \<open>reconciliation.Service\<close>

definition FlagAmountMismatch :: string where "FlagAmountMismatch = ''amount_mismatch''"
definition FlagMissingLedger :: string where "FlagMissingLedger = ''missing_ledger''"
definition FlagOrphanLedger :: string where "FlagOrphanLedger = ''orphan_ledger''"
definition FlagStalePending :: string where "FlagStalePending = ''stale_pending''"

lemmas flag_defs = FlagAmountMismatch_def FlagMissingLedger_def FlagOrphanLedger_def FlagStalePending_def

definition recon_RunSnapshot :: "tx_env \<Rightarrow> ReconciliationSnapshot txm" where
  "recon_RunSnapshot E = ReconciliationRepo_CreateSnapshot E"

definition FlagsForSnapshot :: "tx_env \<Rightarrow> ReconciliationSnapshot \<Rightarrow> string list txm" where
  "FlagsForSnapshot E snapshot =
     bindE (ReconciliationRepo_FlagCounts E) (\<lambda>counts.
       returnE ((if rs_DiscrepancyCents snapshot \<noteq> 0 then [FlagAmountMismatch] else [])
              @ (if fc_MissingLedger counts > 0 then [FlagMissingLedger] else [])
              @ (if fc_OrphanLedger counts > 0 then [FlagOrphanLedger] else [])
              @ (if fc_StalePending counts > 0 then [FlagStalePending] else [])))"

section \<open>Reads on the pool\<close>

text \<open>A method run on \<^verbatim>\<open>store.Queries()\<close>: every statement commits on its own.\<close>

definition onPool :: "'a txm \<Rightarrow> sys \<Rightarrow> 'a res \<times> sys" where
  "onPool m s = (case m (begin_tx s) of (r, st) \<Rightarrow> (r, s\<lparr>sys_db := tx_db st\<rparr>))"

section \<open>SettlementService\<close>

definition SettlementService_ListJobs :: "tx_env \<Rightarrow> ListSettlementJobsParams \<Rightarrow> sys \<Rightarrow> SettlementJob list res \<times> sys" where
  "SettlementService_ListJobs E flt s = onPool (SettlementJobRepo_List E flt) s"

definition SettlementService_GetJob :: "tx_env \<Rightarrow> uuid \<Rightarrow> sys \<Rightarrow> SettlementJob res \<times> sys" where
  "SettlementService_GetJob E jobID s = onPool (SettlementJobRepo_GetByID E jobID) s"

definition SettlementService_ListAttempts :: "tx_env \<Rightarrow> tx_env \<Rightarrow> uuid \<Rightarrow> sys \<Rightarrow> PayoutAttempt list res \<times> sys" where
  "SettlementService_ListAttempts E E' jobID s =
     (case SettlementService_GetJob E jobID s of
        (Inl err, s') \<Rightarrow> (Inl err, s')
      | (Inr _, s') \<Rightarrow> onPool (PayoutAttemptRepo_ListByJobID E' jobID) s')"

definition admin_event :: "string \<Rightarrow> string \<Rightarrow> uuid \<Rightarrow> string \<Rightarrow> SettlementJobStatus \<Rightarrow> SettlementJobStatus \<Rightarrow> EventInput" where
  "admin_event actorID action jobID correlationID old new =
     \<lparr>ev_ActorType = AuditActorTypeAdmin, ev_ActorID = actorID, ev_Action = action, ev_EntityType = ''settlement_job'',
      ev_EntityID = jobID,
      ev_Payload = Some [(''previous_status'', JStr (status_text old)), (''new_status'', JStr (status_text new))],
      ev_CorrelationID = correlationID\<rparr>"

definition replay_body :: "tx_env \<Rightarrow> uuid \<Rightarrow> string \<Rightarrow> string \<Rightarrow> SettlementJob txm" where
  "replay_body E jobID actorID correlationID =
     bindE (SettlementJobRepo_GetByID E jobID) (\<lambda>existing.
       if sj_Status existing \<noteq> SettlementJobStatusDeadLetter
       then failE (WrapPost ErrConflict ''job must be dead_letter, current status is %s'' [ArgStr (status_text (sj_Status existing))])
       else bindE (SettlementJobRepo_ReplayDeadLetter E jobID) (\<lambda>job.
            bindE (Publish E (admin_event actorID ActionSettlementJobReplayed jobID correlationID
                     SettlementJobStatusDeadLetter (sj_Status job))) (\<lambda>_. returnE job)))"

definition SettlementService_ReplayDeadLetter :: "tx_env \<Rightarrow> uuid \<Rightarrow> string \<Rightarrow> string \<Rightarrow> sys \<Rightarrow> SettlementJob res \<times> sys" where
  "SettlementService_ReplayDeadLetter E jobID actorID correlationID s = WithTx E (replay_body E jobID actorID correlationID) s"

definition requeue_body :: "tx_env \<Rightarrow> uuid \<Rightarrow> string \<Rightarrow> string \<Rightarrow> SettlementJob txm" where
  "requeue_body E jobID actorID correlationID =
     bindE (SettlementJobRepo_GetByID E jobID) (\<lambda>existing.
       if sj_Status existing \<noteq> SettlementJobStatusFailed
       then failE (WrapPost ErrConflict ''job must be failed, current status is %s'' [ArgStr (status_text (sj_Status existing))])
       else bindE (SettlementJobRepo_RequeueFailed E jobID) (\<lambda>job.
            bindE (Publish E (admin_event actorID ''settlement_job.requeued'' jobID correlationID
                     SettlementJobStatusFailed (sj_Status job))) (\<lambda>_. returnE job)))"

definition SettlementService_RequeueFailed :: "tx_env \<Rightarrow> uuid \<Rightarrow> string \<Rightarrow> string \<Rightarrow> sys \<Rightarrow> SettlementJob res \<times> sys" where
  "SettlementService_RequeueFailed E jobID actorID correlationID s = WithTx E (requeue_body E jobID actorID correlationID) s"

section \<open>ReconciliationService, LedgerService, AuditService, AdminService\<close>

definition snapshot_body :: "tx_env \<Rightarrow> (ReconciliationSnapshot \<times> string list) txm" where
  "snapshot_body E =
     bindE (recon_RunSnapshot E) (\<lambda>snapshot.
     bindE (FlagsForSnapshot E snapshot) (\<lambda>flags. returnE (snapshot, flags)))"

definition ReconciliationService_RunSnapshot :: "tx_env \<Rightarrow> sys \<Rightarrow> (ReconciliationSnapshot \<times> string list) res \<times> sys" where
  "ReconciliationService_RunSnapshot E s = WithTx E (snapshot_body E) s"

definition ReconciliationService_GetLatest :: "tx_env \<Rightarrow> tx_env \<Rightarrow> sys \<Rightarrow> (ReconciliationSnapshot \<times> string list) res \<times> sys" where
  "ReconciliationService_GetLatest E E' s =
     (case onPool (ReconciliationRepo_GetLatest E) s of
        (Inl err, s') \<Rightarrow> (Inl err, s')
      | (Inr snapshot, s') \<Rightarrow>
          (case onPool (FlagsForSnapshot E' snapshot) s' of
             (Inl err, s'') \<Rightarrow> (Inl err, s'')
           | (Inr flags, s'') \<Rightarrow> (Inr (snapshot, flags), s'')))"

definition flagsFromSnapshot :: "ReconciliationSnapshot \<Rightarrow> string list" where
  "flagsFromSnapshot snapshot = (if rs_DiscrepancyCents snapshot \<noteq> 0 then [FlagAmountMismatch] else [])"

definition ReconciliationService_List :: "tx_env \<Rightarrow> gotime option \<Rightarrow> uuid option \<Rightarrow> int \<Rightarrow> sys
    \<Rightarrow> (ReconciliationSnapshot \<times> string list) list res \<times> sys" where
  "ReconciliationService_List E cursorTime cursorID limit s =
     (case onPool (ReconciliationRepo_List E cursorTime cursorID limit) s of
        (Inl err, s') \<Rightarrow> (Inl err, s')
      | (Inr snapshots, s') \<Rightarrow> (Inr (map (\<lambda>x. (x, flagsFromSnapshot x)) snapshots), s'))"

definition LedgerService_ListEntries :: "tx_env \<Rightarrow> ListLedgerEntriesParams \<Rightarrow> sys \<Rightarrow> LedgerEntry list res \<times> sys" where
  "LedgerService_ListEntries E flt s = onPool (LedgerRepo_List E flt) s"

definition LedgerService_ListAccounts :: "tx_env \<Rightarrow> sys \<Rightarrow> LedgerAccount list res \<times> sys" where
  "LedgerService_ListAccounts E s = onPool (LedgerRepo_ListAccounts E) s"

definition AuditService_ListEvents :: "tx_env \<Rightarrow> ListAuditEventsParams \<Rightarrow> sys \<Rightarrow> AuditEvent list res \<times> sys" where
  "AuditService_ListEvents E flt s = onPool (AuditRepo_List E flt) s"

definition TriggerSchedulerScan :: "Scheduler \<Rightarrow> tx_env \<Rightarrow> sys \<Rightarrow> int res \<times> sys" where
  "TriggerSchedulerScan sc E s = TickOnce sc E s"

section \<open>What the services respect\<close>

context engine_store
begin

lemma onPool_keeps: "keeps R m \<Longrightarrow> R (sys_db s) (sys_db (snd (onPool m s)))"
  by (auto simp: onPool_def keeps_def begin_tx_def split: prod.splits) (metis snd_conv tx.select_convs(1))

lemma ReplayDeadLetter_keeps: "R (sys_db s) (sys_db (snd (SettlementService_ReplayDeadLetter E i a c s)))"
  unfolding SettlementService_ReplayDeadLetter_def replay_body_def
  by (intro WithTx_keeps keeps_bind) (auto intro!: tx_intros)

lemma RequeueFailed_keeps: "R (sys_db s) (sys_db (snd (SettlementService_RequeueFailed E i a c s)))"
  unfolding SettlementService_RequeueFailed_def requeue_body_def
  by (intro WithTx_keeps keeps_bind) (auto intro!: tx_intros)

lemma FlagsForSnapshot_keeps [tx_intros]: "keeps R (FlagsForSnapshot E x)"
  unfolding FlagsForSnapshot_def by (intro tx_intros)

lemma RunSnapshot_keeps: "R (sys_db s) (sys_db (snd (ReconciliationService_RunSnapshot E s)))"
  unfolding ReconciliationService_RunSnapshot_def snapshot_body_def recon_RunSnapshot_def
  by (intro WithTx_keeps tx_intros)

end

section \<open>Administrative transitions\<close>

lemma GetByID_Inr:
  "SettlementJobRepo_GetByID E i st = (Inr j, st') \<Longrightarrow>
     find (\<lambda>j. sj_ID j = i) (settlement_jobs (tx_db st)) = Some j \<and> tx_db st' = tx_db st \<and> tx_proc st' = tx_proc st"
  by (auto simp: SettlementJobRepo_GetByID_def run_stmt_Inr GetSettlementJobByID_def split: option.splits)

lemma find_job_status:
  assumes "jobs_ok d" "find (\<lambda>j. sj_ID j = i \<and> sj_Status j = st) (settlement_jobs d) = Some j"
  shows "j \<in> set (settlement_jobs d)" "sj_ID j = i" "sj_Status j = st"
  using find_eq_SomeD [OF assms(2)] by auto

lemma replay_body_ok:
  assumes "replay_body E i a c st = (Inr job, st')"
  obtains j v where "j \<in> set (settlement_jobs (tx_db st))" "sj_ID j = i" "sj_Status j = SettlementJobStatusDeadLetter"
    "job = job_replayed E j" "ae_Action v = ActionSettlementJobReplayed" "ae_ActorID v = a" "ae_EntityID v = i"
    "tx_db st' = (replace_job (job_replayed E j) (tx_db st))\<lparr>audit_events := audit_events (tx_db st) @ [v]\<rparr>"
proof -
  from assms obtain ex st1 st2 v where "SettlementJobRepo_GetByID E i st = (Inr ex, st1)"
      and r: "run_stmt E (ReplayDeadLetterJob i) st1 = (Inr job, st2)"
      and p: "Publish E (admin_event a ActionSettlementJobReplayed i c SettlementJobStatusDeadLetter (sj_Status job)) st2 = (Inr v, st')"
    by (auto simp: replay_body_def bindE_Inr SettlementJobRepo_ReplayDeadLetter_def split: if_splits)
  then have d1: "tx_db st1 = tx_db st" by (blast dest: GetByID_Inr)
  from r d1 obtain j where "find (\<lambda>j. sj_ID j = i \<and> sj_Status j = SettlementJobStatusDeadLetter) (settlement_jobs (tx_db st)) = Some j"
      "job = job_replayed E j" "tx_db st2 = replace_job (job_replayed E j) (tx_db st)"
    by (auto simp: run_stmt_Inr ReplayDeadLetterJob_def update_job_Rows)
  with p show thesis
    by (intro that [of j v]) (auto simp: Publish_Inr event_of_def admin_event_def dest!: find_eq_SomeD)
qed

lemma requeue_body_ok:
  assumes "requeue_body E i a c st = (Inr job, st')"
  obtains j v where "j \<in> set (settlement_jobs (tx_db st))" "sj_ID j = i" "sj_Status j = SettlementJobStatusFailed"
    "job = job_requeued E j" "ae_ActorID v = a" "ae_EntityID v = i"
    "tx_db st' = (replace_job (job_requeued E j) (tx_db st))\<lparr>audit_events := audit_events (tx_db st) @ [v]\<rparr>"
proof -
  from assms obtain ex st1 st2 v where "SettlementJobRepo_GetByID E i st = (Inr ex, st1)"
      and r: "run_stmt E (RequeueFailedJob i) st1 = (Inr job, st2)"
      and p: "Publish E (admin_event a ''settlement_job.requeued'' i c SettlementJobStatusFailed (sj_Status job)) st2 = (Inr v, st')"
    by (auto simp: requeue_body_def bindE_Inr SettlementJobRepo_RequeueFailed_def split: if_splits)
  then have d1: "tx_db st1 = tx_db st" by (blast dest: GetByID_Inr)
  from r d1 obtain j where "find (\<lambda>j. sj_ID j = i \<and> sj_Status j = SettlementJobStatusFailed) (settlement_jobs (tx_db st)) = Some j"
      "job = job_requeued E j" "tx_db st2 = replace_job (job_requeued E j) (tx_db st)"
    by (auto simp: run_stmt_Inr RequeueFailedJob_def update_job_Rows)
  with p show thesis
    by (intro that [of j v]) (auto simp: Publish_Inr event_of_def admin_event_def dest!: find_eq_SomeD)
qed

section \<open>Snapshots\<close>

lemma CreateSnapshot_ok:
  assumes "ReconciliationRepo_CreateSnapshot E st = (Inr x, st')"
  obtains stats u u' where "AggregateSettlementJobStats E u (tx_db st) = Rows stats (tx_db st)"
    "x = new_snapshot
       \<lparr>cr_ExpectedJobCount = ag_TotalJobCount stats, cr_ExpectedTotalCents = ag_ExpectedTotalCents stats,
        cr_SucceededCount = ag_SucceededCount stats, cr_SucceededTotalCents = ag_SucceededTotalCents stats,
        cr_PendingCount = ag_PendingCount stats, cr_FailedCount = ag_FailedCount stats,
        cr_DeadLetterCount = ag_DeadLetterCount stats,
        cr_DiscrepancyCents = wrap64 (ag_ExpectedTotalCents stats - ag_SucceededTotalCents stats), cr_Details = rs_Details x\<rparr> E u'"
    "tx_db st' = (tx_db st)\<lparr>reconciliation_snapshots := reconciliation_snapshots (tx_db st) @ [x]\<rparr>"
proof -
  from assms obtain stats st1 det where q: "run_stmt E AggregateSettlementJobStats st = (Inr stats, st1)"
      and c: "run_stmt E (CreateReconciliationSnapshot
       \<lparr>cr_ExpectedJobCount = ag_TotalJobCount stats, cr_ExpectedTotalCents = ag_ExpectedTotalCents stats,
        cr_SucceededCount = ag_SucceededCount stats, cr_SucceededTotalCents = ag_SucceededTotalCents stats,
        cr_PendingCount = ag_PendingCount stats, cr_FailedCount = ag_FailedCount stats,
        cr_DeadLetterCount = ag_DeadLetterCount stats,
        cr_DiscrepancyCents = wrap64 (ag_ExpectedTotalCents stats - ag_SucceededTotalCents stats), cr_Details = det\<rparr>) st1 = (Inr x, st')"
    by (auto simp: ReconciliationRepo_CreateSnapshot_def bindE_Inr Let_def)
  from q have d1: "tx_db st1 = tx_db st" "AggregateSettlementJobStats E (gen_uuid E (tx_stmts st)) (tx_db st) = Rows stats (tx_db st)"
    by (auto simp: run_stmt_Inr dest: reads_unchanged)
  from c d1(1) have "x = new_snapshot
       \<lparr>cr_ExpectedJobCount = ag_TotalJobCount stats, cr_ExpectedTotalCents = ag_ExpectedTotalCents stats,
        cr_SucceededCount = ag_SucceededCount stats, cr_SucceededTotalCents = ag_SucceededTotalCents stats,
        cr_PendingCount = ag_PendingCount stats, cr_FailedCount = ag_FailedCount stats,
        cr_DeadLetterCount = ag_DeadLetterCount stats,
        cr_DiscrepancyCents = wrap64 (ag_ExpectedTotalCents stats - ag_SucceededTotalCents stats), cr_Details = rs_Details x\<rparr> E
        (gen_uuid E (tx_stmts st1))"
      "tx_db st' = (tx_db st)\<lparr>reconciliation_snapshots := reconciliation_snapshots (tx_db st) @ [x]\<rparr>"
    by (auto simp: run_stmt_Inr CreateReconciliationSnapshot_def new_snapshot_def split: if_splits)
  with d1(2) show thesis by (rule that)
qed

lemma FlagsForSnapshot_ok:
  assumes "FlagsForSnapshot E x st = (Inr flags, st')"
  shows "tx_db st' = tx_db st" "FlagAmountMismatch \<in> set flags \<longleftrightarrow> rs_DiscrepancyCents x \<noteq> 0"
    "FlagMissingLedger \<in> set flags \<longleftrightarrow>
       (\<exists>j \<in> set (settlement_jobs (tx_db st)). sj_Status j = SettlementJobStatusSucceeded \<and> \<not> has_entries (tx_db st) (sj_ID j))"
    "FlagOrphanLedger \<in> set flags \<longleftrightarrow> (\<exists>e \<in> set (ledger_entries (tx_db st)).
       \<not> (\<exists>j \<in> set (settlement_jobs (tx_db st)). sj_ID j = le_SettlementJobID e \<and> sj_Status j = SettlementJobStatusSucceeded))"
proof -
  define M where "M = filter (\<lambda>j. sj_Status j = SettlementJobStatusSucceeded \<and> \<not> has_entries (tx_db st) (sj_ID j)) (settlement_jobs (tx_db st))"
  define Q where "Q = filter (\<lambda>e. \<not> (\<exists>j \<in> set (settlement_jobs (tx_db st)). sj_ID j = le_SettlementJobID e
      \<and> sj_Status j = SettlementJobStatusSucceeded)) (ledger_entries (tx_db st))"
  from assms obtain counts where c: "ReconciliationRepo_FlagCounts E st = (Inr counts, st')"
      and f: "flags = (if rs_DiscrepancyCents x \<noteq> 0 then [FlagAmountMismatch] else [])
              @ (if fc_MissingLedger counts > 0 then [FlagMissingLedger] else [])
              @ (if fc_OrphanLedger counts > 0 then [FlagOrphanLedger] else [])
              @ (if fc_StalePending counts > 0 then [FlagStalePending] else [])"
    by (auto simp: FlagsForSnapshot_def bindE_Inr)
  from c have n: "tx_db st' = tx_db st \<and> fc_MissingLedger counts = int (length M)
      \<and> fc_OrphanLedger counts = int (length (remdups (map le_SettlementJobID Q)))"
    by (auto simp: ReconciliationRepo_FlagCounts_def tx_success CountSucceededJobsWithoutLedger_def
        CountOrphanLedgerJobGroups_def CountStalePendingJobs_def int_count_def M_def Q_def split: if_splits)
  then show "tx_db st' = tx_db st" by simp
  have "FlagAmountMismatch \<in> set flags \<longleftrightarrow> rs_DiscrepancyCents x \<noteq> 0"
      "FlagMissingLedger \<in> set flags \<longleftrightarrow> M \<noteq> []" "FlagOrphanLedger \<in> set flags \<longleftrightarrow> Q \<noteq> []"
    using n by (auto simp: f flag_defs)
  then show "FlagAmountMismatch \<in> set flags \<longleftrightarrow> rs_DiscrepancyCents x \<noteq> 0"
    "FlagMissingLedger \<in> set flags \<longleftrightarrow>
       (\<exists>j \<in> set (settlement_jobs (tx_db st)). sj_Status j = SettlementJobStatusSucceeded \<and> \<not> has_entries (tx_db st) (sj_ID j))"
    "FlagOrphanLedger \<in> set flags \<longleftrightarrow> (\<exists>e \<in> set (ledger_entries (tx_db st)).
       \<not> (\<exists>j \<in> set (settlement_jobs (tx_db st)). sj_ID j = le_SettlementJobID e \<and> sj_Status j = SettlementJobStatusSucceeded))"
    by (auto simp: M_def Q_def filter_empty_conv)
qed

lemma snapshot_body_ok:
  assumes "snapshot_body E st = (Inr (x, flags), st')"
  obtains st1 where "ReconciliationRepo_CreateSnapshot E st = (Inr x, st1)" "FlagsForSnapshot E x st1 = (Inr flags, st')"
  using assms by (auto simp: snapshot_body_def recon_RunSnapshot_def bindE_Inr)

text \<open>The totals of the jobs, by status.\<close>

lemma count_status_total:
  "count_status SettlementJobStatusPending d + count_status SettlementJobStatusProcessing d
   + count_status SettlementJobStatusFailed d + count_status SettlementJobStatusDeadLetter d
   + count_status SettlementJobStatusSucceeded d = int (length (settlement_jobs d))"
proof -
  have "int (length (filter (\<lambda>j. sj_Status j = SettlementJobStatusPending) js))
      + int (length (filter (\<lambda>j. sj_Status j = SettlementJobStatusProcessing) js))
      + int (length (filter (\<lambda>j. sj_Status j = SettlementJobStatusFailed) js))
      + int (length (filter (\<lambda>j. sj_Status j = SettlementJobStatusDeadLetter) js))
      + int (length (filter (\<lambda>j. sj_Status j = SettlementJobStatusSucceeded) js)) = int (length js)" for js
  proof (induction js)
    case (Cons j js)
    then show ?case by (cases "sj_Status j") simp_all
  qed simp
  then show ?thesis by (simp add: count_status_def)
qed

lemma total_net_split:
  "total_net js = total_net (filter P js) + total_net (filter (\<lambda>j. \<not> P j) js)"
  by (induction js) (auto simp: total_net_def)

end
