(* ===== verification/System.thy ===== *)
theory System
  imports Worker_Runs Services
begin

text \<open>
  The engine as a whole: the scheduler, the reaper, the workers and the administrative endpoints as
  steps on one database, and the invariant of the settlement: a job is succeeded exactly when the
  ledger has its posting and its maturity is settled.
\<close>

section \<open>The invariant\<close>

definition settled :: "golib \<Rightarrow> db \<Rightarrow> SettlementJob \<Rightarrow> bool" where
  "settled L d j \<longleftrightarrow>
     (\<exists>v \<in> set (investments d). inv_ID v = sj_InvestmentID j
        \<and> Breakdown_Validate (job_breakdown j (inv_Currency v)) = Inr ()
        \<and> settlement_entries L d (sj_ID j) (inv_InvestorID v) (job_breakdown j (inv_Currency v)) (entries_of d (sj_ID j)))
     \<and> (\<exists>m \<in> set (maturity_schedules d). ms_ID m = sj_MaturityScheduleID j \<and> ms_Status m = MaturityStatusSettled)"

definition job_inv :: "golib \<Rightarrow> db \<Rightarrow> SettlementJob \<Rightarrow> bool" where
  "job_inv L d j \<longleftrightarrow> sj_Status j \<noteq> SettlementJobStatusProcessing
     \<and> (if sj_Status j = SettlementJobStatusSucceeded then settled L d j else entries_of d (sj_ID j) = [])"

definition engine_inv :: "golib \<Rightarrow> db \<Rightarrow> bool" where
  "engine_inv L d \<longleftrightarrow> schema_ok d \<and> (\<forall>j \<in> set (settlement_jobs d). job_inv L d j)"

text \<open>The jobs a step does not touch keep their part of the invariant.\<close>

lemma job_inv_frame:
  assumes "job_inv L d j" "investments d' = investments d" "accounts_grow d d'"
    and "entries_of d' (sj_ID j) = entries_of d (sj_ID j)"
    and "\<And>m. m \<in> set (maturity_schedules d) \<Longrightarrow> ms_Status m = MaturityStatusSettled \<Longrightarrow>
           \<exists>m' \<in> set (maturity_schedules d'). ms_ID m' = ms_ID m \<and> ms_Status m' = MaturityStatusSettled"
  shows "job_inv L d' j"
proof -
  have "settlement_entries L d' i iv b es" if "settlement_entries L d i iv b es" for i iv b es
    using that assms(3) unfolding settlement_entries_def by (auto elim: list_all2_mono intro: posted_grow)
  moreover have "(\<exists>m \<in> set (maturity_schedules d'). ms_ID m = i \<and> ms_Status m = MaturityStatusSettled)"
    if "\<exists>m \<in> set (maturity_schedules d). ms_ID m = i \<and> ms_Status m = MaturityStatusSettled" for i
    using that assms(5) by fastforce
  ultimately show ?thesis
    using assms(1) unfolding job_inv_def settled_def assms(2,4) by (auto split: if_splits)
qed

lemma entries_of_replace [simp]: "entries_of (replace_job j d) i = entries_of d i"
  by (simp add: entries_of_def)

lemma accounts_grow_same: "ledger_accounts d' = ledger_accounts d \<Longrightarrow> accounts_grow d d'"
  by (auto simp: accounts_grow_def)

lemma claim_status:
  "claim_candidate E d = Some j \<Longrightarrow> sj_Status j \<noteq> SettlementJobStatusSucceeded"
  using claim_candidate_SomeD(2) [of E d j] by (auto simp: claimable_def)

text \<open>A step that replaces one row of \<^verbatim>\<open>settlement_jobs\<close> and leaves the ledger alone.\<close>

lemma replace_engine_inv:
  assumes inv: "engine_inv L d" and d': "settlement_jobs d' = settlement_jobs (replace_job j' d)"
      "investments d' = investments d" "maturity_schedules d' = maturity_schedules d"
      "ledger_accounts d' = ledger_accounts d" "ledger_entries d' = ledger_entries d"
    and ok: "schema_ok d'"
    and j: "j \<in> set (settlement_jobs d)" "sj_ID j' = sj_ID j" "sj_Status j \<noteq> SettlementJobStatusSucceeded"
      "sj_Status j' \<noteq> SettlementJobStatusSucceeded" "sj_Status j' \<noteq> SettlementJobStatusProcessing"
  shows "engine_inv L d'"
  unfolding engine_inv_def
proof (intro conjI ok ballI)
  fix k assume k: "k \<in> set (settlement_jobs d')"
  have ent: "entries_of d' i = entries_of d i" for i by (simp add: entries_of_def d')
  show "job_inv L d' k"
  proof (cases "k = j'")
    case True
    with inv j ent show ?thesis by (auto simp: engine_inv_def job_inv_def)
  next
    case False
    with k d'(1) set_replace_job [OF j(1,2)] have "k \<in> set (settlement_jobs d)" by auto
    with inv have "job_inv L d k" by (simp add: engine_inv_def)
    then show ?thesis by (rule job_inv_frame) (use d' ent in \<open>auto intro: accounts_grow_same\<close>)
  qed
qed

section \<open>The worker\<close>

lemma begin_tx_simps [simp]:
  "tx_db (begin_tx s) = sys_db s" "tx_proc (begin_tx s) = sys_proc s" "tx_aborted (begin_tx s) = False"
  "tx_stmts (begin_tx s) = 0"
  by (simp_all add: begin_tx_def)

lemma errored_inv:
  assumes "engine_inv L d" "flight_ok E d j v a" "errored P E w d j v a d'" "schema_ok d'"
  shows "engine_inv L d'"
proof -
  from assms(3) obtain j' as vs where d': "d' = (replace_job j' d)\<lparr>payout_attempts := as, audit_events := vs\<rparr>"
      and j': "sj_ID j' = sj_ID j" "sj_Status j' = SettlementJobStatusDeadLetter \<or> sj_Status j' = SettlementJobStatusFailed"
    by (auto simp: errored_def Let_def split: if_splits)
  have "sj_Status j \<noteq> SettlementJobStatusSucceeded"
    using assms(2) claim_status by (auto simp: flight_ok_def)
  with j' flight_okD(5) [OF assms(2)] show ?thesis
    by (intro replace_engine_inv [OF assms(1) _ _ _ _ _ assms(4), of j' j]) (auto simp: d')
qed

lemma settle_maturity_keeps:
  "m \<in> set ms \<Longrightarrow> ms_Status m = MaturityStatusSettled \<Longrightarrow>
   \<exists>m' \<in> set (settle_maturity E i ms). ms_ID m' = ms_ID m \<and> ms_Status m' = MaturityStatusSettled"
  by (rule bexI [of _ "if ms_ID m = i then maturity_settled E m else m"])
     (auto simp: settle_maturity_def maturity_settled_def)

lemma settle_maturity_done:
  "m \<in> set ms \<Longrightarrow> ms_ID m = i \<Longrightarrow>
   \<exists>m' \<in> set (settle_maturity E i ms). ms_ID m' = i \<and> ms_Status m' = MaturityStatusSettled"
  by (rule bexI [of _ "maturity_settled E m"]) (auto simp: settle_maturity_def maturity_settled_def)

lemma paid_inv:
  assumes inv: "engine_inv (wp_lib P) d" and f: "flight_ok E d j v a" and p: "paid P E w d j v a d'" and ok: "schema_ok d'"
  shows "engine_inv (wp_lib P) d'"
  unfolding engine_inv_def
proof (intro conjI ok ballI)
  let ?L = "wp_lib P" and ?b = "job_breakdown j (inv_Currency v)"
  have st: "sj_Status j \<noteq> SettlementJobStatusSucceeded" using f claim_status by (auto simp: flight_ok_def)
  note jd = flight_okD(5) [OF f]
  with inv st have none: "entries_of d (sj_ID j) = []" by (auto simp: engine_inv_def job_inv_def)
  define ref where "ref = pr_PayoutReference (wp_gateway P (execute_input j v a))"
  define j' where "j' = job_succeeded E ref (claimed E w j)"
  from p none obtain as es vs m where d': "d' = (replace_job j' d)\<lparr>
        maturity_schedules := settle_maturity E (sj_MaturityScheduleID j) (maturity_schedules d),
        payout_attempts := payout_attempts d @ [attempt_succeeded E ref a],
        ledger_accounts := as, ledger_entries := ledger_entries d @ es, audit_events := audit_events d @ vs\<rparr>"
      and b: "Breakdown_Validate ?b = Inr ()"
      and m: "m \<in> set (maturity_schedules d)" "ms_ID m = sj_MaturityScheduleID j"
      and grow: "accounts_grow d d'"
      and ent: "settlement_entries ?L d' (sj_ID j) (inv_InvestorID v) ?b es"
    unfolding paid_def Let_def ref_def [symmetric] j'_def [symmetric] by auto
  from ent have es: "\<forall>e \<in> set es. le_SettlementJobID e = sj_ID j"
    by (auto simp: settlement_entries_def posted_def list_all2_conv_all_nth in_set_conv_nth)
  fix k assume k: "k \<in> set (settlement_jobs d')"
  have sj: "sj_ID j' = sj_ID j" by (simp add: j'_def)
  show "job_inv ?L d' k"
  proof (cases "k = j'")
    case True
    have "entries_of d' (sj_ID j) = es" using none es by (simp add: entries_of_def d' filter_id_conv)
    moreover have "job_breakdown j' c = job_breakdown j c" "sj_InvestmentID j' = sj_InvestmentID j"
        "sj_MaturityScheduleID j' = sj_MaturityScheduleID j" "sj_Status j' = SettlementJobStatusSucceeded" for c
      by (simp_all add: j'_def job_breakdown_def job_succeeded_def claimed_def)
    moreover have "v \<in> set (investments d')" "inv_ID v = sj_InvestmentID j" using f by (simp_all add: flight_ok_def d')
    moreover have "\<exists>m' \<in> set (maturity_schedules d'). ms_ID m' = sj_MaturityScheduleID j \<and> ms_Status m' = MaturityStatusSettled"
      using settle_maturity_done [OF m] by (simp add: d')
    ultimately show ?thesis
      using ent b unfolding True job_inv_def settled_def by (auto simp: sj)
  next
    case False
    with k set_replace_job [OF jd sj] have kd: "k \<in> set (settlement_jobs d)" "sj_ID k \<noteq> sj_ID j"
      by (auto simp: d' sj)
    with inv have "job_inv ?L d k" by (simp add: engine_inv_def)
    then show ?thesis
    proof (rule job_inv_frame [OF _ _ grow])
      show "entries_of d' (sj_ID k) = entries_of d (sj_ID k)"
        using es kd(2) by (auto simp: entries_of_def d' filter_empty_conv)
    qed (use settle_maturity_keeps in \<open>auto simp: d'\<close>)
  qed
qed

lemma schema_steps:
  "schema_ok (sys_db s) \<Longrightarrow> schema_ok (sys_db (snd (ProcessOne P E w s)))"
  "schema_ok (sys_db s) \<Longrightarrow> schema_ok (sys_db (snd (EnqueueDueMaturities S E s)))"
  "schema_ok (sys_db s) \<Longrightarrow> schema_ok (sys_db (reapStaleLeases sc E s))"
  "schema_ok (sys_db s) \<Longrightarrow> schema_ok (sys_db (snd (SettlementService_ReplayDeadLetter E i a c s)))"
  "schema_ok (sys_db s) \<Longrightarrow> schema_ok (sys_db (snd (SettlementService_RequeueFailed E i a c s)))"
  "schema_ok (sys_db s) \<Longrightarrow> schema_ok (sys_db (snd (ReconciliationService_RunSnapshot E s)))"
  using schema.ProcessOne_keeps [of s P E w] schema.EnqueueDueMaturities_keeps [of s S E]
    schema.reapStaleLeases_keeps [of s sc E] schema.ReplayDeadLetter_keeps [of s E i a c]
    schema.RequeueFailed_keeps [of s E i a c] schema.RunSnapshot_keeps [of s E]
  by (simp_all add: schema_step_def)

lemma ProcessOne_inv:
  assumes "engine_inv (wp_lib P) (sys_db s)"
  shows "engine_inv (wp_lib P) (sys_db (snd (ProcessOne P E w s)))"
proof -
  obtain r s' where run: "WithTx E (process_body P E w) s = (r, s')" by fastforce
  have ok: "schema_ok (sys_db s)" "schema_ok (sys_db s')"
    using assms schema_steps(1) [of s P E w] run by (auto simp: engine_inv_def ProcessOne_def)
  from run have "engine_inv (wp_lib P) (sys_db s')"
  proof (cases rule: WithTx_cases)
    case (applied x st)
    have "schema_ok (tx_db (begin_tx s))" "process_body P E w (begin_tx s) = (Inr (), st)"
      using ok applied(1) by simp_all
    from process_body_ok [OF this(2,1), unfolded begin_tx_simps applied(3) [symmetric]] obtain j v a where f: "flight_ok E (sys_db s) j v a"
        and o: "if pr_Err (wp_gateway P (execute_input j v a)) = None then paid P E w (sys_db s) j v a (sys_db s')
                else errored P E w (sys_db s) j v a (sys_db s')"
      by metis
    with assms ok(2) show ?thesis by (auto split: if_splits intro: paid_inv errored_inv)
  qed (use assms in simp)
  with run show ?thesis by (simp add: ProcessOne_def)
qed

section \<open>The scheduler and the reaper\<close>

lemma enqueued_inv:
  assumes inv: "engine_inv L d" and e: "enqueued S E rows d js d'" and ok: "schema_ok d'"
  shows "engine_inv L d'"
  unfolding engine_inv_def
proof (intro conjI ok ballI)
  from e obtain es where d': "d' = d\<lparr>settlement_jobs := settlement_jobs d @ js, audit_events := audit_events d @ es\<rparr>"
    by (auto simp: enqueued_def)
  have ent: "entries_of d' i = entries_of d i" for i by (simp add: entries_of_def d')
  fix k assume k: "k \<in> set (settlement_jobs d')"
  show "job_inv L d' k"
  proof (cases "k \<in> set (settlement_jobs d)")
    case True
    with inv have "job_inv L d k" by (simp add: engine_inv_def)
    then show ?thesis by (rule job_inv_frame) (use ent in \<open>auto simp: d' accounts_grow_def\<close>)
  next
    case False
    with k have kj: "k \<in> set js" by (simp add: d')
    with e obtain m v where "job_for S E (m, v) k" by (auto simp: enqueued_def)
    then have st: "sj_Status k = SettlementJobStatusPending" by (rule job_for_fields)
    have "sj_ID k \<notin> sj_ID ` set (settlement_jobs d)"
      using ok kj by (auto simp: schema_ok_def jobs_ok_def d')
    moreover have "\<forall>e \<in> set (ledger_entries d). le_SettlementJobID e \<in> sj_ID ` set (settlement_jobs d)"
      using inv by (auto simp: engine_inv_def schema_ok_def ledger_ok_def)
    ultimately have "entries_of d (sj_ID k) = []" unfolding entries_of_def filter_empty_conv by metis
    with st ent show ?thesis by (simp add: job_inv_def)
  qed
qed

lemma EnqueueDueMaturities_inv:
  assumes "engine_inv L (sys_db s)"
  shows "engine_inv L (sys_db (snd (EnqueueDueMaturities S E s)))"
proof -
  obtain r s' where run: "WithTx E (enqueue_body S E) s = (r, s')" by fastforce
  have db: "sys_db (snd (EnqueueDueMaturities S E s)) = sys_db s'"
    using run by (auto simp: EnqueueDueMaturities_def split: sum.splits)
  have ok: "schema_ok (sys_db s')"
    using assms schema_steps(2) [of s S E] by (simp add: engine_inv_def db)
  from run have "engine_inv L (sys_db s')"
  proof (cases rule: WithTx_cases)
    case (applied x st)
    from enqueue_body_ok [OF applied(1), unfolded begin_tx_simps applied(3) [symmetric]]
    obtain due js where "enqueued S E due (sys_db s) js (sys_db s')" by metis
    from enqueued_inv [OF assms this ok] show ?thesis .
  qed (use assms in simp)
  with db show ?thesis by simp
qed

text \<open>Between transactions no job is leased, so the reaper finds nothing.\<close>

lemma WithTx_error:
  "fn (begin_tx s) = (Inl e, st) \<Longrightarrow> tx_proc st = sys_proc s \<Longrightarrow> snd (WithTx E fn s) = s"
  by (simp add: WithTx_def)

lemma reap_noop:
  assumes "\<forall>j \<in> set (settlement_jobs (sys_db s)). sj_Status j \<noteq> SettlementJobStatusProcessing"
  shows "reapStaleLeases sc E s = s"
proof -
  have "filter (lease_stale t) (settlement_jobs (sys_db s)) = []"
      "map (\<lambda>j. if lease_stale t j then lease_expired E j else j) (settlement_jobs (sys_db s)) = settlement_jobs (sys_db s)" for t
    using assms by (auto simp: filter_empty_conv lease_stale_def intro: map_if_id)
  then have exp: "ExpireStaleProcessingJobs c E u (sys_db s) = Rows [] (sys_db s)" for c u
    by (simp add: ExpireStaleProcessingJobs_def Let_def)
  show ?thesis
  proof (cases "stmt_fault E 0")
    case True
    then have "\<exists>e st. reap_body L E c (begin_tx s) = (Inl e, st) \<and> tx_proc st = sys_proc s" for L c
      by (auto simp: reap_body_def bindE_def tryE_def failE_def SettlementJobRepo_ExpireStaleLeases_def wrapE_def run_stmt_def)
    then show ?thesis unfolding reapStaleLeases_def by (metis WithTx_error)
  next
    case False
    then have "reap_body L E c (begin_tx s) = (Inr (), (begin_tx s)\<lparr>tx_stmts := Suc 0\<rparr>)" for L c
      by (simp add: reap_body_def bindE_def tryE_def SettlementJobRepo_ExpireStaleLeases_def wrapE_def run_stmt_def exp
          returnE_def begin_tx_def)
    then show ?thesis
      by (simp add: reapStaleLeases_def WithTx_def split: commit_outcome.splits)
  qed
qed

lemma reapStaleLeases_inv: "engine_inv L (sys_db s) \<Longrightarrow> engine_inv L (sys_db (reapStaleLeases sc E s))"
  by (subst reap_noop) (auto simp: engine_inv_def job_inv_def)

section \<open>The administrative actions\<close>

lemma ReplayDeadLetter_inv:
  assumes "engine_inv L (sys_db s)"
  shows "engine_inv L (sys_db (snd (SettlementService_ReplayDeadLetter E i a c s)))"
proof -
  obtain r s' where run: "WithTx E (replay_body E i a c) s = (r, s')" by fastforce
  have ok: "schema_ok (sys_db s')"
    using assms schema_steps(4) [of s E i a c] run by (simp add: engine_inv_def SettlementService_ReplayDeadLetter_def)
  from run have "engine_inv L (sys_db s')"
  proof (cases rule: WithTx_cases)
    case (applied x st)
    from replay_body_ok [OF applied(1), unfolded begin_tx_simps applied(3) [symmetric]]
    obtain j v where j: "j \<in> set (settlement_jobs (sys_db s))" "sj_Status j = SettlementJobStatusDeadLetter"
        "sys_db s' = (replace_job (job_replayed E j) (sys_db s))\<lparr>audit_events := audit_events (sys_db s) @ [v]\<rparr>" by metis
    then show ?thesis
      by (intro replace_engine_inv [OF assms _ _ _ _ _ ok, of "job_replayed E j" j]) (simp_all add: job_replayed_def)
  qed (use assms in simp)
  with run show ?thesis by (simp add: SettlementService_ReplayDeadLetter_def)
qed

lemma RequeueFailed_inv:
  assumes "engine_inv L (sys_db s)"
  shows "engine_inv L (sys_db (snd (SettlementService_RequeueFailed E i a c s)))"
proof -
  obtain r s' where run: "WithTx E (requeue_body E i a c) s = (r, s')" by fastforce
  have ok: "schema_ok (sys_db s')"
    using assms schema_steps(5) [of s E i a c] run by (simp add: engine_inv_def SettlementService_RequeueFailed_def)
  from run have "engine_inv L (sys_db s')"
  proof (cases rule: WithTx_cases)
    case (applied x st)
    from requeue_body_ok [OF applied(1), unfolded begin_tx_simps applied(3) [symmetric]]
    obtain j v where j: "j \<in> set (settlement_jobs (sys_db s))" "sj_Status j = SettlementJobStatusFailed"
        "sys_db s' = (replace_job (job_requeued E j) (sys_db s))\<lparr>audit_events := audit_events (sys_db s) @ [v]\<rparr>" by metis
    then show ?thesis
      by (intro replace_engine_inv [OF assms _ _ _ _ _ ok, of "job_requeued E j" j]) (simp_all add: job_requeued_def)
  qed (use assms in simp)
  with run show ?thesis by (simp add: SettlementService_RequeueFailed_def)
qed

text \<open>Steps that write none of the tables of the invariant.\<close>

lemma other_inv:
  assumes "engine_inv L d" "schema_ok d'" "settlement_jobs d' = settlement_jobs d" "investments d' = investments d"
    "maturity_schedules d' = maturity_schedules d" "ledger_accounts d' = ledger_accounts d" "ledger_entries d' = ledger_entries d"
  shows "engine_inv L d'"
  unfolding engine_inv_def
proof (intro conjI assms(2) ballI)
  fix j assume "j \<in> set (settlement_jobs d')"
  with assms(1,3) have "job_inv L d j" by (simp add: engine_inv_def)
  then show "job_inv L d' j"
    by (rule job_inv_frame) (use assms(3-7) in \<open>auto simp: entries_of_def intro: accounts_grow_same\<close>)
qed

lemma RunSnapshot_inv:
  assumes "engine_inv L (sys_db s)"
  shows "engine_inv L (sys_db (snd (ReconciliationService_RunSnapshot E s)))"
proof -
  obtain r s' where run: "WithTx E (snapshot_body E) s = (r, s')" by fastforce
  have ok: "schema_ok (sys_db s')"
    using assms schema_steps(6) [of s E] run by (simp add: engine_inv_def ReconciliationService_RunSnapshot_def)
  from run have "engine_inv L (sys_db s')"
  proof (cases rule: WithTx_cases)
    case (applied x st)
    obtain snap flags where "x = (snap, flags)" by fastforce
    with applied(1) obtain st1 where "ReconciliationRepo_CreateSnapshot E (begin_tx s) = (Inr snap, st1)"
        "FlagsForSnapshot E snap st1 = (Inr flags, st)" by (auto elim: snapshot_body_ok)
    then have "sys_db s' = (sys_db s)\<lparr>reconciliation_snapshots := reconciliation_snapshots (sys_db s) @ [snap]\<rparr>"
      unfolding applied(3) by (metis CreateSnapshot_ok FlagsForSnapshot_ok(1) begin_tx_simps(1))
    then show ?thesis by (intro other_inv [OF assms ok]) simp_all
  qed (use assms in simp)
  with run show ?thesis by (simp add: ReconciliationService_RunSnapshot_def)
qed

section \<open>Steps\<close>

text \<open>
  The engine: the workers' processor, the scheduler, the idempotency service of the API. Every
  transaction is one step; its environment is arbitrary, so any statement, begin or commit may fail,
  and rows may be locked by transactions that have not committed. \<open>seed\<close> is the upstream system that
  registers investments and their maturities. \<open>respond f\<close> turns the result of a service into the
  response of its handler.
\<close>

record engine =
  en_processor :: Processor
  en_scheduler :: Scheduler
  en_idem :: idem_Service

definition respond :: "('a \<Rightarrow> StoredResponse) \<Rightarrow> (sys \<Rightarrow> 'a res \<times> sys) \<Rightarrow> handler" where
  "respond f svc s = (case svc s of (Inl err, s') \<Rightarrow> (Inl err, s') | (Inr x, s') \<Rightarrow> (Inr (f x), s'))"

inductive engine_step :: "engine \<Rightarrow> sys \<Rightarrow> sys \<Rightarrow> bool" for G :: engine where
  seed: "d' = (sys_db s)\<lparr>investments := investments (sys_db s) @ vs, maturity_schedules := maturity_schedules (sys_db s) @ ms\<rparr>
     \<Longrightarrow> schema_ok d' \<Longrightarrow> engine_step G s (s\<lparr>sys_db := d'\<rparr>)"
| tick: "engine_step G s (runTick (en_scheduler G) E s)"
| reap: "engine_step G s (reapStaleLeases (en_scheduler G) E s)"
| work: "engine_step G s (snd (ProcessOne (en_processor G) E w s))"
| scan: "engine_step G s (snd (runIdempotent (en_idem G) E key scope
      (respond f (TriggerSchedulerScan (en_scheduler G) E')) s))"
| replay: "engine_step G s (snd (runIdempotent (en_idem G) E key scope
      (respond g (SettlementService_ReplayDeadLetter E' i a c)) s))"
| requeue: "engine_step G s (snd (runIdempotent (en_idem G) E key scope
      (respond g (SettlementService_RequeueFailed E' i a c)) s))"
| snapshot: "engine_step G s (snd (runIdempotent (en_idem G) E key scope
      (respond h (ReconciliationService_RunSnapshot E')) s))"

inductive_cases engine_stepE: "engine_step G s s'"

text \<open>A freshly migrated database: nothing settled yet.\<close>

definition fresh_db :: "db \<Rightarrow> bool" where
  "fresh_db d \<longleftrightarrow> schema_ok d \<and> settlement_jobs d = [] \<and> ledger_entries d = [] \<and> payout_attempts d = []"

inductive reachable :: "engine \<Rightarrow> sys \<Rightarrow> bool" for G :: engine where
  init: "fresh_db (sys_db s) \<Longrightarrow> reachable G s"
| step: "reachable G s \<Longrightarrow> engine_step G s s' \<Longrightarrow> reachable G s'"

section \<open>Reachable states\<close>

lemma respond_db: "sys_db (snd (respond f svc s)) = sys_db (snd (svc s))"
  by (simp add: respond_def split: prod.split sum.split)

lemma runIdempotent_inv:
  assumes "engine_inv L (sys_db s)" "engine_inv L (sys_db (snd (svc s)))"
  shows "engine_inv L (sys_db (snd (runIdempotent S E key scope (respond f svc) s)))"
proof -
  let ?d' = "sys_db (snd (runIdempotent S E key scope (respond f svc) s))"
  obtain s1 where s1: "s1 = s \<or> s1 = snd (respond f svc s)" and m: "merged s s1 ?d'"
    by (rule runIdempotent_tables)
  from s1 assms have inv: "engine_inv L (sys_db s1)" by (auto simp: respond_db)
  from m obtain ks where d': "?d' = (sys_db s1)\<lparr>idempotency_keys := ks\<rparr>" by (auto simp: merged_def)
  have "ops_ok ?d'" using m assms(1) inv by (auto simp: merged_def engine_inv_def schema_ok_def)
  moreover have "jobs_ok ?d'" "maturities_ok ?d'" "attempts_ok ?d'" "ledger_ok ?d'"
    using inv unfolding d' by (simp_all add: engine_inv_def schema_ok_def jobs_ok_def maturities_ok_def attempts_ok_def ledger_ok_def)
  ultimately have "schema_ok ?d'" by (simp add: schema_ok_def)
  then show ?thesis by (intro other_inv [OF inv]) (simp_all add: d')
qed

lemma runTick_inv: "engine_inv L (sys_db s) \<Longrightarrow> engine_inv L (sys_db (runTick sc E s))"
  unfolding runTick_def Let_def by (rule EnqueueDueMaturities_inv) simp

lemma seed_inv:
  assumes "engine_inv L d" "schema_ok d'"
    "d' = d\<lparr>investments := investments d @ vs, maturity_schedules := maturity_schedules d @ ms\<rparr>"
  shows "engine_inv L d'"
  unfolding engine_inv_def
proof (intro conjI assms(2) ballI)
  fix j assume "j \<in> set (settlement_jobs d')"
  with assms(1,3) have "job_inv L d j" by (simp add: engine_inv_def)
  moreover have "posted d' = posted d" by (rule posted_cong) (simp add: assms(3))
  then have "settlement_entries L d' = settlement_entries L d" by (intro ext) (simp add: settlement_entries_def)
  moreover have "entries_of d' = entries_of d" by (intro ext) (simp add: entries_of_def assms(3))
  ultimately show "job_inv L d' j"
    unfolding job_inv_def settled_def by (auto simp: assms(3) split: if_splits)
qed

lemma engine_step_inv:
  assumes "engine_step G s s'" "engine_inv (wp_lib (en_processor G)) (sys_db s)"
  shows "engine_inv (wp_lib (en_processor G)) (sys_db s')"
  using assms
proof (cases rule: engine_step.cases)
  case (seed d' vs ms)
  then show ?thesis using assms(2) seed_inv by simp
next
  case (scan E key scope f E')
  with assms(2) show ?thesis
    by (auto intro!: runIdempotent_inv EnqueueDueMaturities_inv simp: TriggerSchedulerScan_def TickOnce_def)
qed (use assms(2) in \<open>auto intro!: runTick_inv reapStaleLeases_inv ProcessOne_inv runIdempotent_inv
      ReplayDeadLetter_inv RequeueFailed_inv RunSnapshot_inv\<close>)

lemma reachable_inv: "reachable G s \<Longrightarrow> engine_inv (wp_lib (en_processor G)) (sys_db s)"
proof (induction rule: reachable.induct)
  case (init s)
  then show ?case by (simp add: fresh_db_def engine_inv_def)
next
  case (step s s')
  then show ?case by (blast intro: engine_step_inv)
qed

section \<open>Settled jobs\<close>

lemma wrap64_sum_pos:
  assumes "in_int64 a" "in_int64 b" "0 \<le> a" "0 \<le> b" "0 < wrap64 (a + b)"
  shows "in_int64 (a + b)"
proof (rule ccontr)
  assume "\<not> in_int64 (a + b)"
  with assms(1-4) have "2 ^ 63 \<le> a + b" "a + b < 2 ^ 64" by (auto simp: in_int64_def)
  then have "wrap64 (a + b) = a + b - 2 ^ 64"
    by (simp add: wrap64_def mod_pos_geq)
  with assms(5) \<open>a + b < 2 ^ 64\<close> show False by simp
qed

lemma settled_amounts:
  assumes inv: "engine_inv L d" and j: "j \<in> set (settlement_jobs d)" "sj_Status j = SettlementJobStatusSucceeded"
  defines "es \<equiv> entries_of d (sj_ID j)"
  shows "length es = 4" "side_total ''D'' es = sj_PrincipalCents j + sj_GrossReturnCents j"
    "side_total ''C'' es = sj_PrincipalCents j + sj_GrossReturnCents j"
    "amounts_ok (sj_PrincipalCents j) (sj_GrossReturnCents j) (sj_PlatformFeeCents j) (sj_WithholdingTaxCents j) (sj_NetPayoutCents j)"
proof -
  from inv j(1) have "job_inv L d j" by (simp add: engine_inv_def)
  with j(2) have "settled L d j" by (simp add: job_inv_def)
  then obtain v :: Investment where b: "Breakdown_Validate (job_breakdown j (inv_Currency v)) = Inr ()"
      and ent: "settlement_entries L d (sj_ID j) (inv_InvestorID v) (job_breakdown j (inv_Currency v)) es"
    by (auto simp: settled_def es_def)
  let ?b = "job_breakdown j (inv_Currency v)"
  have rng: "job_range j" using inv j(1) by (auto simp: engine_inv_def schema_ok_def jobs_ok_def)
  from b have nn: "0 \<le> sj_PrincipalCents j" "0 \<le> sj_GrossReturnCents j"
    by (auto simp: Breakdown_Validate_def cents_defs job_breakdown_def split: if_splits)
  from ent have "es \<noteq> []" "le_AmountCents (hd es) = wrap64 (sj_PrincipalCents j + sj_GrossReturnCents j)"
    by (auto simp: settlement_entries_def buildPostingLines_def Let_def list_all2_Cons1 posted_def TotalObligationCents_def
        Cents_Add_def job_breakdown_def)
  moreover have "\<forall>e \<in> set es. 0 < le_AmountCents e"
    using inv by (auto simp: engine_inv_def schema_ok_def ledger_ok_def es_def entries_of_def)
  ultimately have "0 < wrap64 (sj_PrincipalCents j + sj_GrossReturnCents j)"
    by (metis list.set_sel(1))
  with rng nn have pg: "in_int64 (bd_PrincipalCents ?b + bd_GrossReturnCents ?b)"
    by (simp add: job_breakdown_def job_range_def wrap64_sum_pos)
  have "breakdown_amounts_ok ?b"
    using Breakdown_Validate_iff [of ?b "()"] b pg rng by (auto simp: job_range_def job_breakdown_def)
  with settlement_entries_amounts [OF ent pg] show "length es = 4"
    "side_total ''D'' es = sj_PrincipalCents j + sj_GrossReturnCents j"
    "side_total ''C'' es = sj_PrincipalCents j + sj_GrossReturnCents j"
    "amounts_ok (sj_PrincipalCents j) (sj_GrossReturnCents j) (sj_PlatformFeeCents j) (sj_WithholdingTaxCents j) (sj_NetPayoutCents j)"
    by (simp_all add: job_breakdown_def)
qed

lemma inv_entries_iff:
  assumes "engine_inv L d" "j \<in> set (settlement_jobs d)"
  shows "sj_Status j = SettlementJobStatusSucceeded \<longleftrightarrow> entries_of d (sj_ID j) \<noteq> []"
proof (cases "sj_Status j = SettlementJobStatusSucceeded")
  case True
  from settled_amounts(1) [OF assms True] have "entries_of d (sj_ID j) \<noteq> []" by auto
  with True show ?thesis by simp
next
  case False
  with assms show ?thesis by (auto simp: engine_inv_def job_inv_def)
qed

lemma inv_entry_posted:
  assumes "engine_inv L d" "e \<in> set (ledger_entries d)"
  obtains k v b line where "k \<in> set (settlement_jobs d)" "sj_Status k = SettlementJobStatusSucceeded"
    "posted d (sj_ID k) (EntryGroupIDFromJob L (sj_ID k)) line e" "line \<in> set (buildPostingLines L v b)"
proof -
  from assms obtain k where k: "k \<in> set (settlement_jobs d)" "le_SettlementJobID e = sj_ID k"
    by (auto simp: engine_inv_def schema_ok_def ledger_ok_def)
  then have e: "e \<in> set (entries_of d (sj_ID k))" using assms(2) by (simp add: entries_of_def)
  then have st: "sj_Status k = SettlementJobStatusSucceeded" using inv_entries_iff [OF assms(1) k(1)] by auto
  moreover have "job_inv L d k" using assms(1) k(1) by (simp add: engine_inv_def)
  ultimately obtain v b where "settlement_entries L d (sj_ID k) v b (entries_of d (sj_ID k))"
    by (auto simp: job_inv_def settled_def)
  with e obtain line where "line \<in> set (buildPostingLines L v b)" "posted d (sj_ID k) (EntryGroupIDFromJob L (sj_ID k)) line e"
    unfolding settlement_entries_def by (metis in_set_conv_nth list_all2_conv_all_nth)
  with k(1) st show thesis by (intro that)
qed

section \<open>What a step keeps\<close>

definition history :: "db \<Rightarrow> db \<Rightarrow> bool" where
  "history d d' \<longleftrightarrow> extends (ledger_entries d) (ledger_entries d') \<and> extends (audit_events d) (audit_events d')
     \<and> extends (reconciliation_snapshots d) (reconciliation_snapshots d') \<and> jobs_evolve d d'"

lemma history_step:
  assumes "append_only d d'" "schema_step d d'" "schema_ok d"
  shows "history d d'"
  using assms by (simp add: history_def append_only_def schema_step_def)

lemma history_refl [simp]: "history d d"
  by (simp add: history_def)

lemma history_trans: "history d d' \<Longrightarrow> history d' d'' \<Longrightarrow> history d d''"
  unfolding history_def jobs_evolve_def by (meson extends_trans job_evolves_trans)

lemma runIdempotent_history:
  assumes "history (sys_db s) (sys_db (snd (svc s)))"
  shows "history (sys_db s) (sys_db (snd (runIdempotent S E key scope (respond f svc) s)))"
proof -
  let ?d' = "sys_db (snd (runIdempotent S E key scope (respond f svc) s))"
  obtain s1 where s1: "s1 = s \<or> s1 = snd (respond f svc s)" and m: "merged s s1 ?d'"
    by (rule runIdempotent_tables)
  from s1 assms have "history (sys_db s) (sys_db s1)" by (auto simp: respond_db)
  moreover from m obtain ks where "?d' = (sys_db s1)\<lparr>idempotency_keys := ks\<rparr>" by (auto simp: merged_def)
  ultimately show ?thesis by (simp add: history_def jobs_evolve_def)
qed

lemma engine_step_history:
  assumes "engine_step G s s'" "schema_ok (sys_db s)"
  shows "history (sys_db s) (sys_db s')"
  using assms(1)
proof (cases rule: engine_step.cases)
  case (seed d' vs ms)
  then show ?thesis by (simp add: history_def) (rule jobs_evolve_subset, simp)
next
  case (tick E)
  then show ?thesis using assms(2) append_only.runTick_keeps schema.runTick_keeps by (simp add: history_step)
next
  case (reap E)
  then show ?thesis using assms(2) append_only.reapStaleLeases_keeps schema.reapStaleLeases_keeps by (simp add: history_step)
next
  case (work E w)
  then show ?thesis using assms(2) append_only.ProcessOne_keeps schema.ProcessOne_keeps by (simp add: history_step)
next
  case (scan E key scope f E')
  have "history (sys_db s) (sys_db (snd (TriggerSchedulerScan (en_scheduler G) E' s)))"
    using assms(2) append_only.EnqueueDueMaturities_keeps schema.EnqueueDueMaturities_keeps
    by (simp add: history_step TriggerSchedulerScan_def TickOnce_def)
  with scan show ?thesis by (simp add: runIdempotent_history)
next
  case (replay E key scope g E' i a c)
  have "history (sys_db s) (sys_db (snd (SettlementService_ReplayDeadLetter E' i a c s)))"
    using assms(2) append_only.ReplayDeadLetter_keeps schema.ReplayDeadLetter_keeps by (simp add: history_step)
  with replay show ?thesis by (simp add: runIdempotent_history)
next
  case (requeue E key scope g E' i a c)
  have "history (sys_db s) (sys_db (snd (SettlementService_RequeueFailed E' i a c s)))"
    using assms(2) append_only.RequeueFailed_keeps schema.RequeueFailed_keeps by (simp add: history_step)
  with requeue show ?thesis by (simp add: runIdempotent_history)
next
  case (snapshot E key scope h E')
  have "history (sys_db s) (sys_db (snd (ReconciliationService_RunSnapshot E' s)))"
    using assms(2) append_only.RunSnapshot_keeps schema.RunSnapshot_keeps by (simp add: history_step)
  with snapshot show ?thesis by (simp add: runIdempotent_history)
qed

text \<open>Runs of the engine.\<close>

inductive engine_run :: "engine \<Rightarrow> sys \<Rightarrow> sys \<Rightarrow> bool" for G :: engine where
  run_refl: "engine_run G s s"
| run_step: "engine_run G s s' \<Longrightarrow> engine_step G s' s'' \<Longrightarrow> engine_run G s s''"

lemma engine_run_history:
  assumes "engine_run G s s'" "reachable G s"
  shows "reachable G s' \<and> history (sys_db s) (sys_db s')"
  using assms
proof (induction rule: engine_run.induct)
  case (run_step s s' s'')
  then have r: "reachable G s'" "history (sys_db s) (sys_db s')" by auto
  from reachable_inv [OF r(1)] have "schema_ok (sys_db s')" by (simp add: engine_inv_def)
  with run_step.hyps(2) have "history (sys_db s') (sys_db s'')" by (rule engine_step_history)
  with r run_step.hyps(2) show ?case by (blast intro: history_trans reachable.step)
qed simp

end
