(* ===== verification/Lifecycle.thy ===== *)
theory Lifecycle
  imports System
begin

text \<open>
  The contract of the engine towards a reader of one job, as an abstract machine: a job is opened
  waiting, waiting jobs are paid, retried below their bound, or given up, a job given up may be replayed, and a paid
  job is final. The theory shows that the engine refines this machine, and derives the bound on retries from it.
\<close>

section \<open>Refinement\<close>

inductive reach :: "('a \<Rightarrow> bool) \<Rightarrow> ('a \<Rightarrow> 'a \<Rightarrow> bool) \<Rightarrow> 'a \<Rightarrow> bool" for init step where
  reach_init: "init a \<Longrightarrow> reach init step a"
| reach_step: "reach init step a \<Longrightarrow> step a b \<Longrightarrow> reach init step b"

text \<open>
  A forward simulation under an invariant of the concrete machine: what the client of the abstract machine knows of
  its reachable states holds of the concrete ones.
\<close>

locale forward_simulation =
  fixes cinit :: "'c \<Rightarrow> bool" and cstep :: "'c \<Rightarrow> 'c \<Rightarrow> bool" and cinv :: "'c \<Rightarrow> bool"
    and ainit :: "'a \<Rightarrow> bool" and astep :: "'a \<Rightarrow> 'a \<Rightarrow> bool" and absf :: "'c \<Rightarrow> 'a"
  assumes init_sim: "cinit c \<Longrightarrow> ainit (absf c)"
    and init_inv: "cinit c \<Longrightarrow> cinv c"
    and step_inv: "cinv c \<Longrightarrow> cstep c c' \<Longrightarrow> cinv c'"
    and step_sim: "cinv c \<Longrightarrow> cstep c c' \<Longrightarrow> astep (absf c) (absf c')"
begin

lemma reach_sim: "reach cinit cstep c \<Longrightarrow> cinv c \<and> reach ainit astep (absf c)"
proof (induction rule: reach.induct)
  case (reach_init c)
  then show ?case by (simp add: init_inv init_sim reach.reach_init)
next
  case (reach_step c c')
  then show ?case by (blast intro: step_inv step_sim reach.reach_step)
qed

lemma transfer: "(\<And>a. reach ainit astep a \<Longrightarrow> Q a) \<Longrightarrow> reach cinit cstep c \<Longrightarrow> Q (absf c)"
  using reach_sim by blast

end

section \<open>The abstract machine\<close>

datatype phase = Waiting int | Dead int | Paid int

text \<open>The phases of one job, with the number of retries counted so far; \<open>m\<close> bounds the retries.\<close>

inductive lifecycle :: "int \<Rightarrow> phase \<Rightarrow> phase \<Rightarrow> bool" for m where
  pay: "lifecycle m (Waiting n) (Paid n)"
| retry: "n + 1 < m \<Longrightarrow> lifecycle m (Waiting n) (Waiting (n + 1))"
| give_up: "lifecycle m (Waiting n) (Dead n)"
| replay: "lifecycle m (Dead n) (Waiting n)"

inductive_simps lifecycle_simps: "lifecycle m p q"

type_synonym book = "uuid \<rightharpoonup> int \<times> phase"

inductive book_step :: "book \<Rightarrow> book \<Rightarrow> bool" where
  stutter: "book_step B B"
| open_jobs: "dom N \<inter> dom B = {} \<Longrightarrow> (\<And>i m p. N i = Some (m, p) \<Longrightarrow> p = Waiting 0) \<Longrightarrow> book_step B (B ++ N)"
| move: "B i = Some (m, p) \<Longrightarrow> lifecycle m p q \<Longrightarrow> book_step B (B(i \<mapsto> (m, q)))"

text \<open>What the abstract machine guarantees: retries stay below their bound.\<close>

primrec retries :: "phase \<Rightarrow> int" where
  "retries (Waiting n) = n"
| "retries (Dead n) = n"
| "retries (Paid n) = n"

definition bounded_book :: "book \<Rightarrow> bool" where
  "bounded_book B \<longleftrightarrow> (\<forall>i m p. B i = Some (m, p) \<longrightarrow> 0 \<le> retries p \<and> (retries p = 0 \<or> retries p < m))"

lemma lifecycle_bounded:
  "lifecycle m p q \<Longrightarrow> 0 \<le> retries p \<and> (retries p = 0 \<or> retries p < m) \<Longrightarrow> 0 \<le> retries q \<and> (retries q = 0 \<or> retries q < m)"
  by (auto simp: lifecycle_simps)

lemma book_step_bounded:
  assumes "book_step B B'" "bounded_book B"
  shows "bounded_book B'"
  using assms
proof (cases rule: book_step.cases)
  case (open_jobs N)
  with assms(2) show ?thesis unfolding bounded_book_def by (auto simp: map_add_Some_iff) fastforce+
next
  case (move i m p q)
  with assms(2) lifecycle_bounded show ?thesis unfolding bounded_book_def by (auto split: if_splits)
qed (use assms(2) in simp)

lemma reach_bounded: "reach (\<lambda>B. B = Map.empty) book_step B \<Longrightarrow> bounded_book B"
proof (induction rule: reach.induct)
  case (reach_init B)
  then show ?case by (simp add: bounded_book_def)
next
  case (reach_step B B')
  then show ?case by (blast intro: book_step_bounded)
qed

section \<open>The view of the tables\<close>

definition phase_of :: "SettlementJob \<Rightarrow> phase" where
  "phase_of j = (case sj_Status j of
      SettlementJobStatusPending \<Rightarrow> Waiting (sj_RetryCount j)
    | SettlementJobStatusProcessing \<Rightarrow> Waiting (sj_RetryCount j)
    | SettlementJobStatusFailed \<Rightarrow> Waiting (sj_RetryCount j)
    | SettlementJobStatusDeadLetter \<Rightarrow> Dead (sj_RetryCount j)
    | SettlementJobStatusSucceeded \<Rightarrow> Paid (sj_RetryCount j))"

definition book_of :: "db \<Rightarrow> book" where
  "book_of d = map_of (map (\<lambda>j. (sj_ID j, sj_MaxRetries j, phase_of j)) (settlement_jobs d))"

lemma map_of_replace:
  "map_of (map (\<lambda>z. (k z, g z)) (map (\<lambda>z. if k z = k y then y else z) xs)) i =
     (if i = k y \<and> k y \<in> k ` set xs then Some (g y) else map_of (map (\<lambda>z. (k z, g z)) xs) i)"
  by (induction xs) auto

lemma book_of_replace:
  assumes "settlement_jobs d' = settlement_jobs (replace_job j' d)" "j \<in> set (settlement_jobs d)" "sj_ID j' = sj_ID j"
  shows "book_of d' = (book_of d)(sj_ID j \<mapsto> (sj_MaxRetries j', phase_of j'))"
proof
  fix i
  have "sj_ID j \<in> sj_ID ` set (settlement_jobs d)" using assms(2) by simp
  then show "book_of d' i = ((book_of d)(sj_ID j \<mapsto> (sj_MaxRetries j', phase_of j'))) i"
    using map_of_replace [of sj_ID "\<lambda>j. (sj_MaxRetries j, phase_of j)" j' "settlement_jobs d" i]
    by (simp add: book_of_def assms(1,3) replace_job_def)
qed

lemma book_of_job:
  assumes "jobs_ok d" "j \<in> set (settlement_jobs d)"
  shows "book_of d (sj_ID j) = Some (sj_MaxRetries j, phase_of j)"
proof -
  have "distinct (map fst (map (\<lambda>j. (sj_ID j, sj_MaxRetries j, phase_of j)) (settlement_jobs d)))"
    using assms(1) by (simp add: jobs_ok_def comp_def)
  moreover have "(sj_ID j, sj_MaxRetries j, phase_of j) \<in> set (map (\<lambda>j. (sj_ID j, sj_MaxRetries j, phase_of j)) (settlement_jobs d))"
    using assms(2) by simp
  ultimately show ?thesis unfolding book_of_def by (rule map_of_is_SomeI)
qed

section \<open>How a step moves the jobs\<close>

text \<open>The three things a step can do to the jobs.\<close>

definition jobs_moved :: "db \<Rightarrow> db \<Rightarrow> bool" where
  "jobs_moved d d' \<longleftrightarrow> (\<exists>j \<in> set (settlement_jobs d). \<exists>j'. settlement_jobs d' = settlement_jobs (replace_job j' d)
     \<and> sj_ID j' = sj_ID j \<and> sj_MaxRetries j' = sj_MaxRetries j
     \<and> (phase_of j' = phase_of j \<or> lifecycle (sj_MaxRetries j) (phase_of j) (phase_of j')))"

definition jobs_opened :: "db \<Rightarrow> db \<Rightarrow> bool" where
  "jobs_opened d d' \<longleftrightarrow> (\<exists>js. settlement_jobs d' = settlement_jobs d @ js
     \<and> (\<forall>j \<in> set js. sj_Status j = SettlementJobStatusPending \<and> sj_RetryCount j = 0))"

lemma jobs_opened_same: "settlement_jobs d' = settlement_jobs d \<Longrightarrow> jobs_opened d d'"
  unfolding jobs_opened_def by (intro exI [of _ "[]"]) simp

lemma jobs_opened_book:
  assumes "jobs_opened d d'" "jobs_ok d'"
  shows "book_step (book_of d) (book_of d')"
proof -
  from assms(1) obtain js where js: "settlement_jobs d' = settlement_jobs d @ js"
      "\<forall>j \<in> set js. sj_Status j = SettlementJobStatusPending \<and> sj_RetryCount j = 0"
    by (auto simp: jobs_opened_def)
  let ?f = "\<lambda>j. (sj_ID j, sj_MaxRetries j, phase_of j)"
  let ?N = "map_of (map ?f js)"
  have "distinct (map sj_ID (settlement_jobs d @ js))" using assms(2) js(1) by (simp add: jobs_ok_def)
  then have disj: "dom ?N \<inter> dom (book_of d) = {}"
    by (auto simp: book_of_def dom_map_of_conv_image_fst image_image)
  have "book_of d' = ?N ++ book_of d" by (simp add: book_of_def js(1))
  also have "\<dots> = book_of d ++ ?N" using disj by (rule map_add_comm)
  finally have "book_of d' = book_of d ++ ?N" .
  moreover have "p = Waiting 0" if "?N i = Some (m, p)" for i m p
    using map_of_SomeD [OF that] js(2) by (auto simp: phase_of_def)
  ultimately show ?thesis using disj by (auto intro: book_step.open_jobs)
qed

lemma jobs_moved_book:
  assumes "jobs_moved d d'" "jobs_ok d"
  shows "book_step (book_of d) (book_of d')"
proof -
  from assms(1) obtain j j' where j: "j \<in> set (settlement_jobs d)" "settlement_jobs d' = settlement_jobs (replace_job j' d)"
      "sj_ID j' = sj_ID j" "sj_MaxRetries j' = sj_MaxRetries j"
      and ph: "phase_of j' = phase_of j \<or> lifecycle (sj_MaxRetries j) (phase_of j) (phase_of j')"
    by (auto simp: jobs_moved_def)
  note b = book_of_job [OF assms(2) j(1)] and b' = book_of_replace [OF j(2,1,3)]
  from ph show ?thesis
  proof
    assume "phase_of j' = phase_of j"
    with b b' j(4) have "book_of d' = book_of d" by (simp add: map_upd_triv)
    then show ?thesis by (simp add: book_step.stutter)
  next
    assume "lifecycle (sj_MaxRetries j) (phase_of j) (phase_of j')"
    from book_step.move [of "book_of d", OF b this] b' j(4) show ?thesis by simp
  qed
qed

text \<open>Worker.\<close>

lemma phase_of_updates:
  "phase_of (job_succeeded E ref (claimed E w j)) = Paid (sj_RetryCount j)"
  "phase_of (job_failed E t msg (claimed E w j)) = Waiting (sj_RetryCount j + 1)"
  "phase_of (job_dead E reason msg c (claimed E w j)) = Dead (sj_RetryCount j)"
  "phase_of (job_replayed E j) = Waiting (sj_RetryCount j)" "phase_of (job_requeued E j) = Waiting (sj_RetryCount j)"
  by (simp_all add: phase_of_def job_succeeded_def job_failed_def job_dead_def job_replayed_def job_requeued_def claimed_def)

lemma max_of_updates:
  "sj_MaxRetries (job_succeeded E ref (claimed E w j)) = sj_MaxRetries j"
  "sj_MaxRetries (job_failed E t msg (claimed E w j)) = sj_MaxRetries j"
  "sj_MaxRetries (job_dead E reason msg c (claimed E w j)) = sj_MaxRetries j"
  "sj_MaxRetries (job_replayed E j) = sj_MaxRetries j" "sj_MaxRetries (job_requeued E j) = sj_MaxRetries j"
  "sj_ID (job_replayed E j) = sj_ID j" "sj_ID (job_requeued E j) = sj_ID j"
  by (simp_all add: job_succeeded_def job_failed_def job_dead_def job_replayed_def job_requeued_def claimed_def)

lemmas update_simps = phase_of_updates max_of_updates

lemma flight_waiting:
  "flight_ok E d j v a \<Longrightarrow> phase_of j = Waiting (sj_RetryCount j)"
  using claim_candidate_SomeD(2) [of E d j] by (auto simp: flight_ok_def claimable_def phase_of_def)

lemma paid_moved:
  assumes "flight_ok E d j v a" "paid P E w d j v a d'"
  shows "jobs_moved d d'"
proof -
  define ref where "ref = pr_PayoutReference (wp_gateway P (execute_input j v a))"
  from assms(2) have "settlement_jobs d' = settlement_jobs (replace_job (job_succeeded E ref (claimed E w j)) d)"
    by (auto simp: paid_def Let_def ref_def)
  with flight_okD(5) [OF assms(1)] flight_waiting [OF assms(1)] show ?thesis
    unfolding jobs_moved_def
    by (intro bexI [of _ j] exI [of _ "job_succeeded E ref (claimed E w j)"]) (simp_all add: update_simps lifecycle.pay)
qed

lemma errored_moved:
  assumes f: "flight_ok E d j v a" and e: "errored P E w d j v a d'" "pr_Err (wp_gateway P (execute_input j v a)) = Some err"
  shows "jobs_moved d d'"
proof -
  obtain j' where j': "settlement_jobs d' = settlement_jobs (replace_job j' d)"
    and c: "if pr_ErrorClass (wp_gateway P (execute_input j v a)) = ErrorClassTerminal
     then j' = job_dead E ''terminal payout failure'' (error_text err) ErrorClassTerminal (claimed E w j)
     else if wrap32 (sj_RetryCount j + 1) \<ge> sj_MaxRetries j
     then \<exists>c. j' = job_dead E ''max retries exceeded'' (error_text err) c (claimed E w j)
     else in_int32 (sj_RetryCount j + 1)
        \<and> (\<exists>t. NextRetryAt (wp_retry P) (jitter E) (sj_RetryCount j) (go_now E) = Some t
            \<and> j' = job_failed E (timestamptz t) (error_text err) (claimed E w j))"
    by (rule errored_job [OF e])
  from c consider (dead) r c where "j' = job_dead E r (error_text err) c (claimed E w j)"
    | (retry) t where "j' = job_failed E t (error_text err) (claimed E w j)" "sj_RetryCount j + 1 < sj_MaxRetries j"
    by (auto simp: wrap32_id split: if_splits)
  then show ?thesis
  proof cases
    case dead
    with j' flight_okD(5) [OF f] flight_waiting [OF f] show ?thesis
      unfolding jobs_moved_def by (intro bexI [of _ j] exI [of _ j']) (simp_all add: update_simps lifecycle.give_up)
  next
    case retry
    with j' flight_okD(5) [OF f] flight_waiting [OF f] show ?thesis
      unfolding jobs_moved_def by (intro bexI [of _ j] exI [of _ j']) (simp_all add: update_simps lifecycle.retry)
  qed
qed

lemma ProcessOne_jobs:
  assumes "schema_ok (sys_db s)"
  shows "jobs_opened (sys_db s) (sys_db (snd (ProcessOne P E w s))) \<or> jobs_moved (sys_db s) (sys_db (snd (ProcessOne P E w s)))"
proof -
  obtain r s' where run: "WithTx E (process_body P E w) s = (r, s')" by fastforce
  then have "jobs_opened (sys_db s) (sys_db s') \<or> jobs_moved (sys_db s) (sys_db s')"
  proof (cases rule: WithTx_cases)
    case (applied x st)
    have "schema_ok (tx_db (begin_tx s))" "process_body P E w (begin_tx s) = (Inr (), st)"
      using assms applied(1) by simp_all
    from process_body_ok [OF this(2,1), unfolded begin_tx_simps applied(3) [symmetric]]
    obtain j v a where f: "flight_ok E (sys_db s) j v a"
        and o: "if pr_Err (wp_gateway P (execute_input j v a)) = None then paid P E w (sys_db s) j v a (sys_db s')
              else errored P E w (sys_db s) j v a (sys_db s')" by metis
    show ?thesis
      using o paid_moved [OF f] errored_moved [OF f] by (cases "pr_Err (wp_gateway P (execute_input j v a))") auto
  qed (simp add: jobs_opened_same)
  with run show ?thesis by (simp add: ProcessOne_def)
qed

text \<open>Scans and administrative requests.\<close>

lemma EnqueueDueMaturities_jobs: "jobs_opened (sys_db s) (sys_db (snd (EnqueueDueMaturities S E s)))"
proof -
  obtain r s' where run: "WithTx E (enqueue_body S E) s = (r, s')" by fastforce
  have db: "sys_db (snd (EnqueueDueMaturities S E s)) = sys_db s'"
    using run by (auto simp: EnqueueDueMaturities_def split: sum.splits)
  from run have "jobs_opened (sys_db s) (sys_db s')"
  proof (cases rule: WithTx_cases)
    case (applied x st)
    from enqueue_body_ok [OF applied(1), unfolded begin_tx_simps applied(3) [symmetric]]
    obtain due js where e: "enqueued S E due (sys_db s) js (sys_db s')" by metis
    then have "sj_Status j = SettlementJobStatusPending \<and> sj_RetryCount j = 0" if "j \<in> set js" for j
      using that unfolding enqueued_def by (metis job_for_fields(3,4) surjective_pairing)
    with e show ?thesis by (auto simp: enqueued_def jobs_opened_def)
  qed (simp add: jobs_opened_same)
  with db show ?thesis by simp
qed

lemma ReplayDeadLetter_jobs:
  "jobs_opened (sys_db s) (sys_db (snd (SettlementService_ReplayDeadLetter E i a c s)))
   \<or> jobs_moved (sys_db s) (sys_db (snd (SettlementService_ReplayDeadLetter E i a c s)))"
proof -
  obtain r s' where run: "WithTx E (replay_body E i a c) s = (r, s')" by fastforce
  then have "jobs_opened (sys_db s) (sys_db s') \<or> jobs_moved (sys_db s) (sys_db s')"
  proof (cases rule: WithTx_cases)
    case (applied x st)
    from replay_body_ok [OF applied(1), unfolded begin_tx_simps applied(3) [symmetric]] obtain j v where
      j: "j \<in> set (settlement_jobs (sys_db s))" "sj_Status j = SettlementJobStatusDeadLetter"
        "sys_db s' = (replace_job (job_replayed E j) (sys_db s))\<lparr>audit_events := audit_events (sys_db s) @ [v]\<rparr>" by metis
    then have "phase_of j = Dead (sj_RetryCount j)" by (simp add: phase_of_def)
    with j have "jobs_moved (sys_db s) (sys_db s')"
      unfolding jobs_moved_def by (intro bexI [of _ j] exI [of _ "job_replayed E j"]) (simp_all add: update_simps lifecycle.replay)
    then show ?thesis ..
  qed (simp add: jobs_opened_same)
  with run show ?thesis by (simp add: SettlementService_ReplayDeadLetter_def)
qed

lemma RequeueFailed_jobs:
  "jobs_opened (sys_db s) (sys_db (snd (SettlementService_RequeueFailed E i a c s)))
   \<or> jobs_moved (sys_db s) (sys_db (snd (SettlementService_RequeueFailed E i a c s)))"
proof -
  obtain r s' where run: "WithTx E (requeue_body E i a c) s = (r, s')" by fastforce
  then have "jobs_opened (sys_db s) (sys_db s') \<or> jobs_moved (sys_db s) (sys_db s')"
  proof (cases rule: WithTx_cases)
    case (applied x st)
    from requeue_body_ok [OF applied(1), unfolded begin_tx_simps applied(3) [symmetric]] obtain j v where
      j: "j \<in> set (settlement_jobs (sys_db s))" "sj_Status j = SettlementJobStatusFailed"
        "sys_db s' = (replace_job (job_requeued E j) (sys_db s))\<lparr>audit_events := audit_events (sys_db s) @ [v]\<rparr>" by metis
    then have "phase_of j = Waiting (sj_RetryCount j)" by (simp add: phase_of_def)
    with j have "jobs_moved (sys_db s) (sys_db s')"
      unfolding jobs_moved_def by (intro bexI [of _ j] exI [of _ "job_requeued E j"]) (simp_all add: update_simps)
    then show ?thesis ..
  qed (simp add: jobs_opened_same)
  with run show ?thesis by (simp add: SettlementService_RequeueFailed_def)
qed

lemma RunSnapshot_jobs: "jobs_opened (sys_db s) (sys_db (snd (ReconciliationService_RunSnapshot E s)))"
proof -
  obtain r s' where run: "WithTx E (snapshot_body E) s = (r, s')" by fastforce
  then have "settlement_jobs (sys_db s') = settlement_jobs (sys_db s)"
  proof (cases rule: WithTx_cases)
    case (applied x st)
    obtain snap flags where "x = (snap, flags)" by fastforce
    with applied(1) obtain st1 where "ReconciliationRepo_CreateSnapshot E (begin_tx s) = (Inr snap, st1)"
        "FlagsForSnapshot E snap st1 = (Inr flags, st)" by (auto elim: snapshot_body_ok)
    then have "sys_db s' = (sys_db s)\<lparr>reconciliation_snapshots := reconciliation_snapshots (sys_db s) @ [snap]\<rparr>"
      unfolding applied(3) by (metis CreateSnapshot_ok FlagsForSnapshot_ok(1) begin_tx_simps(1))
    then show ?thesis by simp
  qed simp
  with run show ?thesis by (simp add: ReconciliationService_RunSnapshot_def jobs_opened_same)
qed

lemma runIdempotent_jobs:
  assumes "jobs_opened (sys_db s) (sys_db (snd (svc s))) \<or> jobs_moved (sys_db s) (sys_db (snd (svc s)))"
  shows "jobs_opened (sys_db s) (sys_db (snd (runIdempotent S E key scope (respond f svc) s)))
    \<or> jobs_moved (sys_db s) (sys_db (snd (runIdempotent S E key scope (respond f svc) s)))"
proof -
  let ?d' = "sys_db (snd (runIdempotent S E key scope (respond f svc) s))"
  obtain s1 where s1: "s1 = s \<or> s1 = snd (respond f svc s)" and m: "merged s s1 ?d'"
    by (rule runIdempotent_tables)
  from m have "settlement_jobs ?d' = settlement_jobs (sys_db s1)" by (auto simp: merged_def)
  with s1 assms show ?thesis
    by (auto simp: jobs_opened_def jobs_moved_def respond_db)
qed

lemma engine_step_jobs:
  assumes "engine_step G s s'" "engine_inv L (sys_db s)"
  shows "jobs_opened (sys_db s) (sys_db s') \<or> jobs_moved (sys_db s) (sys_db s')"
  using assms(1)
proof (cases rule: engine_step.cases)
  case (seed d' vs ms)
  then show ?thesis by (simp add: jobs_opened_same)
next
  case (tick E)
  then show ?thesis
    using EnqueueDueMaturities_jobs [of "s\<lparr>sys_proc := p\<rparr>" for p] by (simp add: runTick_def Let_def)
next
  case (reap E)
  have "\<forall>j \<in> set (settlement_jobs (sys_db s)). sj_Status j \<noteq> SettlementJobStatusProcessing"
    using assms(2) by (simp add: engine_inv_def job_inv_def)
  with reap show ?thesis by (simp add: reap_noop jobs_opened_same)
next
  case (work E w)
  then show ?thesis using ProcessOne_jobs assms(2) by (simp add: engine_inv_def)
next
  case (scan E key scope f E')
  then show ?thesis
    by (simp only:) (rule runIdempotent_jobs, simp add: TriggerSchedulerScan_def TickOnce_def EnqueueDueMaturities_jobs)
next
  case (replay E key scope g E' i a c)
  then show ?thesis by (simp only:) (rule runIdempotent_jobs, rule ReplayDeadLetter_jobs)
next
  case (requeue E key scope g E' i a c)
  then show ?thesis by (simp only:) (rule runIdempotent_jobs, rule RequeueFailed_jobs)
next
  case (snapshot E key scope h E')
  then show ?thesis by (simp only:) (rule runIdempotent_jobs, simp add: RunSnapshot_jobs)
qed

section \<open>The engine refines the abstract machine\<close>

lemma engine_step_book:
  assumes "engine_inv (wp_lib (en_processor G)) (sys_db s)" "engine_step G s s'"
  shows "book_step (book_of (sys_db s)) (book_of (sys_db s'))"
proof -
  have "jobs_ok (sys_db s)" "jobs_ok (sys_db s')"
    using assms(1) engine_step_inv [OF assms(2,1)] by (simp_all add: engine_inv_def schema_ok_def)
  with engine_step_jobs [OF assms(2,1)] show ?thesis by (blast intro: jobs_opened_book jobs_moved_book)
qed

interpretation engine: forward_simulation "\<lambda>s. fresh_db (sys_db s)" "engine_step G"
  "\<lambda>s. engine_inv (wp_lib (en_processor G)) (sys_db s)" "\<lambda>B. B = Map.empty" book_step "\<lambda>s. book_of (sys_db s)" for G
proof
  show "book_of (sys_db s) = Map.empty" if "fresh_db (sys_db s)" for s
    using that by (simp add: fresh_db_def book_of_def)
  show "engine_inv (wp_lib (en_processor G)) (sys_db s)" if "fresh_db (sys_db s)" for s
    using that by (simp add: fresh_db_def engine_inv_def)
qed (blast intro: engine_step_inv engine_step_book)+

lemma reachable_reach: "reachable G s \<Longrightarrow> reach (\<lambda>s. fresh_db (sys_db s)) (engine_step G) s"
  by (induction rule: reachable.induct) (auto intro: reach.intros)

lemma reachable_bounded: "reachable G s \<Longrightarrow> bounded_book (book_of (sys_db s))"
  using engine.transfer [of bounded_book G s] reach_bounded reachable_reach by blast

end
