(* ===== verification/Strconv.thy ===== *)
theory Strconv
  imports Arrakin_Prelude
begin

text \<open>
  Decimal numbers of Go's standard library: the digits \<^verbatim>\<open>strconv.Itoa\<close> and
  \<^verbatim>\<open>time.Format\<close> print, and \<^verbatim>\<open>strconv.Atoi\<close>, which reads an optional sign and decimal digits into a
  64-bit \<^verbatim>\<open>int\<close> and fails on anything else, overflow included.
\<close>

definition isDigit :: "char \<Rightarrow> bool" where
  "isDigit c \<longleftrightarrow> 48 \<le> (of_char c :: nat) \<and> (of_char c :: nat) \<le> 57"

definition digit_value :: "char \<Rightarrow> int" where
  "digit_value c = int (of_char c) - 48"

definition dec_value :: "string \<Rightarrow> int" where
  "dec_value s = foldl (\<lambda>a c. 10 * a + digit_value c) 0 s"

definition Atoi :: "string \<Rightarrow> int option" where
  "Atoi s =
     (let neg = (s \<noteq> [] \<and> hd s = CHR ''-'');
          ds = (if s \<noteq> [] \<and> (hd s = CHR ''-'' \<or> hd s = CHR ''+'') then tl s else s);
          n = (if neg then - dec_value ds else dec_value ds)
      in if ds = [] \<or> \<not> list_all isDigit ds \<or> \<not> in_int64 n then None else Some n)"

section \<open>Digits\<close>

lemma of_char_digit: "n < 10 \<Longrightarrow> (of_char (char_of (48 + n)) :: nat) = 48 + n"
  by (simp add: of_char_of)

lemma digit_char [simp]:
  "n < 10 \<Longrightarrow> isDigit (char_of (48 + n))" "n < 10 \<Longrightarrow> digit_value (char_of (48 + n)) = int n"
  by (simp_all add: isDigit_def digit_value_def of_char_digit)

lemma dec_value_Nil [simp]: "dec_value [] = 0"
  by (simp add: dec_value_def)

lemma dec_value_snoc [simp]: "dec_value (s @ [c]) = 10 * dec_value s + digit_value c"
  by (simp add: dec_value_def)

lemma dec_value_append: "dec_value (s @ t) = dec_value s * 10 ^ length t + dec_value t"
proof (induction t rule: rev_induct)
  case (snoc c t)
  have "dec_value (s @ t @ [c]) = 10 * dec_value (s @ t) + digit_value c"
    by (simp add: dec_value_snoc [symmetric] del: dec_value_snoc)
  with snoc show ?case by (simp add: algebra_simps)
qed simp

lemma dec_value_zeros [simp]: "dec_value (replicate k CHR ''0'' @ s) = dec_value s"
proof -
  have "dec_value (replicate k CHR ''0'') = 0"
  proof (induction k)
    case (Suc k)
    have "replicate (Suc k) CHR ''0'' = replicate k CHR ''0'' @ [CHR ''0'']" by (simp add: replicate_append_same)
    with Suc show ?case by (simp add: digit_value_def)
  qed simp
  then show ?thesis by (simp add: dec_value_append)
qed

lemma isDigit_zero [simp]: "isDigit CHR ''0''"
  by (simp add: isDigit_def)

lemma dec_digits_value [simp]: "dec_value (dec_digits n) = int n"
proof (induction n rule: dec_digits.induct)
  case (1 n)
  show ?case
  proof (cases "n < 10")
    case True
    then have "dec_value (dec_digits n) = dec_value ([] @ [char_of (48 + n)])" by (simp add: dec_digits.simps [of n])
    with True show ?thesis by (simp only: dec_value_snoc) simp
  next
    case False
    with 1 have "dec_value (dec_digits (n div 10)) = int (n div 10)" by simp
    with False show ?thesis by (simp add: dec_digits.simps [of n] of_nat_mod of_nat_div)
  qed
qed

lemma dec_digits_digits [simp]: "list_all isDigit (dec_digits n)" "dec_digits n \<noteq> []"
  by (induction n rule: dec_digits.induct) (subst dec_digits.simps, simp)+

lemma length_dec_digits: "0 < k \<Longrightarrow> n < 10 ^ k \<Longrightarrow> length (dec_digits n) \<le> k"
proof (induction n arbitrary: k rule: dec_digits.induct)
  case (1 n)
  show ?case
  proof (cases "n < 10")
    case True
    with 1(2) show ?thesis by (simp add: dec_digits.simps [of n])
  next
    case False
    with 1(2,3) have "1 < k" by (cases "k = 1") auto
    then obtain k' where k: "k = Suc k'" "0 < k'" by (cases k) auto
    with 1(3) have "n div 10 < 10 ^ k'" by (simp add: less_mult_imp_div_less mult.commute)
    with 1(1) False k have "length (dec_digits (n div 10)) \<le> k'" by simp
    with False k show ?thesis by (simp add: dec_digits.simps [of n])
  qed
qed

lemma hd_dec_digits: "hd (dec_digits n) \<noteq> CHR ''-''" "hd (dec_digits n) \<noteq> CHR ''+''"
proof -
  have "isDigit (hd (dec_digits n))"
    using dec_digits_digits [of n] by (simp add: list_all_iff)
  then show "hd (dec_digits n) \<noteq> CHR ''-''" "hd (dec_digits n) \<noteq> CHR ''+''" by (auto simp: isDigit_def)
qed

section \<open>Reading what was printed\<close>

lemma Atoi_itoa: "in_int64 i \<Longrightarrow> Atoi (itoa i) = Some i"
  using hd_dec_digits [of "nat i"]
  by (auto simp: Atoi_def itoa_def Let_def)

lemma dec_digits_inj: "dec_digits m = dec_digits n \<Longrightarrow> m = n"
  by (metis dec_digits_value of_nat_eq_iff)

lemma itoa_nat_inj: "itoa (int m) = itoa (int n) \<Longrightarrow> m = n"
  by (simp add: itoa_def dec_digits_inj)

section \<open>Padding\<close>

text \<open>\<^verbatim>\<open>appendInt(b, n, width)\<close> of package \<^verbatim>\<open>time\<close>.\<close>

definition padInt :: "int \<Rightarrow> nat \<Rightarrow> string" where
  "padInt n w = (let s = dec_digits (nat \<bar>n\<bar>)
     in (if n < 0 then [CHR ''-''] else []) @ replicate (w - length s) CHR ''0'' @ s)"

lemma padInt_digits:
  assumes "0 \<le> n" "n < 10 ^ w" "0 < w"
  shows "length (padInt n w) = w" "list_all isDigit (padInt n w)" "dec_value (padInt n w) = n"
proof -
  have "nat n < 10 ^ w" using assms by (simp add: nat_less_iff)
  with assms(3) have "length (dec_digits (nat n)) \<le> w" by (rule length_dec_digits)
  with assms(1) show "length (padInt n w) = w" by (simp add: padInt_def Let_def)
  show "list_all isDigit (padInt n w)"
    using assms(1) dec_digits_digits(1) [of "nat n"] by (auto simp: padInt_def Let_def list_all_iff)
  show "dec_value (padInt n w) = n" using assms(1) by (simp add: padInt_def Let_def)
qed

end
