(* ===== verification/Rfc3339.thy ===== *)
theory Rfc3339
  imports Strconv
begin

text \<open>
  What the engine uses of package \<^verbatim>\<open>time\<close>: \<^verbatim>\<open>t.UTC().Format(time.RFC3339Nano)\<close> and
  \<^verbatim>\<open>time.Parse\<close> with the layouts \<^verbatim>\<open>RFC3339\<close> and \<^verbatim>\<open>RFC3339Nano\<close>, which accept
  the same texts. An instant is a number of nanoseconds since 1970; the calendar is the proleptic Gregorian one. The
  theory shows that parsing reads back what formatting printed.
\<close>

section \<open>The calendar\<close>

definition isLeap :: "int \<Rightarrow> bool" where
  "isLeap y \<longleftrightarrow> y mod 4 = 0 \<and> (y mod 100 \<noteq> 0 \<or> y mod 400 = 0)"

text \<open>Days from 1 January of year 0 to 1 January of year \<open>y\<close>.\<close>

definition days_to_year :: "int \<Rightarrow> int" where
  "days_to_year y = 365 * y + (y + 3) div 4 - (y + 99) div 100 + (y + 399) div 400"

definition days_before :: "bool \<Rightarrow> int \<Rightarrow> int" where
  "days_before leap m = [0, 31, 59, 90, 120, 151, 181, 212, 243, 273, 304, 334, 365] ! nat (m - 1) + (if leap \<and> m > 2 then 1 else 0)"

definition daysIn :: "int \<Rightarrow> int \<Rightarrow> int" where
  "daysIn m y = days_before (isLeap y) (m + 1) - days_before (isLeap y) m"

abbreviation epoch_days :: int where
  "epoch_days \<equiv> 719528"

definition date_days :: "int \<Rightarrow> int \<Rightarrow> int \<Rightarrow> int" where
  "date_days y m d = days_to_year y + days_before (isLeap y) m + d - 1 - epoch_days"

text \<open>The year of a day is off by at most one from its share of the 400-year cycle of 146097 days.\<close>

definition year_of :: "int \<Rightarrow> int" where
  "year_of z = (let y = z * 400 div 146097
     in if z < days_to_year y then y - 1 else if days_to_year (y + 1) \<le> z then y + 1 else y)"

definition month_of :: "bool \<Rightarrow> int \<Rightarrow> int" where
  "month_of leap yd = (if yd < days_before leap 2 then 1 else if yd < days_before leap 3 then 2 else if yd < days_before leap 4 then 3
     else if yd < days_before leap 5 then 4 else if yd < days_before leap 6 then 5 else if yd < days_before leap 7 then 6
     else if yd < days_before leap 8 then 7 else if yd < days_before leap 9 then 8 else if yd < days_before leap 10 then 9
     else if yd < days_before leap 11 then 10 else if yd < days_before leap 12 then 11 else 12)"

definition civil :: "int \<Rightarrow> int \<times> int \<times> int" where
  "civil n = (let z = n + epoch_days; y = year_of z; yd = z - days_to_year y; m = month_of (isLeap y) yd
     in (y, m, yd - days_before (isLeap y) m + 1))"

lemma div_bounds:
  fixes k a :: int
  assumes "0 < k"
  shows "k * (a div k) \<le> a" "a < k * (a div k) + k"
proof -
  have "k * (a div k) + a mod k = a" by simp
  moreover have "0 \<le> a mod k" "a mod k < k" using assms by simp_all
  ultimately show "k * (a div k) \<le> a" "a < k * (a div k) + k" by linarith+
qed

lemma ceil_div:
  fixes k y :: int
  assumes "0 < k"
  shows "(y + k) div k = (y + (k - 1)) div k + (if y mod k = 0 then 1 else 0)"
proof -
  have y: "y = k * (y div k) + y mod k" by simp
  have r: "0 \<le> y mod k" "y mod k < k" using assms by simp_all
  have "(y + (k - 1)) div k = y div k + (if y mod k = 0 then 0 else 1)"
  proof (cases "y mod k = 0")
    case True
    then show ?thesis using assms y by (intro int_div_pos_eq [of _ _ _ "k - 1"]) simp_all
  next
    case False
    with r have "0 < y mod k" by linarith
    moreover have "k * (y div k + 1) = k * (y div k) + k" by (simp add: distrib_left)
    ultimately show ?thesis using False y r by (intro int_div_pos_eq [of _ _ _ "y mod k - 1"]) simp_all
  qed
  moreover have "(y + k) div k = y div k + 1" using assms by (subst div_add_self2) simp_all
  ultimately show ?thesis by simp
qed

lemma year_length: "days_to_year (y + 1) = days_to_year y + (if isLeap y then 366 else 365)"
proof -
  have 4: "(y + 4) div 4 = (y + 3) div 4 + (if y mod 4 = 0 then 1 else 0)" using ceil_div [of 4 y] by simp
  have 100: "(y + 100) div 100 = (y + 99) div 100 + (if y mod 100 = 0 then 1 else 0)" using ceil_div [of 100 y] by simp
  have 400: "(y + 400) div 400 = (y + 399) div 400 + (if y mod 400 = 0 then 1 else 0)" using ceil_div [of 400 y] by simp
  have e: "y + 1 + 3 = y + 4" "y + 1 + 99 = y + 100" "y + 1 + 399 = y + 400" by simp_all
  have l: "days_to_year (y + 1) = days_to_year y + 365 + (if y mod 4 = 0 then 1 else 0)
      - (if y mod 100 = 0 then 1 else 0) + (if y mod 400 = 0 then 1 else 0)"
    unfolding days_to_year_def e 4 100 400 by (simp only: distrib_left)
  have "y mod 400 = 0 \<Longrightarrow> y mod 100 = 0" "y mod 100 = 0 \<Longrightarrow> y mod 4 = 0"
    by (auto simp: mod_eq_0_iff_dvd intro: dvd_trans [of 100 400] dvd_trans [of 4 100])
  with l show ?thesis
    by (cases "y mod 4 = 0"; cases "y mod 100 = 0"; cases "y mod 400 = 0") (simp_all only: isLeap_def, simp_all)
qed

lemma days_to_year_bounds:
  "146097 * y - 396 \<le> 400 * days_to_year y" "400 * days_to_year y \<le> 146097 * y + 699"
proof -
  define a b c where "a = (y + 3) div 4" and "b = (y + 99) div 100" and "c = (y + 399) div 400"
  note q = div_bounds [of 4 "y + 3", folded a_def, simplified] div_bounds [of 100 "y + 99", folded b_def, simplified]
    div_bounds [of 400 "y + 399", folded c_def, simplified]
  have d: "days_to_year y = 365 * y + a - b + c" by (simp only: days_to_year_def a_def b_def c_def)
  show "146097 * y - 396 \<le> 400 * days_to_year y" unfolding d using q by (simp add: algebra_simps)
  show "400 * days_to_year y \<le> 146097 * y + 699" unfolding d using q by (simp add: algebra_simps)
qed

lemma year_of_bounds: "days_to_year (year_of z) \<le> z" "z < days_to_year (year_of z + 1)"
proof -
  define y where "y = z * 400 div 146097"
  note y = div_bounds [of 146097 "z * 400", folded y_def, simplified]
  have "days_to_year (y - 1) \<le> z" using y days_to_year_bounds(2) [of "y - 1"] by (simp add: algebra_simps)
  moreover have "z < days_to_year (y + 2)" using y days_to_year_bounds(1) [of "y + 2"] by (simp add: algebra_simps)
  ultimately show "days_to_year (year_of z) \<le> z" "z < days_to_year (year_of z + 1)"
    by (auto simp: year_of_def Let_def y_def [symmetric] add.commute)
qed

lemma days_before_table:
  "days_before l 1 = 0" "days_before l 2 = 31" "days_before l 3 = 59 + of_bool l" "days_before l 4 = 90 + of_bool l"
  "days_before l 5 = 120 + of_bool l" "days_before l 6 = 151 + of_bool l" "days_before l 7 = 181 + of_bool l"
  "days_before l 8 = 212 + of_bool l" "days_before l 9 = 243 + of_bool l" "days_before l 10 = 273 + of_bool l"
  "days_before l 11 = 304 + of_bool l" "days_before l 12 = 334 + of_bool l" "days_before l 13 = 365 + of_bool l"
  by (simp_all add: days_before_def numeral_eq_Suc)

lemma month_of_bounds:
  assumes "0 \<le> yd" "yd < 365 + of_bool l"
  shows "1 \<le> month_of l yd \<and> month_of l yd \<le> 12 \<and> days_before l (month_of l yd) \<le> yd \<and> yd < days_before l (month_of l yd + 1)"
  using assms unfolding month_of_def by (simp add: days_before_table split: if_split)

lemma civil_valid:
  assumes "civil n = (y, m, d)"
  shows "1 \<le> m" "m \<le> 12" "1 \<le> d" "d \<le> daysIn m y" "date_days y m d = n"
proof -
  let ?z = "n + epoch_days"
  let ?yd = "?z - days_to_year y"
  from assms have y: "y = year_of ?z" and m: "m = month_of (isLeap y) ?yd" and d: "d = ?yd - days_before (isLeap y) m + 1"
    by (auto simp: civil_def Let_def)
  have "0 \<le> ?yd" "?yd < 365 + of_bool (isLeap y)"
    using year_of_bounds [of ?z] year_length [of y] by (auto simp: y)
  from month_of_bounds [OF this] m d show "1 \<le> m" "m \<le> 12" "1 \<le> d" "d \<le> daysIn m y"
    by (auto simp: daysIn_def)
  show "date_days y m d = n" by (simp add: date_days_def d)
qed

section \<open>Formatting\<close>

definition trim_zeros :: "string \<Rightarrow> string" where
  "trim_zeros s = rev (dropWhile (\<lambda>c. c = CHR ''0'') (rev s))"

definition formatNano :: "int \<Rightarrow> string" where
  "formatNano ns = (let s = trim_zeros (padInt ns 9) in if s = [] then [] else CHR ''.'' # s)"

definition FormatRFC3339Nano :: "gotime \<Rightarrow> string" where
  "FormatRFC3339Nano t =
     (let sec = t div Second; day = sec div 86400; sod = sec mod 86400; (y, m, d) = civil day
      in padInt y 4 @ ''-'' @ padInt m 2 @ ''-'' @ padInt d 2 @ ''T'' @ padInt (sod div 3600) 2 @ '':''
         @ padInt (sod div 60 mod 60) 2 @ '':'' @ padInt (sod mod 60) 2 @ formatNano (t mod Second) @ ''Z'')"

section \<open>Parsing\<close>

text \<open>The pieces of \<^verbatim>\<open>parse\<close>: a piece returns its value and the rest of the text, or fails.\<close>

fun getnum :: "bool \<Rightarrow> string \<Rightarrow> (int \<times> string) option" where
  "getnum fixed [] = None"
| "getnum fixed [c] = (if isDigit c \<and> \<not> fixed then Some (digit_value c, []) else None)"
| "getnum fixed (c # d # s) =
     (if \<not> isDigit c then None
      else if isDigit d then Some (10 * digit_value c + digit_value d, s)
      else if fixed then None else Some (digit_value c, d # s))"

definition getyear :: "string \<Rightarrow> (int \<times> string) option" where
  "getyear s = (if length s < 4 \<or> \<not> list_all isDigit (take 4 s) then None else Some (dec_value (take 4 s), drop 4 s))"

definition skip :: "char \<Rightarrow> string \<Rightarrow> string option" where
  "skip c s = (case s of [] \<Rightarrow> None | x # xs \<Rightarrow> if x = c then Some xs else None)"

definition in_range :: "int \<Rightarrow> int \<Rightarrow> (int \<times> string) option \<Rightarrow> (int \<times> string) option" where
  "in_range lo hi r = (case r of None \<Rightarrow> None | Some (n, s) \<Rightarrow> if lo \<le> n \<and> n \<le> hi then Some (n, s) else None)"

definition parseNanoseconds :: "string \<Rightarrow> int" where
  "parseNanoseconds ds = dec_value (take 9 ds) * 10 ^ (9 - length (take 9 ds))"

definition getfrac :: "string \<Rightarrow> int \<times> string" where
  "getfrac s = (case s of
     c # d # r \<Rightarrow> if (c = CHR ''.'' \<or> c = CHR '','') \<and> isDigit d
       then (parseNanoseconds (takeWhile isDigit (d # r)), dropWhile isDigit (d # r)) else (0, s)
   | _ \<Rightarrow> (0, s))"

text \<open>The zone: \<^verbatim>\<open>Z\<close>, or a sign, two digits, a colon and two digits; the result is in seconds.\<close>

definition getzone :: "string \<Rightarrow> (int \<times> string) option" where
  "getzone s = (case s of [] \<Rightarrow> None | z # r \<Rightarrow>
     if z = CHR ''Z'' then Some (0, r)
     else if length s < 6 \<or> s ! 3 \<noteq> CHR '':'' then None
     else (case (getnum True [s ! 1, s ! 2], getnum True [s ! 4, s ! 5]) of
             (Some (hr, _), Some (mm, _)) \<Rightarrow>
               if hr > 24 \<or> mm > 60 then None
               else if z = CHR ''+'' then Some ((hr * 60 + mm) * 60, drop 6 s)
               else if z = CHR ''-'' then Some (- ((hr * 60 + mm) * 60), drop 6 s)
               else None
           | _ \<Rightarrow> None))"

definition ParseRFC3339 :: "string \<Rightarrow> gotime option" where
  "ParseRFC3339 s =
     Option.bind (getyear s) (\<lambda>(y, s). Option.bind (skip CHR ''-'' s) (\<lambda>s.
     Option.bind (in_range 1 12 (getnum True s)) (\<lambda>(m, s). Option.bind (skip CHR ''-'' s) (\<lambda>s.
     Option.bind (getnum True s) (\<lambda>(d, s). Option.bind (skip CHR ''T'' s) (\<lambda>s.
     Option.bind (in_range 0 23 (getnum False s)) (\<lambda>(h, s). Option.bind (skip CHR '':'' s) (\<lambda>s.
     Option.bind (in_range 0 59 (getnum True s)) (\<lambda>(mi, s). Option.bind (skip CHR '':'' s) (\<lambda>s.
     Option.bind (in_range 0 59 (getnum True s)) (\<lambda>(sc, s).
     let (ns, s) = getfrac s
     in Option.bind (getzone s) (\<lambda>(off, s).
     if s \<noteq> [] \<or> d < 1 \<or> d > daysIn m y then None
     else Some ((date_days y m d * 86400 + h * 3600 + mi * 60 + sc - off) * Second + ns)))))))))))))"

section \<open>Parsing what was formatted\<close>

lemma getnum_pad:
  assumes "0 \<le> n" "n < 100"
  shows "getnum fixed (padInt n 2 @ s) = Some (n, s)"
proof -
  note p = padInt_digits [of n 2]
  from p assms obtain a b where ab: "padInt n 2 = [a, b]" by (auto simp: length_Suc_conv numeral_2_eq_2)
  with p assms have "isDigit a" "isDigit b" "10 * digit_value a + digit_value b = n"
    by (auto simp: dec_value_def)
  with ab show ?thesis by simp
qed

lemma getyear_pad: "0 \<le> y \<Longrightarrow> y \<le> 9999 \<Longrightarrow> getyear (padInt y 4 @ s) = Some (y, s)"
  using padInt_digits [of y 4] by (simp add: getyear_def)

lemma skip_Cons [simp]: "skip c (c # s) = Some s"
  by (simp add: skip_def)

lemma trim_zeros_value:
  "dec_value (trim_zeros s) * 10 ^ (length s - length (trim_zeros s)) = dec_value s \<and> length (trim_zeros s) \<le> length s"
proof (induction s rule: rev_induct)
  case (snoc c s)
  show ?case
  proof (cases "c = CHR ''0''")
    case True
    then have t: "trim_zeros (s @ [c]) = trim_zeros s" by (simp add: trim_zeros_def)
    from snoc have "Suc (length s) - length (trim_zeros s) = Suc (length s - length (trim_zeros s))" by (simp add: Suc_diff_le)
    with snoc True show ?thesis unfolding t by (simp add: digit_value_def)
  qed (simp add: trim_zeros_def)
qed (simp add: trim_zeros_def)

lemma trim_zeros_digits: "list_all isDigit s \<Longrightarrow> list_all isDigit (trim_zeros s)"
  by (auto simp: trim_zeros_def list_all_iff dest: set_dropWhileD)

lemma getfrac_format:
  assumes "0 \<le> ns" "ns < Second"
  shows "getfrac (formatNano ns @ ''Z'') = (ns, ''Z'')"
proof -
  let ?s = "trim_zeros (padInt ns 9)"
  have p: "length (padInt ns 9) = 9" "list_all isDigit (padInt ns 9)" "dec_value (padInt ns 9) = ns"
    using padInt_digits [of ns 9] assms by simp_all
  note v = trim_zeros_value [of "padInt ns 9", unfolded p]
  have d: "list_all isDigit ?s" using p(2) by (rule trim_zeros_digits)
  show ?thesis
  proof (cases ?s)
    case Nil
    with v show ?thesis by (simp add: formatNano_def getfrac_def)
  next
    case (Cons c r)
    have nz: "\<not> isDigit CHR ''Z''" by (simp add: isDigit_def)
    have tw: "takeWhile isDigit (?s @ ''Z'') = ?s" "dropWhile isDigit (?s @ ''Z'') = ''Z''"
      using d nz by (simp_all add: takeWhile_append2 dropWhile_append2 list_all_iff)
    have "parseNanoseconds ?s = ns" using v by (simp add: parseNanoseconds_def)
    with tw d Cons show ?thesis by (cases r) (simp_all add: formatNano_def getfrac_def)
  qed
qed

text \<open>The instants whose year has four digits.\<close>

definition four_digit_year :: "gotime \<Rightarrow> bool" where
  "four_digit_year t \<longleftrightarrow> (let y = fst (civil (t div Second div 86400)) in 0 \<le> y \<and> y \<le> 9999)"

lemma time_of_day:
  fixes s :: int
  shows "s div 3600 * 3600 + s div 60 mod 60 * 60 + s mod 60 = s"
proof -
  have "s div 3600 = s div 60 div 60" by (simp add: zdiv_zmult2_eq [symmetric])
  then have "(s div 3600 * 60 + s div 60 mod 60) = s div 60" by simp
  moreover have "s div 60 * 60 + s mod 60 = s" by simp
  ultimately show ?thesis by linarith
qed

lemma Parse_Format:
  assumes "four_digit_year t"
  shows "ParseRFC3339 (FormatRFC3339Nano t) = Some t"
proof -
  define sod where "sod = t div Second mod 86400"
  obtain y m d where c: "civil (t div Second div 86400) = (y, m, d)" by (metis surj_pair)
  note v = civil_valid [OF c]
  have y: "0 \<le> y" "y \<le> 9999" using assms c by (auto simp: four_digit_year_def Let_def)
  have "daysIn m y \<le> 31"
    using v(1,2) by (auto simp: daysIn_def days_before_def nth_Cons' numeral_eq_Suc)
  with v have md: "0 \<le> m" "m < 100" "0 \<le> d" "d < 100" by linarith+
  have sod: "0 \<le> sod" "sod < 86400" by (simp_all add: sod_def)
  have h: "0 \<le> sod div 3600" "sod div 3600 \<le> 23"
    using sod div_bounds [of 3600 sod] by simp_all
  have mi: "0 \<le> sod div 60 mod 60" "sod div 60 mod 60 \<le> 59" using pos_mod_bound [of 60 "sod div 60"] by simp_all
  have sc: "0 \<le> sod mod 60" "sod mod 60 \<le> 59" using pos_mod_bound [of 60 sod] by simp_all
  have h3: "sod div 3600 < 100" "sod div 60 mod 60 < 100" "sod mod 60 < 100" using h(2) mi(2) sc(2) by linarith+
  have frac: "getfrac (formatNano (t mod Second) @ ''Z'') = (t mod Second, ''Z'')" by (rule getfrac_format) simp_all
  have "ParseRFC3339 (FormatRFC3339Nano t) =
      Some ((date_days y m d * 86400 + sod div 3600 * 3600 + sod div 60 mod 60 * 60 + sod mod 60) * Second + t mod Second)"
    using v
    by (simp add: frac h mi sc h3 ParseRFC3339_def FormatRFC3339Nano_def Let_def c sod_def [symmetric] getyear_pad [OF y] getnum_pad md in_range_def
        getzone_def)
  also have "\<dots> = Some ((t div Second div 86400 * 86400 + sod) * Second + t mod Second)"
    using time_of_day [of sod] v(5) by (simp only: add.assoc)
  also have "\<dots> = Some t" by (simp add: sod_def)
  finally show ?thesis .
qed

end
