(* ===== verification/Httpx.thy ===== *)
theory Httpx
  imports Repos Rfc3339
begin

text \<open>
  \<^verbatim>\<open>internal/platform/httpx\<close>: requests and responses, the error envelope, the API key, the
  request identifier and the pagination cursor.

  A request is what gin hands to a handler: headers, query and path parameters as functions that give
  the empty string for a name that is absent, and the matched route. A response is a status, the
  headers the program sets and a JSON document.
\<close>

record request =
  rq_Method :: string
  rq_FullPath :: string
  rq_GetHeader :: "string \<Rightarrow> string"
  rq_Query :: "string \<Rightarrow> string"
  rq_Param :: "string \<Rightarrow> string"

record response =
  hr_Status :: int
  hr_Header :: "(string \<times> string) list"
  hr_Body :: json

definition c_JSON :: "int \<Rightarrow> json \<Rightarrow> response" where
  "c_JSON status body = \<lparr>hr_Status = status, hr_Header = [], hr_Body = body\<rparr>"

text \<open>A field tagged \<^verbatim>\<open>omitempty\<close> is left out when it is the empty string or nil.\<close>

definition omit_str :: "string \<Rightarrow> string \<Rightarrow> (string \<times> json) list" where
  "omit_str name v = (if v = [] then [] else [(name, JStr v)])"

definition omit_nil :: "string \<Rightarrow> string option \<Rightarrow> (string \<times> json) list" where
  "omit_nil name v = (case v of None \<Rightarrow> [] | Some s \<Rightarrow> [(name, JStr s)])"

section \<open>errors.go\<close>

record ErrorBody =
  eb_Error :: string
  eb_Code :: string
  eb_Details :: string

definition ErrorBody_json :: "ErrorBody \<Rightarrow> json" where
  "ErrorBody_json b = JObj ([(''error'', JStr (eb_Error b))] @ omit_str ''code'' (eb_Code b) @ omit_str ''details'' (eb_Details b))"

definition error_response :: "int \<Rightarrow> string \<Rightarrow> string \<Rightarrow> string \<Rightarrow> response" where
  "error_response status msg code details =
     c_JSON status (ErrorBody_json \<lparr>eb_Error = msg, eb_Code = code, eb_Details = details\<rparr>)"

definition WriteError :: "go_error \<Rightarrow> response" where
  "WriteError err =
     (if IsNotFound err then error_response 404 ''not found'' ''not_found'' []
      else if errors_Is err ErrConflict then error_response 409 ''state conflict'' ''conflict'' (error_text err)
      else if errors_Is err ErrNoJobAvailable then error_response 404 ''no job available'' ''not_found'' []
      else if errors_Is err ErrKeyInProgress then error_response 409 ''idempotency key in progress'' ''idempotency_in_progress'' []
      else if errors_Is err ErrUnauthorized then error_response 401 ''unauthorized'' ''unauthorized'' []
      else if errors_Is err ErrBadRequest then error_response 400 ''bad request'' ''bad_request'' (error_text err)
      else if errors_Is err ErrValidation then error_response 400 ''validation failed'' ''validation_error'' (error_text err)
      else error_response 500 ''internal server error'' ''internal_error'' [])"

section \<open>auth.go\<close>

record APIKeyConfig =
  ak_ExpectedKey :: string
  ak_DevBypass :: bool

text \<open>The middleware lets the request pass, or answers 401 itself.\<close>

definition APIKey :: "APIKeyConfig \<Rightarrow> request \<Rightarrow> response option" where
  "APIKey cfg c =
     (let key = rq_GetHeader c ''X-API-Key''
      in if ak_DevBypass cfg \<and> (key = [] \<or> (ak_ExpectedKey cfg \<noteq> [] \<and> key = ak_ExpectedKey cfg)) then None
         else if ak_ExpectedKey cfg = [] \<or> key \<noteq> ak_ExpectedKey cfg
         then Some (error_response 401 ''unauthorized'' ''unauthorized'' [])
         else None)"

lemma APIKey_passes:
  "APIKey cfg c = None \<longleftrightarrow>
     (ak_ExpectedKey cfg \<noteq> [] \<and> rq_GetHeader c ''X-API-Key'' = ak_ExpectedKey cfg)
     \<or> (ak_DevBypass cfg \<and> rq_GetHeader c ''X-API-Key'' = [])"
  by (auto simp: APIKey_def Let_def)

section \<open>middleware.go\<close>

text \<open>The identifier stored in the context; \<open>fresh\<close> is what \<^verbatim>\<open>uuid.NewString()\<close> returns.\<close>

definition RequestID :: "string \<Rightarrow> request \<Rightarrow> string" where
  "RequestID fresh c = (let requestID = rq_GetHeader c ''X-Request-ID'' in if requestID = [] then fresh else requestID)"

definition RequestIDFromContext :: "string option \<Rightarrow> string" where
  "RequestIDFromContext v = (case v of Some s \<Rightarrow> s | None \<Rightarrow> [])"

text \<open>
  The line of the access log: its message and its attributes. What the connection knows of the request beside gin's context is the record
  \<open>conn\<close>; the clock behind \<^verbatim>\<open>time.Since\<close> is monotonic, so that the division of \<^verbatim>\<open>Milliseconds\<close> does not round up.
\<close>

record conn =
  cn_Path :: string
  cn_ClientIP :: string
  cn_Start :: gotime
  cn_End :: gotime

type_synonym log_line = "string \<times> (string \<times> json) list"

definition RequestLogger :: "conn \<Rightarrow> string \<Rightarrow> request \<Rightarrow> response \<Rightarrow> log_line" where
  "RequestLogger k requestID c r = (''http request'',
     [(''request_id'', JStr requestID), (''method'', JStr (rq_Method c)), (''path'', JStr (cn_Path k)), (''status'', JInt (hr_Status r)),
      (''duration_ms'', JInt ((cn_End k - cn_Start k) div 1000000)), (''client_ip'', JStr (cn_ClientIP k))])"

section \<open>pagination.go\<close>

record PageParams =
  pp_Limit :: int
  pp_CursorTime :: "gotime option"
  pp_CursorID :: "uuid option"

abbreviation defaultLimit :: int where "defaultLimit \<equiv> 50"
abbreviation maxLimit :: int where "maxLimit \<equiv> 200"

text \<open>The loop over the bytes of the cursor: the index of the first separator, or -1.\<close>

primrec sep_index :: "int \<Rightarrow> string \<Rightarrow> int" where
  "sep_index i [] = -1"
| "sep_index i (c # cs) = (if c = CHR ''|'' then i else sep_index (i + 1) cs)"

definition invalid :: "string \<Rightarrow> go_error" where
  "invalid msg = JoinErr ErrValidation (Errorf msg [])"

definition page_limit :: "string \<Rightarrow> int res" where
  "page_limit raw =
     (if raw = [] then Inr defaultLimit
      else case Atoi raw of
        None \<Rightarrow> Inl (invalid ''limit must be a positive integer'')
      | Some n \<Rightarrow> if n \<le> 0 then Inl (invalid ''limit must be a positive integer'')
                  else Inr (if n > maxLimit then maxLimit else n))"

definition ParsePageParams :: "golib \<Rightarrow> request \<Rightarrow> PageParams res" where
  "ParsePageParams L c =
     (case page_limit (rq_Query c ''limit'') of
        Inl err \<Rightarrow> Inl err
      | Inr limit \<Rightarrow>
          let params = \<lparr>pp_Limit = limit, pp_CursorTime = None, pp_CursorID = None\<rparr>;
              cursor = rq_Query c ''cursor'';
              sep = sep_index 0 cursor
          in if cursor = [] then Inr params
             else if sep \<le> 0 \<or> sep \<ge> int (length cursor) - 1 then Inl (invalid ''cursor must be <timestamp>|<uuid>'')
             else (case ParseRFC3339 (take (nat sep) cursor) of
               None \<Rightarrow> Inl (invalid ''invalid cursor timestamp'')
             | Some ts \<Rightarrow>
                 (case uuid_Parse L (drop (nat sep + 1) cursor) of
                    None \<Rightarrow> Inl (invalid ''invalid cursor id'')
                  | Some i \<Rightarrow> Inr (params\<lparr>pp_CursorTime := Some ts, pp_CursorID := Some i\<rparr>))))"

definition NextCursor :: "golib \<Rightarrow> gotime \<Rightarrow> uuid \<Rightarrow> string" where
  "NextCursor L t i = FormatRFC3339Nano t @ ''|'' @ uuid_String L i"

record PageMeta =
  pm_Limit :: int
  pm_NextCursor :: "string option"
  pm_HasMore :: bool

definition PageMeta_json :: "PageMeta \<Rightarrow> json" where
  "PageMeta_json m = JObj ([(''limit'', JInt (pm_Limit m))] @ omit_nil ''next_cursor'' (pm_NextCursor m)
     @ [(''has_more'', JBool (pm_HasMore m))])"

section \<open>Cursors read back\<close>

lemma sep_index_append: "CHR ''|'' \<notin> set s \<Longrightarrow> sep_index i (s @ CHR ''|'' # t) = i + int (length s)"
  by (induction s arbitrary: i) auto

lemma isDigit_bar: "list_all isDigit s \<Longrightarrow> CHR ''|'' \<notin> set s"
  by (auto simp: list_all_iff isDigit_def)

lemma padInt_bar: "CHR ''|'' \<notin> set (padInt n w)"
  using isDigit_bar [OF dec_digits_digits(1)] by (auto simp: padInt_def Let_def)

lemma formatNano_bar: "CHR ''|'' \<notin> set (formatNano n)"
  using padInt_bar [of n 9] by (auto simp: formatNano_def Let_def trim_zeros_def dest: set_dropWhileD)

lemma Format_bar: "CHR ''|'' \<notin> set (FormatRFC3339Nano t)"
  by (auto simp: FormatRFC3339Nano_def Let_def padInt_bar formatNano_bar split: prod.splits)

lemma Format_nonempty: "FormatRFC3339Nano t \<noteq> []"
  by (auto simp: FormatRFC3339Nano_def Let_def split: prod.splits)

lemma page_limit_range: "page_limit raw = Inr n \<Longrightarrow> 1 \<le> n \<and> n \<le> maxLimit"
  by (auto simp: page_limit_def split: if_splits option.splits)

text \<open>What the engine relies on of \<^verbatim>\<open>google/uuid\<close>: a printed identifier is parsed back.\<close>

definition uuid_text_ok :: "golib \<Rightarrow> bool" where
  "uuid_text_ok L \<longleftrightarrow> (\<forall>u. uuid_Parse L (uuid_String L u) = Some u \<and> uuid_String L u \<noteq> [])"

lemma ParsePageParams_NextCursor:
  assumes "uuid_text_ok L" "four_digit_year t" "rq_Query c ''cursor'' = NextCursor L t i" "page_limit (rq_Query c ''limit'') = Inr n"
  shows "ParsePageParams L c = Inr \<lparr>pp_Limit = n, pp_CursorTime = Some t, pp_CursorID = Some i\<rparr>"
proof -
  let ?f = "FormatRFC3339Nano t" and ?u = "uuid_String L i"
  have sep: "sep_index 0 (NextCursor L t i) = int (length ?f)"
    using sep_index_append [OF Format_bar, of 0 t ?u] by (simp add: NextCursor_def)
  have "?u \<noteq> []" "uuid_Parse L ?u = Some i" using assms(1) by (simp_all add: uuid_text_ok_def)
  moreover have "take (length ?f) (NextCursor L t i) = ?f" "drop (length ?f + 1) (NextCursor L t i) = ?u"
      "NextCursor L t i \<noteq> []" "length (NextCursor L t i) = length ?f + 1 + length ?u"
    by (simp_all add: NextCursor_def)
  ultimately show ?thesis
    using Format_nonempty [of t] Parse_Format [OF assms(2)]
    by (auto simp: ParsePageParams_def assms(3,4) sep Let_def)
qed

lemma demo_uuid_text: "uuid_text_ok demo_lib"
proof -
  have "horner_sum of_bool 2 (map (bit u) [0..<128]) = u" for u :: uuid
    using horner_sum_bit_eq_take_bit [of u 128] take_bit_length_eq [of u] by simp
  moreover have "map (\<lambda>c. c = CHR ''1'') (map (\<lambda>i. if bit u i then CHR ''1'' else CHR ''0'') [0..<128]) = map (bit u) [0..<128]" for u :: uuid
    by simp
  ultimately show ?thesis by (simp add: uuid_text_ok_def demo_lib_def del: map_map upt_rec_numeral)
qed

text \<open>
  C29. A cursor survives the trip through the query string: parsing the parameters of a request whose cursor was built from a time and
  an identifier gives back exactly that time, to the nanosecond, and that identifier, with the limit asked for, cut off at 200 (50 when none
  is given). Assumed of \<^verbatim>\<open>google/uuid\<close> is that it parses what it prints; the year has four digits.
\<close>

theorem cursor_roundtrip:
  assumes "uuid_text_ok L" "four_digit_year t" "rq_Query c ''cursor'' = NextCursor L t i"
    and "rq_Query c ''limit'' = [] \<or> (Atoi (rq_Query c ''limit'') = Some n \<and> 0 < n)"
  shows "ParsePageParams L c = Inr \<lparr>pp_Limit = (if rq_Query c ''limit'' = [] then 50 else min n 200),
    pp_CursorTime = Some t, pp_CursorID = Some i\<rparr>"
  by (rule ParsePageParams_NextCursor [OF assms(1-3)]) (use assms(4) in \<open>auto simp: page_limit_def\<close>)

theorem cursor_roundtrip_witness:
  "ParsePageParams demo_lib \<lparr>rq_Method = ''GET'', rq_FullPath = [], rq_GetHeader = (\<lambda>_. []),
       rq_Query = (\<lambda>_. [])(''limit'' := ''300'', ''cursor'' := NextCursor demo_lib 1500000000123456789 7), rq_Param = (\<lambda>_. [])\<rparr>
   = Inr \<lparr>pp_Limit = 200, pp_CursorTime = Some 1500000000123456789, pp_CursorID = Some 7\<rparr>"
proof -
  have "year_of 736889 = 2017" by (simp add: year_of_def days_to_year_def)
  then have "four_digit_year 1500000000123456789" by (simp add: four_digit_year_def civil_def Let_def)
  moreover have "Atoi ''300'' = Some 300" by (simp add: Atoi_def isDigit_def dec_value_def digit_value_def in_int64_def)
  ultimately show ?thesis
    using cursor_roundtrip [OF demo_uuid_text, of 1500000000123456789 "\<lparr>rq_Method = ''GET'', rq_FullPath = [], rq_GetHeader = (\<lambda>_. []),
       rq_Query = (\<lambda>_. [])(''limit'' := ''300'', ''cursor'' := NextCursor demo_lib 1500000000123456789 7), rq_Param = (\<lambda>_. [])\<rparr>" 7 300]
    by (simp del: upt_rec_numeral)
qed

end
