(* ===== verification/Dto.thy ===== *)
theory Dto
  imports Httpx
begin

text \<open>
  \<^verbatim>\<open>internal/api/dto\<close>: the response objects of the API, how rows are mapped to them, and their
  JSON. A record stands for a struct; its \<open>_json\<close> function is what \<^verbatim>\<open>encoding/json\<close> makes of
  the field tags. A mapper fails when an identifier is NULL; the key columns are NOT NULL, so their
  \<^verbatim>\<open>pgtype.UUID\<close> is \<open>Some\<close>.
\<close>

section \<open>Times and enumerations\<close>

definition formatPgTime :: "gotime option \<Rightarrow> string" where
  "formatPgTime t = (case t of None \<Rightarrow> [] | Some x \<Rightarrow> FormatRFC3339Nano x)"

definition formatPgTimePtr :: "gotime option \<Rightarrow> string option" where
  "formatPgTimePtr t = (case t of None \<Rightarrow> None | Some x \<Rightarrow> Some (FormatRFC3339Nano x))"

primrec error_class_text :: "ErrorClass \<Rightarrow> string" where
  "error_class_text ErrorClassTransient = ''transient''"
| "error_class_text ErrorClassTerminal = ''terminal''"
| "error_class_text (ErrorClassRaw s) = s"

primrec attempt_status_text :: "PayoutAttemptStatus \<Rightarrow> string" where
  "attempt_status_text PayoutAttemptStatusStarted = ''started''"
| "attempt_status_text PayoutAttemptStatusSucceeded = ''succeeded''"
| "attempt_status_text PayoutAttemptStatusFailed = ''failed''"

primrec actor_type_text :: "AuditActorType \<Rightarrow> string" where
  "actor_type_text AuditActorTypeSystem = ''system''"
| "actor_type_text AuditActorTypeAdmin = ''admin''"
| "actor_type_text AuditActorTypeApi = ''api''"

section \<open>Settlement jobs\<close>

record SettlementJobResponse =
  jr_ID :: string
  jr_MaturityScheduleID :: string
  jr_InvestmentID :: string
  jr_IdempotencyKey :: string
  jr_Status :: string
  jr_PrincipalCents :: int
  jr_GrossReturnCents :: int
  jr_PlatformFeeCents :: int
  jr_WithholdingTaxCents :: int
  jr_NetPayoutCents :: int
  jr_PayoutReference :: "string option"
  jr_RetryCount :: int
  jr_MaxRetries :: int
  jr_NextRetryAt :: "string option"
  jr_ProcessingOwner :: "string option"
  jr_LastError :: "string option"
  jr_ErrorClass :: "string option"
  jr_DeadLetterReason :: "string option"
  jr_CreatedAt :: string
  jr_UpdatedAt :: string
  jr_CompletedAt :: "string option"

definition SettlementJobResponse_json :: "SettlementJobResponse \<Rightarrow> json" where
  "SettlementJobResponse_json r = JObj (
     [(''id'', JStr (jr_ID r)), (''maturity_schedule_id'', JStr (jr_MaturityScheduleID r)),
      (''investment_id'', JStr (jr_InvestmentID r)), (''idempotency_key'', JStr (jr_IdempotencyKey r)),
      (''status'', JStr (jr_Status r)), (''principal_cents'', JInt (jr_PrincipalCents r)),
      (''gross_return_cents'', JInt (jr_GrossReturnCents r)), (''platform_fee_cents'', JInt (jr_PlatformFeeCents r)),
      (''withholding_tax_cents'', JInt (jr_WithholdingTaxCents r)), (''net_payout_cents'', JInt (jr_NetPayoutCents r))]
     @ omit_nil ''payout_reference'' (jr_PayoutReference r)
     @ [(''retry_count'', JInt (jr_RetryCount r)), (''max_retries'', JInt (jr_MaxRetries r))]
     @ omit_nil ''next_retry_at'' (jr_NextRetryAt r) @ omit_nil ''processing_owner'' (jr_ProcessingOwner r)
     @ omit_nil ''last_error'' (jr_LastError r) @ omit_nil ''error_class'' (jr_ErrorClass r)
     @ omit_nil ''dead_letter_reason'' (jr_DeadLetterReason r)
     @ [(''created_at'', JStr (jr_CreatedAt r)), (''updated_at'', JStr (jr_UpdatedAt r))]
     @ omit_nil ''completed_at'' (jr_CompletedAt r))"

definition MapSettlementJob :: "golib \<Rightarrow> SettlementJob \<Rightarrow> SettlementJobResponse res" where
  "MapSettlementJob L job =
     (case PgtypeToUUID (Some (sj_ID job)) of Inl err \<Rightarrow> Inl err | Inr i \<Rightarrow>
     (case PgtypeToUUID (Some (sj_MaturityScheduleID job)) of Inl err \<Rightarrow> Inl err | Inr maturityID \<Rightarrow>
     (case PgtypeToUUID (Some (sj_InvestmentID job)) of Inl err \<Rightarrow> Inl err | Inr investmentID \<Rightarrow>
     Inr \<lparr>jr_ID = uuid_String L i, jr_MaturityScheduleID = uuid_String L maturityID,
          jr_InvestmentID = uuid_String L investmentID, jr_IdempotencyKey = sj_IdempotencyKey job,
          jr_Status = status_text (sj_Status job), jr_PrincipalCents = sj_PrincipalCents job,
          jr_GrossReturnCents = sj_GrossReturnCents job, jr_PlatformFeeCents = sj_PlatformFeeCents job,
          jr_WithholdingTaxCents = sj_WithholdingTaxCents job, jr_NetPayoutCents = sj_NetPayoutCents job,
          jr_PayoutReference = sj_PayoutReference job, jr_RetryCount = sj_RetryCount job,
          jr_MaxRetries = sj_MaxRetries job, jr_NextRetryAt = formatPgTimePtr (sj_NextRetryAt job),
          jr_ProcessingOwner = sj_ProcessingOwner job, jr_LastError = sj_LastError job,
          jr_ErrorClass = map_option error_class_text (sj_ErrorClass job),
          jr_DeadLetterReason = sj_DeadLetterReason job, jr_CreatedAt = formatPgTime (Some (sj_CreatedAt job)),
          jr_UpdatedAt = formatPgTime (Some (sj_UpdatedAt job)), jr_CompletedAt = formatPgTimePtr (sj_CompletedAt job)\<rparr>)))"

definition SettlementJobListResponse_json :: "SettlementJobResponse list \<Rightarrow> PageMeta \<Rightarrow> json" where
  "SettlementJobListResponse_json items page =
     JObj [(''items'', JArr (map SettlementJobResponse_json items)), (''page'', PageMeta_json page)]"

definition JobActionResponse_json :: "SettlementJobResponse \<Rightarrow> json" where
  "JobActionResponse_json job = JObj [(''job'', SettlementJobResponse_json job)]"

definition SchedulerTickResponse_json :: "int \<Rightarrow> json" where
  "SchedulerTickResponse_json created = JObj [(''jobs_created'', JInt created)]"

section \<open>Payout attempts\<close>

record PayoutAttemptResponse =
  ar_ID :: string
  ar_SettlementJobID :: string
  ar_AttemptNumber :: int
  ar_Status :: string
  ar_PayoutReference :: "string option"
  ar_ErrorMessage :: "string option"
  ar_ErrorClass :: "string option"
  ar_StartedAt :: string
  ar_FinishedAt :: "string option"

definition PayoutAttemptResponse_json :: "PayoutAttemptResponse \<Rightarrow> json" where
  "PayoutAttemptResponse_json r = JObj (
     [(''id'', JStr (ar_ID r)), (''settlement_job_id'', JStr (ar_SettlementJobID r)),
      (''attempt_number'', JInt (ar_AttemptNumber r)), (''status'', JStr (ar_Status r))]
     @ omit_nil ''payout_reference'' (ar_PayoutReference r) @ omit_nil ''error_message'' (ar_ErrorMessage r)
     @ omit_nil ''error_class'' (ar_ErrorClass r) @ [(''started_at'', JStr (ar_StartedAt r))]
     @ omit_nil ''finished_at'' (ar_FinishedAt r))"

definition MapPayoutAttempt :: "golib \<Rightarrow> PayoutAttempt \<Rightarrow> PayoutAttemptResponse res" where
  "MapPayoutAttempt L attempt =
     (case PgtypeToUUID (Some (pa_ID attempt)) of Inl err \<Rightarrow> Inl err | Inr i \<Rightarrow>
     (case PgtypeToUUID (Some (pa_SettlementJobID attempt)) of Inl err \<Rightarrow> Inl err | Inr jobID \<Rightarrow>
     Inr \<lparr>ar_ID = uuid_String L i, ar_SettlementJobID = uuid_String L jobID, ar_AttemptNumber = pa_AttemptNumber attempt,
          ar_Status = attempt_status_text (pa_Status attempt), ar_PayoutReference = pa_PayoutReference attempt,
          ar_ErrorMessage = pa_ErrorMessage attempt, ar_ErrorClass = map_option error_class_text (pa_ErrorClass attempt),
          ar_StartedAt = formatPgTime (Some (pa_StartedAt attempt)), ar_FinishedAt = formatPgTimePtr (pa_FinishedAt attempt)\<rparr>))"

definition PayoutAttemptListResponse_json :: "PayoutAttemptResponse list \<Rightarrow> json" where
  "PayoutAttemptListResponse_json items = JObj [(''items'', JArr (map PayoutAttemptResponse_json items))]"

section \<open>The ledger\<close>

record LedgerEntryResponse =
  er_ID :: string
  er_EntryGroupID :: string
  er_SettlementJobID :: string
  er_AccountID :: string
  er_Side :: string
  er_AmountCents :: int
  er_Currency :: string
  er_Description :: string
  er_PostedAt :: string
  er_Metadata :: json

definition LedgerEntryResponse_json :: "LedgerEntryResponse \<Rightarrow> json" where
  "LedgerEntryResponse_json r = JObj
     [(''id'', JStr (er_ID r)), (''entry_group_id'', JStr (er_EntryGroupID r)),
      (''settlement_job_id'', JStr (er_SettlementJobID r)), (''account_id'', JStr (er_AccountID r)),
      (''side'', JStr (er_Side r)), (''amount_cents'', JInt (er_AmountCents r)), (''currency'', JStr (er_Currency r)),
      (''description'', JStr (er_Description r)), (''posted_at'', JStr (er_PostedAt r)), (''metadata'', er_Metadata r)]"

definition MapLedgerEntry :: "golib \<Rightarrow> LedgerEntry \<Rightarrow> LedgerEntryResponse res" where
  "MapLedgerEntry L entry =
     (case PgtypeToUUID (Some (le_ID entry)) of Inl err \<Rightarrow> Inl err | Inr i \<Rightarrow>
     (case PgtypeToUUID (Some (le_EntryGroupID entry)) of Inl err \<Rightarrow> Inl err | Inr groupID \<Rightarrow>
     (case PgtypeToUUID (Some (le_SettlementJobID entry)) of Inl err \<Rightarrow> Inl err | Inr jobID \<Rightarrow>
     (case PgtypeToUUID (Some (le_AccountID entry)) of Inl err \<Rightarrow> Inl err | Inr accountID \<Rightarrow>
     Inr \<lparr>er_ID = uuid_String L i, er_EntryGroupID = uuid_String L groupID, er_SettlementJobID = uuid_String L jobID,
          er_AccountID = uuid_String L accountID, er_Side = le_Side entry, er_AmountCents = le_AmountCents entry,
          er_Currency = le_Currency entry, er_Description = le_Description entry,
          er_PostedAt = formatPgTime (Some (le_PostedAt entry)), er_Metadata = le_Metadata entry\<rparr>))))"

definition LedgerEntryListResponse_json :: "LedgerEntryResponse list \<Rightarrow> PageMeta \<Rightarrow> json" where
  "LedgerEntryListResponse_json items page =
     JObj [(''items'', JArr (map LedgerEntryResponse_json items)), (''page'', PageMeta_json page)]"

record LedgerAccountResponse =
  cr_ID :: string
  cr_Code :: string
  cr_Name :: string
  cr_AccountType :: string
  cr_CreatedAt :: string

definition LedgerAccountResponse_json :: "LedgerAccountResponse \<Rightarrow> json" where
  "LedgerAccountResponse_json r = JObj
     [(''id'', JStr (cr_ID r)), (''code'', JStr (cr_Code r)), (''name'', JStr (cr_Name r)),
      (''account_type'', JStr (cr_AccountType r)), (''created_at'', JStr (cr_CreatedAt r))]"

definition MapLedgerAccount :: "golib \<Rightarrow> LedgerAccount \<Rightarrow> LedgerAccountResponse res" where
  "MapLedgerAccount L account =
     (case PgtypeToUUID (Some (la_ID account)) of Inl err \<Rightarrow> Inl err | Inr i \<Rightarrow>
     Inr \<lparr>cr_ID = uuid_String L i, cr_Code = la_Code account, cr_Name = la_Name account,
          cr_AccountType = la_AccountType account, cr_CreatedAt = formatPgTime (Some (la_CreatedAt account))\<rparr>)"

definition LedgerAccountListResponse_json :: "LedgerAccountResponse list \<Rightarrow> json" where
  "LedgerAccountListResponse_json items = JObj [(''items'', JArr (map LedgerAccountResponse_json items))]"

section \<open>Reconciliation\<close>

text \<open>A \<^verbatim>\<open>map[string]int\<close> is an association list without repeated keys.\<close>

record ReconciliationSummary =
  su_ExpectedTotalCents :: int
  su_SucceededTotalCents :: int
  su_DiscrepancyCents :: int
  su_ByStatus :: "(string \<times> int) list"

record ReconciliationResponse =
  rr_ID :: string
  rr_SnapshotAt :: string
  rr_Summary :: ReconciliationSummary
  rr_Flags :: "string list"

definition ReconciliationSummary_json :: "ReconciliationSummary \<Rightarrow> json" where
  "ReconciliationSummary_json r = JObj
     [(''expected_total_cents'', JInt (su_ExpectedTotalCents r)), (''succeeded_total_cents'', JInt (su_SucceededTotalCents r)),
      (''discrepancy_cents'', JInt (su_DiscrepancyCents r)),
      (''by_status'', JObj (map (\<lambda>(k, n). (k, JInt n)) (su_ByStatus r)))]"

definition ReconciliationResponse_json :: "ReconciliationResponse \<Rightarrow> json" where
  "ReconciliationResponse_json r = JObj
     [(''id'', JStr (rr_ID r)), (''snapshot_at'', JStr (rr_SnapshotAt r)), (''summary'', ReconciliationSummary_json (rr_Summary r)),
      (''flags'', JArr (map JStr (rr_Flags r)))]"

text \<open>
  \<^verbatim>\<open>details["processing_count"].(float64)\<close>: a number of the details document. The count was
  written from a 32-bit column, which a float64 holds exactly.
\<close>

definition details_number :: "json \<Rightarrow> string \<Rightarrow> int option" where
  "details_number details name =
     (case details of JObj kvs \<Rightarrow> (case map_of kvs name of Some (JInt n) \<Rightarrow> Some n | _ \<Rightarrow> None) | _ \<Rightarrow> None)"

definition MapReconciliationSnapshot :: "golib \<Rightarrow> ReconciliationSnapshot \<Rightarrow> string list \<Rightarrow> ReconciliationResponse res" where
  "MapReconciliationSnapshot L snapshot flags =
     (case PgtypeToUUID (Some (rs_ID snapshot)) of Inl err \<Rightarrow> Inl err | Inr i \<Rightarrow>
     Inr \<lparr>rr_ID = uuid_String L i, rr_SnapshotAt = formatPgTime (Some (rs_SnapshotAt snapshot)),
          rr_Summary = \<lparr>su_ExpectedTotalCents = rs_ExpectedTotalCents snapshot,
            su_SucceededTotalCents = rs_SucceededTotalCents snapshot, su_DiscrepancyCents = rs_DiscrepancyCents snapshot,
            su_ByStatus =
              [(''pending'', rs_PendingCount snapshot), (''failed'', rs_FailedCount snapshot),
               (''dead_letter'', rs_DeadLetterCount snapshot), (''succeeded'', rs_SucceededCount snapshot)]
              @ (case details_number (rs_Details snapshot) ''processing_count'' of None \<Rightarrow> [] | Some v \<Rightarrow> [(''processing'', v)])\<rparr>,
          rr_Flags = flags\<rparr>)"

definition ReconciliationListResponse_json :: "ReconciliationResponse list \<Rightarrow> PageMeta \<Rightarrow> json" where
  "ReconciliationListResponse_json items page =
     JObj [(''items'', JArr (map ReconciliationResponse_json items)), (''page'', PageMeta_json page)]"

section \<open>Audit events\<close>

record AuditEventResponse =
  vr_ID :: string
  vr_OccurredAt :: string
  vr_ActorType :: string
  vr_ActorID :: string
  vr_Action :: string
  vr_EntityType :: string
  vr_EntityID :: string
  vr_Payload :: json
  vr_CorrelationID :: string

definition AuditEventResponse_json :: "AuditEventResponse \<Rightarrow> json" where
  "AuditEventResponse_json r = JObj
     [(''id'', JStr (vr_ID r)), (''occurred_at'', JStr (vr_OccurredAt r)), (''actor_type'', JStr (vr_ActorType r)),
      (''actor_id'', JStr (vr_ActorID r)), (''action'', JStr (vr_Action r)), (''entity_type'', JStr (vr_EntityType r)),
      (''entity_id'', JStr (vr_EntityID r)), (''payload'', vr_Payload r), (''correlation_id'', JStr (vr_CorrelationID r))]"

definition MapAuditEvent :: "golib \<Rightarrow> AuditEvent \<Rightarrow> AuditEventResponse res" where
  "MapAuditEvent L event =
     (case PgtypeToUUID (Some (ae_ID event)) of Inl err \<Rightarrow> Inl err | Inr i \<Rightarrow>
     (case PgtypeToUUID (Some (ae_EntityID event)) of Inl err \<Rightarrow> Inl err | Inr entityID \<Rightarrow>
     Inr \<lparr>vr_ID = uuid_String L i, vr_OccurredAt = formatPgTime (Some (ae_OccurredAt event)),
          vr_ActorType = actor_type_text (ae_ActorType event), vr_ActorID = ae_ActorID event, vr_Action = ae_Action event,
          vr_EntityType = ae_EntityType event, vr_EntityID = uuid_String L entityID, vr_Payload = ae_Payload event,
          vr_CorrelationID = ae_CorrelationID event\<rparr>))"

definition AuditEventListResponse_json :: "AuditEventResponse list \<Rightarrow> PageMeta \<Rightarrow> json" where
  "AuditEventListResponse_json items page =
     JObj [(''items'', JArr (map AuditEventResponse_json items)), (''page'', PageMeta_json page)]"

section \<open>Cursors\<close>

text \<open>A NULL time gives the zero time and the nil identifier with \<^verbatim>\<open>err\<close>, which is nil there.\<close>

definition zero_time :: gotime where
  "zero_time = - 62135596800 * Second"

definition cursor_of :: "uuid option \<Rightarrow> gotime option \<Rightarrow> (gotime \<times> uuid) res" where
  "cursor_of i t = (case PgtypeToUUID i of Inl err \<Rightarrow> Inl err
     | Inr u \<Rightarrow> (case t of None \<Rightarrow> Inr (zero_time, uuid_Nil) | Some x \<Rightarrow> Inr (x, u)))"

definition JobCursorFromSettlementJob :: "SettlementJob \<Rightarrow> (gotime \<times> uuid) res" where
  "JobCursorFromSettlementJob job = cursor_of (Some (sj_ID job)) (Some (sj_CreatedAt job))"

definition AuditCursorFromEvent :: "AuditEvent \<Rightarrow> (gotime \<times> uuid) res" where
  "AuditCursorFromEvent event = cursor_of (Some (ae_ID event)) (Some (ae_OccurredAt event))"

definition LedgerCursorFromEntry :: "LedgerEntry \<Rightarrow> (gotime \<times> uuid) res" where
  "LedgerCursorFromEntry entry = cursor_of (Some (le_ID entry)) (Some (le_PostedAt entry))"

definition ReconciliationCursorFromSnapshot :: "ReconciliationSnapshot \<Rightarrow> (gotime \<times> uuid) res" where
  "ReconciliationCursorFromSnapshot snapshot = cursor_of (Some (rs_ID snapshot)) (Some (rs_SnapshotAt snapshot))"

lemmas cursor_defs = JobCursorFromSettlementJob_def AuditCursorFromEvent_def LedgerCursorFromEntry_def
  ReconciliationCursorFromSnapshot_def cursor_of_def

section \<open>Rows always map\<close>

definition maps :: "('r \<Rightarrow> 'a res) \<Rightarrow> bool" where
  "maps f \<longleftrightarrow> (\<forall>r. \<exists>a. f r = Inr a)"

lemma mappers_total [simp]:
  "maps (MapSettlementJob L)" "maps (MapPayoutAttempt L)" "maps (MapLedgerEntry L)" "maps (MapLedgerAccount L)"
  "maps (MapAuditEvent L)" "maps (\<lambda>x. MapReconciliationSnapshot L (fst x) (snd x))"
  "maps JobCursorFromSettlementJob" "maps AuditCursorFromEvent" "maps LedgerCursorFromEntry" "maps ReconciliationCursorFromSnapshot"
  by (simp_all add: maps_def MapSettlementJob_def MapPayoutAttempt_def MapLedgerEntry_def MapLedgerAccount_def
      MapAuditEvent_def MapReconciliationSnapshot_def cursor_defs)

end
