(* ===== verification/Go_Duration.thy ===== *)
theory Go_Duration
  imports Strconv
begin

text \<open>
  \<^verbatim>\<open>time.ParseDuration\<close> of Go's standard library, which reads the durations of the environment: an optional
  sign and a sequence of decimal numbers with units. The arithmetic is on \<^verbatim>\<open>uint64\<close>, and a fraction is scaled in
  \<^verbatim>\<open>float64\<close>, whose rounding is written out. The theory shows that the loop ends and that a result is a 64-bit
  duration.
\<close>

section \<open>float64 on non-negative rationals\<close>

fun bitlen :: "nat \<Rightarrow> nat" where
  "bitlen n = (if n = 0 then 0 else Suc (bitlen (n div 2)))"

declare bitlen.simps [simp del]

definition half_even :: "nat \<Rightarrow> nat \<Rightarrow> nat" where
  "half_even a b = (let q = a div b; r = a mod b in if 2 * r < b \<or> (2 * r = b \<and> even q) then q else q + 1)"

definition scale2 :: "nat \<Rightarrow> nat \<Rightarrow> int \<Rightarrow> nat \<times> nat" where
  "scale2 n d e = (if 0 \<le> e then (n, d * 2 ^ nat e) else (n * 2 ^ nat (- e), d))"

text \<open>The float64 nearest to \<open>n / d\<close>, ties to even, as a fraction: 53 significant bits.\<close>

definition float64 :: "nat \<Rightarrow> nat \<Rightarrow> nat \<times> nat" where
  "float64 n d =
     (if n = 0 then (0, 1)
      else let e0 = int (bitlen n) - int (bitlen d) - 53;
               e = (if 2 ^ 53 \<le> fst (scale2 n d e0) div snd (scale2 n d e0) then e0 + 1 else e0);
               m = half_even (fst (scale2 n d e)) (snd (scale2 n d e))
           in if 0 \<le> e then (m * 2 ^ nat e, 1) else (m, 2 ^ nat (- e)))"

text \<open>\<^verbatim>\<open>uint64(float64(f) * (float64(unit) / scale))\<close>\<close>

definition fraction_ns :: "nat \<Rightarrow> nat \<Rightarrow> nat \<Rightarrow> nat" where
  "fraction_ns f unit scale =
     (let a = float64 f 1; b = float64 unit scale; p = float64 (fst a * fst b) (snd a * snd b) in fst p div snd p)"

section \<open>The pieces of ParseDuration\<close>

primrec leadingInt :: "nat \<Rightarrow> string \<Rightarrow> (nat \<times> string) option" where
  "leadingInt x [] = Some (x, [])"
| "leadingInt x (c # s) =
     (if \<not> isDigit c then Some (x, c # s)
      else if x > 2 ^ 63 div 10 then None
      else let y = x * 10 + nat (digit_value c) in if y > 2 ^ 63 then None else leadingInt y s)"

primrec leadingFraction :: "nat \<Rightarrow> nat \<Rightarrow> bool \<Rightarrow> string \<Rightarrow> nat \<times> nat \<times> string" where
  "leadingFraction x scale overflow [] = (x, scale, [])"
| "leadingFraction x scale overflow (c # s) =
     (if \<not> isDigit c then (x, scale, c # s)
      else if overflow then leadingFraction x scale True s
      else if x > (2 ^ 63 - 1) div 10 then leadingFraction x scale True s
      else let y = x * 10 + nat (digit_value c)
           in if y > 2 ^ 63 then leadingFraction x scale True s else leadingFraction y (scale * 10) False s)"

definition unitMap :: "(string \<times> nat) list" where
  "unitMap = [(''ns'', 1), (''us'', 1000), ([CHR 0xC2, CHR 0xB5, CHR ''s''], 1000), ([CHR 0xCE, CHR 0xBC, CHR ''s''], 1000),
     (''ms'', 1000000), (''s'', 1000000000), (''m'', 60000000000), (''h'', 3600000000000)]"

definition unit_char :: "char \<Rightarrow> bool" where
  "unit_char c \<longleftrightarrow> c \<noteq> CHR ''.'' \<and> \<not> isDigit c"

text \<open>
  One round of the loop: the digits before and after the point, with the scale of the fraction, and then the unit; the value and
  the rest of the text.
\<close>

definition duration_number :: "string \<Rightarrow> (nat \<times> nat \<times> nat \<times> string) option" where
  "duration_number s =
     (if s = [] \<or> unit_char (hd s) then None
      else case leadingInt 0 s of
        None \<Rightarrow> None
      | Some (v, s1) \<Rightarrow>
          if s1 \<noteq> [] \<and> hd s1 = CHR ''.''
          then (case leadingFraction 0 1 False (tl s1) of (f, scale, s2) \<Rightarrow>
                  if length s = length s1 \<and> length (tl s1) = length s2 then None else Some (v, f, scale, s2))
          else if length s = length s1 then None else Some (v, 0, 1, s1))"

definition duration_term :: "string \<Rightarrow> (nat \<times> string) option" where
  "duration_term s =
     (case duration_number s of
        None \<Rightarrow> None
      | Some (v, f, scale, s2) \<Rightarrow>
          (case map_of unitMap (takeWhile unit_char s2) of
             None \<Rightarrow> None
           | Some unit \<Rightarrow>
               if v > 2 ^ 63 div unit then None
               else let v' = v * unit + (if f > 0 then fraction_ns f unit scale else 0)
                    in if f > 0 \<and> v' > 2 ^ 63 then None else Some (v', dropWhile unit_char s2)))"

lemma leadingInt_length: "leadingInt x s = Some (v, r) \<Longrightarrow> length r \<le> length s"
  by (induction s arbitrary: x) (auto simp: Let_def split: if_splits intro: le_SucI)

lemma leadingFraction_length: "leadingFraction x sc ov s = (f, sc', r) \<Longrightarrow> length r \<le> length s"
  by (induction s arbitrary: x sc ov) (auto simp: Let_def split: if_splits intro: le_SucI)

lemma duration_number_length: "duration_number s = Some (v, f, sc, r) \<Longrightarrow> length r \<le> length s"
proof -
  assume a: "duration_number s = Some (v, f, sc, r)"
  then obtain w s1 where i: "leadingInt 0 s = Some (w, s1)" and r: "r = s1 \<or> (\<exists>f' sc'. leadingFraction 0 1 False (tl s1) = (f', sc', r))"
    by (auto simp: duration_number_def split: if_splits option.splits prod.splits)
  from r have "length r \<le> length s1"
    by (auto dest!: leadingFraction_length)
  with leadingInt_length [OF i] show ?thesis by simp
qed

lemma duration_term_shorter:
  assumes "duration_term s = Some (v, r)"
  shows "length r < length s"
proof -
  have no_unit: "map_of unitMap [] = None" by (simp add: unitMap_def)
  from assms obtain w f sc s2 where n: "duration_number s = Some (w, f, sc, s2)"
      and u: "map_of unitMap (takeWhile unit_char s2) \<noteq> None" "r = dropWhile unit_char s2"
    by (auto simp: duration_term_def Let_def split: if_splits option.splits)
  from u(1) no_unit have "takeWhile unit_char s2 \<noteq> []" by metis
  then have "length r < length s2"
    using u(2) length_append [of "takeWhile unit_char s2" "dropWhile unit_char s2"] by (simp del: length_append)
  with duration_number_length [OF n] show ?thesis by simp
qed

section \<open>ParseDuration\<close>

function duration_loop :: "nat \<Rightarrow> string \<Rightarrow> nat option" where
  "duration_loop d s =
     (if s = [] then Some d
      else case duration_term s of
        None \<Rightarrow> None
      | Some (v, r) \<Rightarrow> let d' = (d + v) mod 2 ^ 64 in if d' > 2 ^ 63 then None else duration_loop d' r)"
  by pat_completeness auto
termination
  by (relation "measure (length \<circ> snd)") (auto dest: duration_term_shorter)

declare duration_loop.simps [simp del]

definition ParseDuration :: "string \<Rightarrow> duration option" where
  "ParseDuration s0 =
     (let neg = (s0 \<noteq> [] \<and> hd s0 = CHR ''-'');
          s = (if s0 \<noteq> [] \<and> (hd s0 = CHR ''-'' \<or> hd s0 = CHR ''+'') then tl s0 else s0)
      in if s = ''0'' then Some 0
         else if s = [] then None
         else case duration_loop 0 s of
           None \<Rightarrow> None
         | Some d \<Rightarrow> if neg then Some (- int d) else if d > 2 ^ 63 - 1 then None else Some (int d))"

lemma duration_loop_bound: "duration_loop d s = Some n \<Longrightarrow> d \<le> 2 ^ 63 \<Longrightarrow> n \<le> 2 ^ 63"
proof (induction d s rule: duration_loop.induct)
  case (1 d s)
  show ?case
  proof (cases "s = []")
    case True
    with 1(2,3) show ?thesis by (simp add: duration_loop.simps)
  next
    case False
    with 1(2) obtain v r where t: "duration_term s = Some (v, r)" "\<not> (d + v) mod 2 ^ 64 > 2 ^ 63"
        "duration_loop ((d + v) mod 2 ^ 64) r = Some n"
      by (auto simp: duration_loop.simps [of d s] Let_def split: option.splits prod.splits if_splits)
    then show ?thesis using 1(1) [OF False t(1) refl refl] by simp
  qed
qed

lemma ParseDuration_int64: "ParseDuration s = Some d \<Longrightarrow> in_int64 d"
  using duration_loop_bound [of 0]
  by (fastforce simp: ParseDuration_def Let_def in_int64_def split: if_splits option.splits)

end
