(* ===== verification/Config.thy ===== *)
theory Config
  imports Go_Duration
begin

text \<open>
  \<^verbatim>\<open>internal/config/config.go\<close>: the configuration read from the environment, a function that
  gives the empty string for a variable that is not set (\<^verbatim>\<open>os.Getenv\<close>).
\<close>

record Config =
  cfg_AppEnv :: string
  cfg_HTTPPort :: int
  cfg_LogLevel :: string
  cfg_ShutdownTimeout :: duration
  cfg_DatabaseURL :: string
  cfg_RedisURL :: string
  cfg_SchedulerInterval :: duration
  cfg_SchedulerBatchSize :: int
  cfg_WorkerCount :: int
  cfg_WorkerPollInterval :: duration
  cfg_WorkerBatchSize :: int
  cfg_JobLeaseTimeout :: duration
  cfg_ReaperInterval :: duration
  cfg_MaxRetries :: int
  cfg_RetryBaseDelay :: duration
  cfg_RetryMaxDelay :: duration
  cfg_PlatformFeeBPS :: int
  cfg_WithholdingTaxBPS :: int
  cfg_APIKey :: string

type_synonym environ = "string \<Rightarrow> string"

definition getEnv :: "environ \<Rightarrow> string \<Rightarrow> string \<Rightarrow> string" where
  "getEnv env key fallback = (let v = env key in if v \<noteq> [] then v else fallback)"

definition getEnvInt :: "environ \<Rightarrow> string \<Rightarrow> int \<Rightarrow> int" where
  "getEnvInt env key fallback =
     (let v = env key in if v = [] then fallback else case Atoi v of None \<Rightarrow> fallback | Some n \<Rightarrow> n)"

definition getEnvDuration :: "environ \<Rightarrow> string \<Rightarrow> duration \<Rightarrow> duration" where
  "getEnvDuration env key fallback =
     (let v = env key in if v = [] then fallback else case ParseDuration v of None \<Rightarrow> fallback | Some d \<Rightarrow> d)"

abbreviation Minute :: duration where
  "Minute \<equiv> 60 * Second"

definition Load :: "environ \<Rightarrow> Config res" where
  "Load env =
     (let cfg = \<lparr>cfg_AppEnv = getEnv env ''APP_ENV'' ''development'',
                 cfg_HTTPPort = getEnvInt env ''HTTP_PORT'' 8080,
                 cfg_LogLevel = getEnv env ''LOG_LEVEL'' ''info'',
                 cfg_ShutdownTimeout = getEnvDuration env ''SHUTDOWN_TIMEOUT'' (15 * Second),
                 cfg_DatabaseURL = env ''DATABASE_URL'',
                 cfg_RedisURL = env ''REDIS_URL'',
                 cfg_SchedulerInterval = getEnvDuration env ''SCHEDULER_INTERVAL'' (30 * Second),
                 cfg_SchedulerBatchSize = getEnvInt env ''SCHEDULER_BATCH_SIZE'' 50,
                 cfg_WorkerCount = getEnvInt env ''WORKER_COUNT'' 4,
                 cfg_WorkerPollInterval = getEnvDuration env ''WORKER_POLL_INTERVAL'' Second,
                 cfg_WorkerBatchSize = getEnvInt env ''WORKER_BATCH_SIZE'' 1,
                 cfg_JobLeaseTimeout = getEnvDuration env ''JOB_LEASE_TIMEOUT'' (5 * Minute),
                 cfg_ReaperInterval = getEnvDuration env ''REAPER_INTERVAL'' (60 * Second),
                 cfg_MaxRetries = getEnvInt env ''MAX_RETRIES'' 5,
                 cfg_RetryBaseDelay = getEnvDuration env ''RETRY_BASE_DELAY'' (5 * Second),
                 cfg_RetryMaxDelay = getEnvDuration env ''RETRY_MAX_DELAY'' (15 * Minute),
                 cfg_PlatformFeeBPS = getEnvInt env ''PLATFORM_FEE_BPS'' 100,
                 cfg_WithholdingTaxBPS = getEnvInt env ''WITHHOLDING_TAX_BPS'' 1500,
                 cfg_APIKey = env ''API_KEY''\<rparr>
      in if cfg_DatabaseURL cfg = [] then Inl (Errorf ''DATABASE_URL is required'' [])
         else if cfg_RedisURL cfg = [] then Inl (Errorf ''REDIS_URL is required'' [])
         else Inr cfg)"

definition IsDevelopment :: "Config \<Rightarrow> bool" where
  "IsDevelopment c \<longleftrightarrow> cfg_AppEnv c = ''development''"

section \<open>What a loaded configuration holds\<close>

lemma empty_text [simp]: "Atoi [] = None" "ParseDuration [] = None"
  by (simp_all add: Atoi_def ParseDuration_def)

lemma getEnvInt_cases: "getEnvInt env key n = n \<or> Atoi (env key) = Some (getEnvInt env key n)"
  by (auto simp: getEnvInt_def Let_def split: option.splits)

lemma getEnvDuration_cases: "getEnvDuration env key d = d \<or> ParseDuration (env key) = Some (getEnvDuration env key d)"
  by (auto simp: getEnvDuration_def Let_def split: option.splits)

lemma Atoi_int64: "Atoi s = Some n \<Longrightarrow> in_int64 n"
  by (auto simp: Atoi_def Let_def split: if_splits)

lemma getEnvInt_int64: "in_int64 n \<Longrightarrow> in_int64 (getEnvInt env key n)"
  by (metis getEnvInt_cases Atoi_int64)

lemma getEnvDuration_int64: "in_int64 d \<Longrightarrow> in_int64 (getEnvDuration env key d)"
  by (metis getEnvDuration_cases ParseDuration_int64)

lemma Load_fields:
  assumes "Load env = Inr c"
  shows "cfg_DatabaseURL c = env ''DATABASE_URL''" "cfg_RedisURL c = env ''REDIS_URL''" "env ''DATABASE_URL'' \<noteq> []" "env ''REDIS_URL'' \<noteq> []"
    "cfg_MaxRetries c = getEnvInt env ''MAX_RETRIES'' 5" "cfg_WorkerCount c = getEnvInt env ''WORKER_COUNT'' 4"
    "cfg_JobLeaseTimeout c = getEnvDuration env ''JOB_LEASE_TIMEOUT'' (5 * Minute)"
    "cfg_APIKey c = env ''API_KEY''" "IsDevelopment c \<longleftrightarrow> env ''APP_ENV'' = [] \<or> env ''APP_ENV'' = ''development''"
  using assms by (auto simp: Load_def Let_def IsDevelopment_def getEnv_def split: if_splits)

text \<open>
  The configuration loads exactly when both URLs are set; an integer or duration that is absent or does not parse takes its default
  and one that parses is taken as it is, so a loaded configuration is in development mode exactly when
  \<^verbatim>\<open>APP_ENV\<close> is unset, empty or \<^verbatim>\<open>development\<close>.
\<close>

theorem Load_outcome:
  "((\<exists>c. Load env = Inr c) \<longleftrightarrow> env ''DATABASE_URL'' \<noteq> [] \<and> env ''REDIS_URL'' \<noteq> [])
   \<and> (\<forall>c. Load env = Inr c \<longrightarrow>
       (IsDevelopment c \<longleftrightarrow> env ''APP_ENV'' = [] \<or> env ''APP_ENV'' = ''development'')
     \<and> cfg_MaxRetries c = (case Atoi (env ''MAX_RETRIES'') of None \<Rightarrow> 5 | Some n \<Rightarrow> n)
     \<and> cfg_JobLeaseTimeout c = (case ParseDuration (env ''JOB_LEASE_TIMEOUT'') of None \<Rightarrow> 300 * Second | Some d \<Rightarrow> d)
     \<and> in_int64 (cfg_JobLeaseTimeout c))"
proof (intro conjI allI impI)
  show "(\<exists>c. Load env = Inr c) \<longleftrightarrow> env ''DATABASE_URL'' \<noteq> [] \<and> env ''REDIS_URL'' \<noteq> []"
    by (simp add: Load_def Let_def)
  fix c assume c: "Load env = Inr c"
  show "IsDevelopment c \<longleftrightarrow> env ''APP_ENV'' = [] \<or> env ''APP_ENV'' = ''development''" using c by (rule Load_fields)
  show "cfg_MaxRetries c = (case Atoi (env ''MAX_RETRIES'') of None \<Rightarrow> 5 | Some n \<Rightarrow> n)"
    using Load_fields(5) [OF c] by (auto simp: getEnvInt_def Let_def split: option.split)
  show "cfg_JobLeaseTimeout c = (case ParseDuration (env ''JOB_LEASE_TIMEOUT'') of None \<Rightarrow> 300 * Second | Some d \<Rightarrow> d)"
    using Load_fields(7) [OF c] by (auto simp: getEnvDuration_def Let_def split: option.split)
  show "in_int64 (cfg_JobLeaseTimeout c)"
    using Load_fields(7) [OF c] getEnvDuration_int64 [of "5 * Minute"] by (simp add: in_int64_def)
qed

definition demo_environ :: environ where
  "demo_environ = (\<lambda>_. [])(''DATABASE_URL'' := ''postgres'', ''REDIS_URL'' := ''redis'', ''APP_ENV'' := ''production'',
     ''MAX_RETRIES'' := ''7'', ''JOB_LEASE_TIMEOUT'' := ''1m30s'')"

theorem Load_outcome_witness:
  "\<exists>c. Load demo_environ = Inr c \<and> \<not> IsDevelopment c \<and> cfg_MaxRetries c = 7 \<and> cfg_JobLeaseTimeout c = 90 * Second"
proof -
  have e: "demo_environ ''DATABASE_URL'' \<noteq> []" "demo_environ ''REDIS_URL'' \<noteq> []" "demo_environ ''APP_ENV'' = ''production''"
      "demo_environ ''MAX_RETRIES'' = ''7''" "demo_environ ''JOB_LEASE_TIMEOUT'' = ''1m30s''"
    by (simp_all add: demo_environ_def)
  have "Atoi ''7'' = Some 7" by (simp add: Atoi_def isDigit_def dec_value_def digit_value_def in_int64_def)
  moreover have "ParseDuration ''1m30s'' = Some (90 * Second)"
    by (simp add: ParseDuration_def duration_loop.simps duration_term_def duration_number_def unit_char_def unitMap_def
        isDigit_def digit_value_def Let_def)
  ultimately show ?thesis using Load_outcome [of demo_environ] e by auto
qed

end
