(* ===== verification/Handlers.thy ===== *)
theory Handlers
  imports Dto Config System
begin

text \<open>
  \<^verbatim>\<open>internal/api/handlers\<close> and \<^verbatim>\<open>internal/api/router.go\<close>: every endpoint as a function from
  a request and the system to a response and the system. \<open>E\<close> and \<open>E'\<close> are the environments
  of the transactions a handler opens, in order; for the mutating handlers \<open>E\<close> is that of the
  idempotency key and \<open>E'\<close> that of the action.
\<close>

section \<open>helpers.go\<close>

definition parseUUIDParam :: "golib \<Rightarrow> request \<Rightarrow> string \<Rightarrow> uuid res" where
  "parseUUIDParam L c name = (case uuid_Parse L (rq_Param c name) of None \<Rightarrow> Inl ErrValidation | Some i \<Rightarrow> Inr i)"

definition actorID :: "request \<Rightarrow> string" where
  "actorID c = (let key = rq_GetHeader c ''X-API-Key''
     in if key \<noteq> [] then ''api-key:'' @ take (min 8 (length key)) key else ''admin'')"

text \<open>What \<^verbatim>\<open>runIdempotent\<close> writes to the client.\<close>

definition writeIdempotent :: "(StoredResponse \<times> bool) res \<Rightarrow> response" where
  "writeIdempotent r = (case r of
     Inl err \<Rightarrow> WriteError err
   | Inr (stored, replayed) \<Rightarrow>
       \<lparr>hr_Status = sr_StatusCode stored,
        hr_Header = (if replayed then [(''X-Idempotency-Replayed'', ''true'')] else []), hr_Body = sr_Body stored\<rparr>)"

definition idempotent :: "idem_Service \<Rightarrow> tx_env \<Rightarrow> request \<Rightarrow> string \<Rightarrow> handler \<Rightarrow> sys \<Rightarrow> response \<times> sys" where
  "idempotent S E c scope fn s =
     (case runIdempotent S E (rq_GetHeader c ''Idempotency-Key'') scope fn s of (r, s') \<Rightarrow> (writeIdempotent r, s'))"

text \<open>The loop that maps rows and stops at the first error, and the page block of a list response.\<close>

primrec map_rows :: "('r \<Rightarrow> 'a res) \<Rightarrow> 'r list \<Rightarrow> 'a list res" where
  "map_rows f [] = Inr []"
| "map_rows f (x # xs) = (case f x of Inl err \<Rightarrow> Inl err
     | Inr y \<Rightarrow> (case map_rows f xs of Inl err \<Rightarrow> Inl err | Inr ys \<Rightarrow> Inr (y # ys)))"

definition page_meta :: "golib \<Rightarrow> int \<Rightarrow> ('r \<Rightarrow> (gotime \<times> uuid) res) \<Rightarrow> 'r list \<Rightarrow> PageMeta" where
  "page_meta L limit cursor rows =
     (let meta = \<lparr>pm_Limit = limit, pm_NextCursor = None, pm_HasMore = (int (length rows) = limit)\<rparr>
      in if pm_HasMore meta \<and> length rows > 0
         then (case cursor (last rows) of Inl err \<Rightarrow> meta | Inr (ts, i) \<Rightarrow> meta\<lparr>pm_NextCursor := Some (NextCursor L ts i)\<rparr>)
         else meta)"

text \<open>An optional query parameter, as text, as an identifier and as a time.\<close>

definition query_text :: "request \<Rightarrow> string \<Rightarrow> string option" where
  "query_text c name = (if rq_Query c name = [] then None else Some (rq_Query c name))"

definition query_uuid :: "golib \<Rightarrow> request \<Rightarrow> string \<Rightarrow> uuid option res" where
  "query_uuid L c name =
     (if rq_Query c name = [] then Inr None
      else case uuid_Parse L (rq_Query c name) of None \<Rightarrow> Inl ErrValidation | Some i \<Rightarrow> Inr (Some i))"

definition query_time :: "request \<Rightarrow> string \<Rightarrow> gotime option res" where
  "query_time c name =
     (if rq_Query c name = [] then Inr None
      else case ParseRFC3339 (rq_Query c name) of None \<Rightarrow> Inl ErrValidation | Some t \<Rightarrow> Inr (Some t))"

section \<open>settlement\_jobs.go\<close>

definition ListJobs :: "golib \<Rightarrow> tx_env \<Rightarrow> request \<Rightarrow> sys \<Rightarrow> response \<times> sys" where
  "ListJobs L E c s =
     (case ParsePageParams L c of Inl err \<Rightarrow> (WriteError err, s) | Inr page \<Rightarrow>
     (case query_uuid L c ''investment_id'' of Inl err \<Rightarrow> (WriteError err, s) | Inr investmentID \<Rightarrow>
     (case SettlementService_ListJobs E \<lparr>lj_Status = query_text c ''status'', lj_InvestmentID = investmentID,
             lj_CursorTime = pp_CursorTime page, lj_CursorID = pp_CursorID page, lj_LimitVal = pp_Limit page\<rparr> s of
        (Inl err, s') \<Rightarrow> (WriteError err, s')
      | (Inr jobs, s') \<Rightarrow>
          (case map_rows (MapSettlementJob L) jobs of Inl err \<Rightarrow> (WriteError err, s') | Inr items \<Rightarrow>
            (c_JSON 200 (SettlementJobListResponse_json items (page_meta L (pp_Limit page) JobCursorFromSettlementJob jobs)), s')))))"

definition GetJob :: "golib \<Rightarrow> tx_env \<Rightarrow> request \<Rightarrow> sys \<Rightarrow> response \<times> sys" where
  "GetJob L E c s =
     (case parseUUIDParam L c ''id'' of Inl err \<Rightarrow> (WriteError err, s) | Inr jobID \<Rightarrow>
     (case SettlementService_GetJob E jobID s of
        (Inl err, s') \<Rightarrow> (WriteError err, s')
      | (Inr job, s') \<Rightarrow>
          (case MapSettlementJob L job of Inl err \<Rightarrow> (WriteError err, s') | Inr mapped \<Rightarrow>
            (c_JSON 200 (SettlementJobResponse_json mapped), s'))))"

definition ListAttempts :: "golib \<Rightarrow> tx_env \<Rightarrow> tx_env \<Rightarrow> request \<Rightarrow> sys \<Rightarrow> response \<times> sys" where
  "ListAttempts L E E' c s =
     (case parseUUIDParam L c ''id'' of Inl err \<Rightarrow> (WriteError err, s) | Inr jobID \<Rightarrow>
     (case SettlementService_ListAttempts E E' jobID s of
        (Inl err, s') \<Rightarrow> (WriteError err, s')
      | (Inr attempts, s') \<Rightarrow>
          (case map_rows (MapPayoutAttempt L) attempts of Inl err \<Rightarrow> (WriteError err, s') | Inr items \<Rightarrow>
            (c_JSON 200 (PayoutAttemptListResponse_json items), s'))))"

definition job_action :: "golib \<Rightarrow> (sys \<Rightarrow> SettlementJob res \<times> sys) \<Rightarrow> handler" where
  "job_action L svc s =
     (case svc s of
        (Inl err, s') \<Rightarrow> (Inl err, s')
      | (Inr job, s') \<Rightarrow>
          (case MapSettlementJob L job of Inl err \<Rightarrow> (Inl err, s')
           | Inr mapped \<Rightarrow> (Inr \<lparr>sr_StatusCode = 200, sr_Body = JobActionResponse_json mapped\<rparr>, s')))"

definition ReplayJob :: "golib \<Rightarrow> idem_Service \<Rightarrow> tx_env \<Rightarrow> tx_env \<Rightarrow> string option \<Rightarrow> request \<Rightarrow> sys \<Rightarrow> response \<times> sys" where
  "ReplayJob L S E E' requestID c s =
     (case parseUUIDParam L c ''id'' of Inl err \<Rightarrow> (WriteError err, s) | Inr jobID \<Rightarrow>
        idempotent S E c (''settlement_job.replay:'' @ uuid_String L jobID)
          (job_action L (SettlementService_ReplayDeadLetter E' jobID (actorID c) (RequestIDFromContext requestID))) s)"

definition RequeueJob :: "golib \<Rightarrow> idem_Service \<Rightarrow> tx_env \<Rightarrow> tx_env \<Rightarrow> string option \<Rightarrow> request \<Rightarrow> sys \<Rightarrow> response \<times> sys" where
  "RequeueJob L S E E' requestID c s =
     (case parseUUIDParam L c ''id'' of Inl err \<Rightarrow> (WriteError err, s) | Inr jobID \<Rightarrow>
        idempotent S E c (''settlement_job.requeue:'' @ uuid_String L jobID)
          (job_action L (SettlementService_RequeueFailed E' jobID (actorID c) (RequestIDFromContext requestID))) s)"

section \<open>ledger.go\<close>

definition ListEntries :: "golib \<Rightarrow> tx_env \<Rightarrow> request \<Rightarrow> sys \<Rightarrow> response \<times> sys" where
  "ListEntries L E c s =
     (case ParsePageParams L c of Inl err \<Rightarrow> (WriteError err, s) | Inr page \<Rightarrow>
     (case query_uuid L c ''settlement_job_id'' of Inl err \<Rightarrow> (WriteError err, s) | Inr jobID \<Rightarrow>
     (case query_time c ''from'' of Inl err \<Rightarrow> (WriteError err, s) | Inr fromTime \<Rightarrow>
     (case query_time c ''to'' of Inl err \<Rightarrow> (WriteError err, s) | Inr toTime \<Rightarrow>
     (case LedgerService_ListEntries E \<lparr>ll_SettlementJobID = jobID, ll_AccountCode = query_text c ''account_code'',
             ll_FromTime = fromTime, ll_ToTime = toTime, ll_CursorTime = pp_CursorTime page, ll_CursorID = pp_CursorID page,
             ll_LimitVal = pp_Limit page\<rparr> s of
        (Inl err, s') \<Rightarrow> (WriteError err, s')
      | (Inr entries, s') \<Rightarrow>
          (case map_rows (MapLedgerEntry L) entries of Inl err \<Rightarrow> (WriteError err, s') | Inr items \<Rightarrow>
            (c_JSON 200 (LedgerEntryListResponse_json items (page_meta L (pp_Limit page) LedgerCursorFromEntry entries)), s')))))))"

definition ListAccounts :: "golib \<Rightarrow> tx_env \<Rightarrow> request \<Rightarrow> sys \<Rightarrow> response \<times> sys" where
  "ListAccounts L E c s =
     (case LedgerService_ListAccounts E s of
        (Inl err, s') \<Rightarrow> (WriteError err, s')
      | (Inr accounts, s') \<Rightarrow>
          (case map_rows (MapLedgerAccount L) accounts of Inl err \<Rightarrow> (WriteError err, s') | Inr items \<Rightarrow>
            (c_JSON 200 (LedgerAccountListResponse_json items), s')))"

section \<open>reconciliation.go\<close>

definition GetLatest :: "golib \<Rightarrow> tx_env \<Rightarrow> tx_env \<Rightarrow> request \<Rightarrow> sys \<Rightarrow> response \<times> sys" where
  "GetLatest L E E' c s =
     (case ReconciliationService_GetLatest E E' s of
        (Inl err, s') \<Rightarrow> (WriteError err, s')
      | (Inr (snapshot, flags), s') \<Rightarrow>
          (case MapReconciliationSnapshot L snapshot flags of Inl err \<Rightarrow> (WriteError err, s') | Inr mapped \<Rightarrow>
            (c_JSON 200 (ReconciliationResponse_json mapped), s')))"

definition snapshot_action :: "golib \<Rightarrow> (sys \<Rightarrow> (ReconciliationSnapshot \<times> string list) res \<times> sys) \<Rightarrow> handler" where
  "snapshot_action L svc s =
     (case svc s of
        (Inl err, s') \<Rightarrow> (Inl err, s')
      | (Inr (snapshot, flags), s') \<Rightarrow>
          (case MapReconciliationSnapshot L snapshot flags of Inl err \<Rightarrow> (Inl err, s')
           | Inr mapped \<Rightarrow> (Inr \<lparr>sr_StatusCode = 200, sr_Body = ReconciliationResponse_json mapped\<rparr>, s')))"

definition Run :: "golib \<Rightarrow> idem_Service \<Rightarrow> tx_env \<Rightarrow> tx_env \<Rightarrow> request \<Rightarrow> sys \<Rightarrow> response \<times> sys" where
  "Run L S E E' c s = idempotent S E c ''reconciliation.run'' (snapshot_action L (ReconciliationService_RunSnapshot E')) s"

definition ListSnapshots :: "golib \<Rightarrow> tx_env \<Rightarrow> request \<Rightarrow> sys \<Rightarrow> response \<times> sys" where
  "ListSnapshots L E c s =
     (case ParsePageParams L c of Inl err \<Rightarrow> (WriteError err, s) | Inr page \<Rightarrow>
     (case ReconciliationService_List E (pp_CursorTime page) (pp_CursorID page) (pp_Limit page) s of
        (Inl err, s') \<Rightarrow> (WriteError err, s')
      | (Inr results, s') \<Rightarrow>
          (case map_rows (\<lambda>r. MapReconciliationSnapshot L (fst r) (snd r)) results of Inl err \<Rightarrow> (WriteError err, s') | Inr items \<Rightarrow>
            (c_JSON 200 (ReconciliationListResponse_json items
               (page_meta L (pp_Limit page) (\<lambda>r. ReconciliationCursorFromSnapshot (fst r)) results)), s'))))"

section \<open>audit.go, admin.go\<close>

definition ListEvents :: "golib \<Rightarrow> tx_env \<Rightarrow> request \<Rightarrow> sys \<Rightarrow> response \<times> sys" where
  "ListEvents L E c s =
     (case ParsePageParams L c of Inl err \<Rightarrow> (WriteError err, s) | Inr page \<Rightarrow>
     (case query_uuid L c ''entity_id'' of Inl err \<Rightarrow> (WriteError err, s) | Inr entityID \<Rightarrow>
     (case AuditService_ListEvents E \<lparr>lv_EntityType = query_text c ''entity_type'', lv_EntityID = entityID,
             lv_Action = query_text c ''action'', lv_CursorTime = pp_CursorTime page, lv_CursorID = pp_CursorID page,
             lv_LimitVal = pp_Limit page\<rparr> s of
        (Inl err, s') \<Rightarrow> (WriteError err, s')
      | (Inr events, s') \<Rightarrow>
          (case map_rows (MapAuditEvent L) events of Inl err \<Rightarrow> (WriteError err, s') | Inr items \<Rightarrow>
            (c_JSON 200 (AuditEventListResponse_json items (page_meta L (pp_Limit page) AuditCursorFromEvent events)), s')))))"

definition tick_action :: "(sys \<Rightarrow> int res \<times> sys) \<Rightarrow> handler" where
  "tick_action svc s =
     (case svc s of
        (Inl err, s') \<Rightarrow> (Inl err, s')
      | (Inr created, s') \<Rightarrow> (Inr \<lparr>sr_StatusCode = 200, sr_Body = SchedulerTickResponse_json created\<rparr>, s'))"

definition SchedulerTick :: "Scheduler \<Rightarrow> idem_Service \<Rightarrow> tx_env \<Rightarrow> tx_env \<Rightarrow> request \<Rightarrow> sys \<Rightarrow> response \<times> sys" where
  "SchedulerTick sc S E E' c s = idempotent S E c ''admin.scheduler.tick'' (tick_action (TriggerSchedulerScan sc E')) s"

section \<open>health.go\<close>

definition Live :: response where
  "Live = c_JSON 200 (JObj [(''status'', JStr ''ok'')])"

text \<open>The pings of PostgreSQL and Redis return an error or nil.\<close>

definition Ready :: "go_error option \<Rightarrow> go_error option \<Rightarrow> response" where
  "Ready dbPing redisPing =
     (let checks = [(''postgres'', case dbPing of None \<Rightarrow> ''ok'' | Some err \<Rightarrow> error_text err),
                    (''redis'', case redisPing of None \<Rightarrow> ''ok'' | Some err \<Rightarrow> error_text err)];
          body = (\<lambda>status. JObj [(''status'', JStr status), (''checks'', JObj (map (\<lambda>(k, v). (k, JStr v)) checks))])
      in if list_ex (\<lambda>(k, v). v \<noteq> ''ok'') checks then c_JSON 503 (body ''unavailable'') else c_JSON 200 (body ''ok''))"

end
