(* ===== verification/Scenario.thy ===== *)
theory Scenario
  imports System
begin

text \<open>
  A concrete engine and database, small enough to run: one investment of 1000.00 at 10 percent for a
  year, matured, with the default fees. The runs below are the inputs of the witnesses.
\<close>

definition scenario_lib :: golib where
  "scenario_lib = demo_lib\<lparr>uuid_NewSHA1_OID := (\<lambda>_. 77)\<rparr>"

definition demo_investment :: "string option \<Rightarrow> Investment" where
  "demo_investment profile = \<lparr>inv_ID = 1, inv_InvestorID = 2, inv_PrincipalCents = it_PrincipalCents demo_terms,
     inv_AnnualRateBps = it_AnnualRateBPS demo_terms, inv_TermDays = it_TermDays demo_terms, inv_Status = InvestmentStatusActive,
     inv_Currency = it_Currency demo_terms, inv_SimulationProfile = profile, inv_CreatedAt = 0\<rparr>"

definition demo_maturity :: MaturitySchedule where
  "demo_maturity = \<lparr>ms_ID = 3, ms_InvestmentID = 1, ms_MaturesAt = 0, ms_Status = MaturityStatusPending, ms_SettledAt = None,
     ms_CreatedAt = 0\<rparr>"

definition demo_db :: "string option \<Rightarrow> db" where
  "demo_db profile = \<lparr>investments = [demo_investment profile], maturity_schedules = [demo_maturity], settlement_jobs = [],
     payout_attempts = [], ledger_accounts = [], ledger_entries = [], idempotency_keys = [], reconciliation_snapshots = [],
     audit_events = []\<rparr>"

definition demo_sys :: "string option \<Rightarrow> sys" where
  "demo_sys profile = \<lparr>sys_db = demo_db profile, sys_proc = demo_proc\<rparr>"

definition demo_engine :: engine where
  "demo_engine = \<lparr>en_processor = \<lparr>wp_lib = scenario_lib, wp_gateway = Simulator_Execute scenario_lib, wp_retry = DefaultPolicy\<rparr>,
     en_scheduler = \<lparr>sc_cfg = \<lparr>Interval = 0, ReaperInterval = 0, JobLeaseTimeout = 300 * Second\<rparr>,
        sc_orchestrator = orchestrator_New scenario_lib demo_svc 5\<rparr>,
     en_idem = NewIdemService 0\<rparr>"

definition demo_job :: SettlementJob where
  "demo_job = \<lparr>sj_ID = 102, sj_MaturityScheduleID = 3, sj_InvestmentID = 1,
     sj_IdempotencyKey = ''maturity:'' @ uuid_String scenario_lib 3, sj_Status = SettlementJobStatusPending,
     sj_PrincipalCents = 1000000, sj_GrossReturnCents = 80000, sj_PlatformFeeCents = 800, sj_WithholdingTaxCents = 11880,
     sj_NetPayoutCents = 1067320, sj_PayoutReference = None, sj_RetryCount = 0, sj_MaxRetries = 5, sj_NextRetryAt = None,
     sj_ProcessingStartedAt = None, sj_ProcessingOwner = None, sj_LastError = None, sj_ErrorClass = None,
     sj_DeadLetterReason = None, sj_CreatedAt = 1000000 * Second, sj_UpdatedAt = 1000000 * Second, sj_CompletedAt = None\<rparr>"

definition demo_created :: AuditEvent where
  "demo_created = \<lparr>ae_ID = 103, ae_OccurredAt = 1000000 * Second, ae_ActorType = AuditActorTypeSystem,
     ae_ActorID = ''settlement-engine'', ae_Action = ActionSettlementJobCreated, ae_EntityType = entityTypeSettlementJob,
     ae_EntityID = 102, ae_Payload = JObj [(''maturity_schedule_id'', JStr (uuid_String scenario_lib 3)),
        (''net_payout_cents'', JInt 1067320)], ae_CorrelationID = uuid_String scenario_lib 3\<rparr>"

definition demo_sys1 :: "string option \<Rightarrow> sys" where
  "demo_sys1 profile = \<lparr>sys_db = (demo_db profile)\<lparr>settlement_jobs := [demo_job], audit_events := [demo_created]\<rparr>,
     sys_proc = demo_proc\<lparr>proc_metrics := (proc_metrics demo_proc)\<lparr>JobsEnqueued := 1, SchedulerTicks := 1\<rparr>\<rparr>\<rparr>"

lemmas run_defs = WithTx_def begin_tx_def bindE_def tryE_def returnE_def failE_def wrapE_def liftE_def updProc_def
  run_stmt_def noRowsAs_def

lemmas demo_defs = demo_env_def demo_investment_def demo_maturity_def demo_db_def demo_proc_def demo_sys_def demo_engine_def
  demo_terms_def

lemma demo_terms_of [simp]: "investment_terms (demo_investment p) = demo_terms"
  by (simp add: investment_terms_def demo_investment_def)

lemma demo_engine_simps [simp]:
  "or_lib (sc_orchestrator (en_scheduler demo_engine)) = scenario_lib"
  "or_calc (sc_orchestrator (en_scheduler demo_engine)) = demo_svc"
  "wp_lib (en_processor demo_engine) = scenario_lib" "wp_gateway (en_processor demo_engine) = Simulator_Execute scenario_lib"
  "wp_retry (en_processor demo_engine) = DefaultPolicy"
  by (simp_all add: demo_engine_def orchestrator_New_def)

lemma demo_enqueue:
  "\<exists>s'. EnqueueDueMaturities (sc_orchestrator (en_scheduler demo_engine)) (demo_env 0) ((demo_sys p)\<lparr>sys_proc := q\<rparr>) = (Inr 1, s')
     \<and> sys_db s' = sys_db (demo_sys1 p) \<and> sys_proc s' = q\<lparr>proc_metrics := (proc_metrics q)\<lparr>JobsEnqueued := JobsEnqueued (proc_metrics q) + 1\<rparr>\<rparr>"
proof -
  let ?S = "sc_orchestrator (en_scheduler demo_engine)"
  have due: "ListDueMaturitySchedules (demo_env 0) u (demo_db p) = Rows [(demo_maturity, demo_investment p)] (demo_db p)" for u
    by (simp add: ListDueMaturitySchedules_def demo_db_def maturity_due_def demo_maturity_def demo_investment_def)
  have params: "job_params ?S demo_maturity (demo_investment p) demo_breakdown =
      \<lparr>cj_MaturityScheduleID = 3, cj_InvestmentID = 1, cj_IdempotencyKey = ''maturity:'' @ uuid_String scenario_lib 3,
       cj_PrincipalCents = 1000000, cj_GrossReturnCents = 80000, cj_PlatformFeeCents = 800, cj_WithholdingTaxCents = 11880,
       cj_NetPayoutCents = 1067320, cj_MaxRetries = 5\<rparr>"
    by (simp add: job_params_def demo_maturity_def demo_investment_def demo_breakdown_def demo_engine_def
        orchestrator_New_def wrap32_def)
  have get: "GetSettlementJobByMaturityScheduleID i E u (demo_db p) = NoRows" for i E u
    by (simp add: GetSettlementJobByMaturityScheduleID_def demo_db_def)
  have job: "CreateSettlementJob (job_params ?S demo_maturity (demo_investment p) demo_breakdown) (demo_env 0) 102 (demo_db p)
      = Rows demo_job ((demo_db p)\<lparr>settlement_jobs := [demo_job]\<rparr>)"
    unfolding params
    by (simp add: Let_def CreateSettlementJob_def new_job_def demo_job_def demo_db_def job_range_def job_checks_def in_int64_def
        demo_maturity_def demo_investment_def)
  have aud: "CreateAuditEvent \<lparr>ca_ActorType = AuditActorTypeSystem, ca_ActorID = ''settlement-engine'',
        ca_Action = ActionSettlementJobCreated, ca_EntityType = entityTypeSettlementJob, ca_EntityID = sj_ID demo_job,
        ca_Payload = JObj [(''maturity_schedule_id'', JStr (uuid_String scenario_lib (ms_ID demo_maturity))),
          (''net_payout_cents'', JInt (bd_NetPayoutCents demo_breakdown))],
        ca_CorrelationID = uuid_String scenario_lib (ms_ID demo_maturity)\<rparr> (demo_env 0) 103 ((demo_db p)\<lparr>settlement_jobs := [demo_job]\<rparr>)
      = Rows demo_created ((demo_db p)\<lparr>settlement_jobs := [demo_job], audit_events := [demo_created]\<rparr>)"
    by (simp add: CreateAuditEvent_def new_audit_event_def demo_db_def demo_created_def demo_job_def demo_maturity_def
        demo_breakdown_def)
  have names: "ActionSettlementJobCreated \<noteq> []" "entityTypeSettlementJob \<noteq> []" "sj_ID demo_job \<noteq> 0"
    by (simp_all add: audit_names demo_job_def)
  have id: "cj_MaturityScheduleID (job_params ?S demo_maturity (demo_investment p) demo_breakdown) = ms_ID demo_maturity"
    by (simp add: job_params_def)
  show ?thesis
    by (simp add: EnqueueDueMaturities_def enqueue_body_def enqueue_one_def run_defs MaturityRepo_ListDue_def
        due demo_sys_def Let_def demo_calculate SettlementJobRepo_CreateIdempotent_def get job id PublishJobTransition_def
        Publish_def AuditRepo_Record_def aud names demo_sys1_def)
qed

lemma demo_tick: "runTick (en_scheduler demo_engine) (demo_env 0) (demo_sys p) = demo_sys1 p"
proof -
  let ?q = "demo_proc\<lparr>proc_metrics := (proc_metrics demo_proc)\<lparr>SchedulerTicks := 1\<rparr>\<rparr>"
  obtain s' where s': "EnqueueDueMaturities (sc_orchestrator (en_scheduler demo_engine)) (demo_env 0) ((demo_sys p)\<lparr>sys_proc := ?q\<rparr>) = (Inr 1, s')"
      "sys_db s' = sys_db (demo_sys1 p)" "sys_proc s' = ?q\<lparr>proc_metrics := (proc_metrics ?q)\<lparr>JobsEnqueued := JobsEnqueued (proc_metrics ?q) + 1\<rparr>\<rparr>"
    using demo_enqueue by blast
  have "s' = demo_sys1 p"
    by (rule sys.equality) (simp_all add: s' demo_sys1_def demo_proc_def)
  moreover have "(demo_sys p)\<lparr>sys_proc := (sys_proc (demo_sys p))\<lparr>proc_metrics := (proc_metrics (sys_proc (demo_sys p)))
      \<lparr>SchedulerTicks := SchedulerTicks (proc_metrics (sys_proc (demo_sys p))) + 1\<rparr>\<rparr>\<rparr> = (demo_sys p)\<lparr>sys_proc := ?q\<rparr>"
    by (simp add: demo_sys_def demo_proc_def)
  ultimately show ?thesis using s'(1) by (simp add: runTick_def Let_def)
qed

section \<open>The worker on the new job\<close>

lemmas demo_stmts = ClaimSettlementJob_def claim_candidate_def claimable_def claimed_def replace_job_def
  GetInvestmentByID_def GetNextAttemptNumber_def next_attempt_def CreatePayoutAttempt_def new_attempt_def
  CreateAuditEvent_def new_audit_event_def GetLedgerEntryGroupIDByJobID_def UpsertLedgerAccount_def InsertLedgerEntry_def
  new_entry_def FinishPayoutAttemptSuccess_def FinishPayoutAttemptFailure_def update_attempt_def attempt_succeeded_def
  attempt_failed_def MarkJobSucceeded_def MarkJobDeadLetter_def MarkJobFailedRetryable_def update_job_def job_succeeded_def
  job_failed_def job_dead_def MarkMaturitySettled_def maturity_settled_def account_types_def bpchar_fitsI job_checks_def job_clash_def

lemmas demo_worker = process_body_def execute_payout_def call_gateway_def PublishJobTransition_def PublishLedgerPosted_def
  Publish_def Simulator_Execute_def PayoutReference_def run_defs repo_defs demo_stmts audit_names in_int32_def IsNotFound_def Let_def

lemmas demo_rows = demo_sys1_def demo_db_def demo_job_def demo_investment_def demo_maturity_def demo_terms_def demo_created_def
  demo_proc_def scenario_lib_def

lemmas demo_posting = completeSuccess_def finishSuccess_def PostSettlement_def job_breakdown_def Breakdown_Validate_def cents_defs
  wrap64_def buildPostingLines_def validateBalanced_def posting_consts TotalObligationCents_def EntryGroupIDFromJob_def
  investorPayableCode_def investorWalletCode_def

definition demo_sys2 :: "string option \<Rightarrow> sys" where
  "demo_sys2 profile = snd (ProcessOne (en_processor demo_engine) (demo_env 1) ''w'' (demo_sys1 profile))"

lemma demo_paid_body:
  "\<exists>st. process_body (en_processor demo_engine) (demo_env 1) ''w'' (begin_tx (demo_sys1 None)) = (Inr (), st)
     \<and> \<not> tx_aborted st
     \<and> (\<exists>j. settlement_jobs (tx_db st) = [j] \<and> sj_Status j = SettlementJobStatusSucceeded \<and> sj_ID j = 102
          \<and> sj_PrincipalCents j = 1000000 \<and> sj_GrossReturnCents j = 80000)"
  by (simp add: demo_worker demo_rows demo_posting)

lemma demo_dead_body:
  "\<exists>st. process_body (en_processor demo_engine) (demo_env 1) ''w'' (begin_tx (demo_sys1 (Some ''terminal_failure''))) = (Inr (), st)
     \<and> \<not> tx_aborted st
     \<and> (\<exists>j. settlement_jobs (tx_db st) = [j] \<and> sj_Status j = SettlementJobStatusDeadLetter \<and> sj_ID j = 102)"
  by (simp add: demo_worker demo_rows handleFailure_def deadLetter_def error_text.simps)

lemma demo_retry_body:
  "\<exists>st. process_body (en_processor demo_engine) (demo_env 1) ''w'' (begin_tx (demo_sys1 (Some ''transient_then_success''))) = (Inr (), st)
     \<and> \<not> tx_aborted st
     \<and> (\<exists>j. settlement_jobs (tx_db st) = [j] \<and> sj_Status j = SettlementJobStatusFailed \<and> sj_ID j = 102 \<and> sj_RetryCount j = 1)"
  by (simp add: demo_worker demo_rows handleFailure_def scheduleRetry_def NextRetryAt_def DefaultPolicy_def wrap64_def
      wrap32_def rand_Int63n_def)

section \<open>The states of the runs\<close>

lemma demo_process:
  assumes "\<exists>st. process_body (en_processor demo_engine) (demo_env 1) ''w'' (begin_tx (demo_sys1 p)) = (Inr (), st)
     \<and> \<not> tx_aborted st \<and> P (tx_db st)"
  shows "\<exists>s. ProcessOne (en_processor demo_engine) (demo_env 1) ''w'' (demo_sys1 p) = (Inr (), s) \<and> demo_sys2 p = s \<and> P (sys_db s)"
  using assms by (auto simp: demo_sys2_def ProcessOne_def WithTx_def)

lemma demo_fresh: "fresh_db (demo_db p)"
  by (simp add: fresh_db_def schema_ok_def jobs_ok_def maturities_ok_def attempts_ok_def ledger_ok_def ops_ok_def demo_db_def
      demo_investment_def demo_maturity_def demo_terms_def)

lemma demo_reachable:
  "reachable demo_engine (demo_sys p)" "reachable demo_engine (demo_sys1 p)" "reachable demo_engine (demo_sys2 p)"
proof -
  show 0: "reachable demo_engine (demo_sys p)" by (rule reachable.init) (simp add: demo_sys_def demo_fresh)
  show 1: "reachable demo_engine (demo_sys1 p)"
    using reachable.step [OF 0 engine_step.tick [of demo_engine "demo_sys p" "demo_env 0"]] by (simp add: demo_tick)
  show "reachable demo_engine (demo_sys2 p)"
    unfolding demo_sys2_def by (rule reachable.step [OF 1 engine_step.work])
qed

lemma demo_paid:
  obtains j where "settlement_jobs (sys_db (demo_sys2 None)) = [j]" "sj_Status j = SettlementJobStatusSucceeded" "sj_ID j = 102"
    "sj_PrincipalCents j = 1000000" "sj_GrossReturnCents j = 80000"
  using demo_process [OF demo_paid_body] by metis

lemma demo_dead:
  obtains j where "settlement_jobs (sys_db (demo_sys2 (Some ''terminal_failure''))) = [j]"
    "sj_Status j = SettlementJobStatusDeadLetter" "sj_ID j = 102"
  using demo_process [OF demo_dead_body] by metis

lemma demo_retry:
  obtains j where "settlement_jobs (sys_db (demo_sys2 (Some ''transient_then_success''))) = [j]"
    "sj_Status j = SettlementJobStatusFailed" "sj_ID j = 102" "sj_RetryCount j = 1"
  using demo_process [OF demo_retry_body] by metis

end
