(* ===== verification/Router.thy ===== *)
theory Router
  imports Handlers Scenario
begin

text \<open>
  \<^verbatim>\<open>internal/api/router.go\<close>: the middleware and the route table, and what a request can do to the system.
  Matching a path against the patterns is gin's; a request carries the pattern that matched
  (\<^verbatim>\<open>c.FullPath()\<close>) and its parameters. The handler of the Swagger pages is that of gin-swagger and an argument.
\<close>

section \<open>The route table\<close>

datatype endpoint = EpLive | EpReady | EpSwagger | EpListJobs | EpGetJob | EpListAttempts | EpReplayJob | EpRequeueJob
  | EpListEntries | EpListAccounts | EpGetLatest | EpListSnapshots | EpRun | EpListEvents | EpSchedulerTick

text \<open>A route is a method and a pattern; the flag says whether the API key middleware guards it.\<close>

definition routes :: "((string \<times> string) \<times> (bool \<times> endpoint)) list" where
  "routes =
     [((''GET'', ''/healthz''), (False, EpLive)),
      ((''GET'', ''/readyz''), (False, EpReady)),
      ((''GET'', ''/swagger/*any''), (False, EpSwagger)),
      ((''GET'', ''/api/v1/settlement-jobs''), (False, EpListJobs)),
      ((''GET'', ''/api/v1/settlement-jobs/:id''), (False, EpGetJob)),
      ((''GET'', ''/api/v1/settlement-jobs/:id/attempts''), (False, EpListAttempts)),
      ((''POST'', ''/api/v1/settlement-jobs/:id/replay''), (True, EpReplayJob)),
      ((''POST'', ''/api/v1/settlement-jobs/:id/requeue''), (True, EpRequeueJob)),
      ((''GET'', ''/api/v1/ledger/entries''), (False, EpListEntries)),
      ((''GET'', ''/api/v1/ledger/accounts''), (False, EpListAccounts)),
      ((''GET'', ''/api/v1/reconciliation/latest''), (False, EpGetLatest)),
      ((''GET'', ''/api/v1/reconciliation/snapshots''), (False, EpListSnapshots)),
      ((''POST'', ''/api/v1/reconciliation/run''), (True, EpRun)),
      ((''GET'', ''/api/v1/audit/events''), (False, EpListEvents)),
      ((''POST'', ''/api/v1/admin/scheduler/tick''), (True, EpSchedulerTick))]"

record Dependencies =
  dp_Lib :: golib
  dp_Config :: Config
  dp_Scheduler :: Scheduler
  dp_Idempotency :: idem_Service
  dp_NoRoute :: response
  dp_Swagger :: "request \<Rightarrow> response"

text \<open>What a request meets: the environments of its transactions, a fresh request identifier, and the answers of the two pings.\<close>

record call_env =
  ce_E :: tx_env
  ce_E' :: tx_env
  ce_NewString :: string
  ce_DBPing :: "go_error option"
  ce_RedisPing :: "go_error option"

primrec handle :: "endpoint \<Rightarrow> Dependencies \<Rightarrow> call_env \<Rightarrow> string \<Rightarrow> request \<Rightarrow> sys \<Rightarrow> response \<times> sys" where
  "handle EpLive D V rid c s = (Live, s)"
| "handle EpReady D V rid c s = (Ready (ce_DBPing V) (ce_RedisPing V), s)"
| "handle EpSwagger D V rid c s = (dp_Swagger D c, s)"
| "handle EpListJobs D V rid c s = ListJobs (dp_Lib D) (ce_E V) c s"
| "handle EpGetJob D V rid c s = GetJob (dp_Lib D) (ce_E V) c s"
| "handle EpListAttempts D V rid c s = ListAttempts (dp_Lib D) (ce_E V) (ce_E' V) c s"
| "handle EpReplayJob D V rid c s = ReplayJob (dp_Lib D) (dp_Idempotency D) (ce_E V) (ce_E' V) (Some rid) c s"
| "handle EpRequeueJob D V rid c s = RequeueJob (dp_Lib D) (dp_Idempotency D) (ce_E V) (ce_E' V) (Some rid) c s"
| "handle EpListEntries D V rid c s = ListEntries (dp_Lib D) (ce_E V) c s"
| "handle EpListAccounts D V rid c s = ListAccounts (dp_Lib D) (ce_E V) c s"
| "handle EpGetLatest D V rid c s = GetLatest (dp_Lib D) (ce_E V) (ce_E' V) c s"
| "handle EpListSnapshots D V rid c s = ListSnapshots (dp_Lib D) (ce_E V) c s"
| "handle EpRun D V rid c s = Run (dp_Lib D) (dp_Idempotency D) (ce_E V) (ce_E' V) c s"
| "handle EpListEvents D V rid c s = ListEvents (dp_Lib D) (ce_E V) c s"
| "handle EpSchedulerTick D V rid c s = SchedulerTick (dp_Scheduler D) (dp_Idempotency D) (ce_E V) (ce_E' V) c s"

definition api_key_config :: "Config \<Rightarrow> APIKeyConfig" where
  "api_key_config cfg = \<lparr>ak_ExpectedKey = cfg_APIKey cfg, ak_DevBypass = IsDevelopment cfg\<rparr>"

definition dispatch :: "Dependencies \<Rightarrow> call_env \<Rightarrow> string \<Rightarrow> request \<Rightarrow> sys \<Rightarrow> response \<times> sys" where
  "dispatch D V rid c s =
     (case map_of routes (rq_Method c, rq_FullPath c) of
        None \<Rightarrow> (dp_NoRoute D, s)
      | Some (guarded, ep) \<Rightarrow>
          (case if guarded then APIKey (api_key_config (dp_Config D)) c else None of
             Some denied \<Rightarrow> (denied, s)
           | None \<Rightarrow> handle ep D V rid c s))"

definition ServeHTTP :: "Dependencies \<Rightarrow> call_env \<Rightarrow> request \<Rightarrow> sys \<Rightarrow> response \<times> sys" where
  "ServeHTTP D V c s =
     (let rid = RequestID (ce_NewString V) c
      in case dispatch D V rid c s of (r, s') \<Rightarrow> (r\<lparr>hr_Header := (''X-Request-ID'', rid) # hr_Header r\<rparr>, s'))"

text \<open>
  The engine that \<^verbatim>\<open>NewRouter\<close> builds: the request identifier, then the access log around the route. A request that is denied
  or matches no route is logged like the others.
\<close>

definition NewRouter :: "Dependencies \<Rightarrow> call_env \<Rightarrow> conn \<Rightarrow> request \<Rightarrow> sys \<Rightarrow> response \<times> log_line \<times> sys" where
  "NewRouter D V k c s =
     (case ServeHTTP D V c s of (r, s') \<Rightarrow> (r, RequestLogger k (RequestID (ce_NewString V) c) c r, s'))"

text \<open>The log of a request carries the identifier and the status that its client received.\<close>

lemma access_log:
  assumes "NewRouter D V k c s = (r, line, s')"
  shows "map_of (hr_Header r) ''X-Request-ID'' = Some i \<longleftrightarrow> map_of (snd line) ''request_id'' = Some (JStr i)"
    "map_of (snd line) ''status'' = Some (JInt (hr_Status r))"
  using assms by (auto simp: NewRouter_def ServeHTTP_def RequestLogger_def Let_def split: prod.splits)

section \<open>Reads change nothing\<close>

interpretation same: db_preorder "(=) :: db \<Rightarrow> db \<Rightarrow> bool"
  by unfold_locales auto

lemma onPool_same: "keeps (=) m \<Longrightarrow> snd (onPool m s) = s"
  by (auto simp: onPool_def keeps_def begin_tx_def split: prod.splits) (metis snd_conv sys.surjective sys.update_convs(1) tx.select_convs(1))

lemma repo_reads:
  "keeps (=) (SettlementJobRepo_List E flt)" "keeps (=) (SettlementJobRepo_GetByID E i)"
  "keeps (=) (PayoutAttemptRepo_ListByJobID E i)" "keeps (=) (LedgerRepo_List E lf)" "keeps (=) (LedgerRepo_ListAccounts E)"
  "keeps (=) (ReconciliationRepo_GetLatest E)" "keeps (=) (ReconciliationRepo_List E t u n)" "keeps (=) (AuditRepo_List E af)"
  "keeps (=) (FlagsForSnapshot E x)"
  unfolding SettlementJobRepo_List_def SettlementJobRepo_GetByID_def PayoutAttemptRepo_ListByJobID_def LedgerRepo_List_def
    LedgerRepo_ListAccounts_def ReconciliationRepo_GetLatest_def ReconciliationRepo_List_def AuditRepo_List_def
    FlagsForSnapshot_def ReconciliationRepo_FlagCounts_def
  by (intro same.keeps_wrap same.keeps_noRowsAs same.keeps_bind same.keeps_return same.keeps_stmt same.read_keeps)+

lemmas pool_reads = repo_reads [THEN onPool_same]

lemma onPool_pair: "keeps (=) m \<Longrightarrow> onPool m s = (fst (onPool m s), s)"
  using onPool_same [of m s] by (metis prod.collapse)

lemmas pool_pairs = repo_reads [THEN onPool_pair]

lemma service_reads:
  "snd (SettlementService_ListJobs E flt s) = s" "snd (SettlementService_GetJob E i s) = s"
  "snd (LedgerService_ListEntries E lf s) = s" "snd (LedgerService_ListAccounts E s) = s" "snd (AuditService_ListEvents E af s) = s"
  by (simp_all add: SettlementService_ListJobs_def SettlementService_GetJob_def LedgerService_ListEntries_def
      LedgerService_ListAccounts_def AuditService_ListEvents_def pool_reads)

lemma service_reads2:
  "snd (SettlementService_ListAttempts E E' i s) = s" "snd (ReconciliationService_List E t u n s) = s"
  "snd (ReconciliationService_GetLatest E E' s) = s"
proof -
  obtain r where "SettlementService_GetJob E i s = (r, s)" using service_reads(2) [of E i s] by (metis prod.collapse)
  then show "snd (SettlementService_ListAttempts E E' i s) = s"
    by (simp add: SettlementService_ListAttempts_def pool_reads split: sum.split)
  obtain r where "onPool (ReconciliationRepo_List E t u n) s = (r, s)" using pool_pairs(7) by blast
  then show "snd (ReconciliationService_List E t u n s) = s"
    by (simp add: ReconciliationService_List_def split: sum.split)
  obtain r where "onPool (ReconciliationRepo_GetLatest E) s = (r, s)" using pool_pairs(6) by blast
  moreover have "\<exists>r. onPool (FlagsForSnapshot E' x) s = (r, s)" for x using pool_pairs(9) by blast
  ultimately show "snd (ReconciliationService_GetLatest E E' s) = s"
    by (auto simp: ReconciliationService_GetLatest_def split: sum.split prod.split) (metis snd_conv)+
qed

text \<open>The shape of every reading handler: a service that leaves the system alone, and a response.\<close>

lemma respond_read:
  assumes "snd p = s"
  shows "snd (case p of (Inl err, s') \<Rightarrow> (f err, s') | (Inr x, s') \<Rightarrow> g x s') = s \<longleftrightarrow> (\<forall>x. fst p = Inr x \<longrightarrow> snd (g x s) = s)"
  using assms by (cases p) (auto split: sum.split)

lemma handlers_read:
  "snd (ListJobs L E c s) = s" "snd (GetJob L E c s) = s" "snd (ListAttempts L E E' c s) = s" "snd (ListEntries L E c s) = s"
  "snd (ListAccounts L E c s) = s" "snd (GetLatest L E E' c s) = s" "snd (ListSnapshots L E c s) = s" "snd (ListEvents L E c s) = s"
  by (simp_all add: ListJobs_def GetJob_def ListAttempts_def ListEntries_def ListAccounts_def GetLatest_def ListSnapshots_def
      ListEvents_def respond_read [OF service_reads(1)] respond_read [OF service_reads(2)] respond_read [OF service_reads(3)]
      respond_read [OF service_reads(4)] respond_read [OF service_reads(5)] respond_read [OF service_reads2(1)]
      respond_read [OF service_reads2(2)] respond_read [OF service_reads2(3)] split: sum.split)

section \<open>Writes are engine steps\<close>

lemma maps_choice: "maps f \<Longrightarrow> \<exists>g. \<forall>r. f r = Inr (g r)"
  by (simp add: maps_def choice_iff)

lemma job_action_respond: "\<exists>f. job_action L svc = respond f svc"
proof -
  obtain g where "\<forall>j. MapSettlementJob L j = Inr (g j)" using maps_choice [OF mappers_total(1)] by blast
  then have "job_action L svc = respond (\<lambda>j. \<lparr>sr_StatusCode = 200, sr_Body = JobActionResponse_json (g j)\<rparr>) svc"
    by (simp add: fun_eq_iff job_action_def respond_def split: sum.split prod.split)
  then show ?thesis by blast
qed

lemma snapshot_action_respond: "\<exists>f. snapshot_action L svc = respond f svc"
proof -
  obtain g where "\<forall>x. MapReconciliationSnapshot L (fst x) (snd x) = Inr (g x)" using maps_choice [OF mappers_total(6)] by blast
  then have "MapReconciliationSnapshot L x fl = Inr (g (x, fl))" for x fl by (metis fst_conv snd_conv)
  then have "snapshot_action L svc = respond (\<lambda>x. \<lparr>sr_StatusCode = 200, sr_Body = ReconciliationResponse_json (g x)\<rparr>) svc"
    by (simp add: fun_eq_iff snapshot_action_def respond_def split: sum.split prod.split)
  then show ?thesis by blast
qed

lemma tick_action_respond: "\<exists>f. tick_action svc = respond f svc"
  by (rule exI [of _ "\<lambda>n. \<lparr>sr_StatusCode = 200, sr_Body = SchedulerTickResponse_json n\<rparr>"])
    (simp add: fun_eq_iff tick_action_def respond_def split: sum.split prod.split)

lemma idempotent_snd: "snd (idempotent S E c scope fn s) = snd (runIdempotent S E (rq_GetHeader c ''Idempotency-Key'') scope fn s)"
  by (simp add: idempotent_def split: prod.split)

lemma handlers_write:
  assumes "en_idem G = S" "en_scheduler G = sc"
  shows "snd (ReplayJob L S E E' rid c s) = s \<or> engine_step G s (snd (ReplayJob L S E E' rid c s))"
    "snd (RequeueJob L S E E' rid c s) = s \<or> engine_step G s (snd (RequeueJob L S E E' rid c s))"
    "engine_step G s (snd (Run L S E E' c s))" "engine_step G s (snd (SchedulerTick sc S E E' c s))"
proof -
  have "engine_step G s (snd (idempotent S E c scope (job_action L (SettlementService_ReplayDeadLetter E' i a q)) s))"
      "engine_step G s (snd (idempotent S E c scope (job_action L (SettlementService_RequeueFailed E' i a q)) s))" for scope i a q
    using job_action_respond [of L "SettlementService_ReplayDeadLetter E' i a q"]
      job_action_respond [of L "SettlementService_RequeueFailed E' i a q"] engine_step.replay [of G s] engine_step.requeue [of G s]
    by (auto simp: idempotent_snd assms)
  then show "snd (ReplayJob L S E E' rid c s) = s \<or> engine_step G s (snd (ReplayJob L S E E' rid c s))"
    "snd (RequeueJob L S E E' rid c s) = s \<or> engine_step G s (snd (RequeueJob L S E E' rid c s))"
    by (simp_all add: ReplayJob_def RequeueJob_def split: sum.split)
  show "engine_step G s (snd (Run L S E E' c s))"
    using snapshot_action_respond [of L "ReconciliationService_RunSnapshot E'"] engine_step.snapshot [of G s]
    by (auto simp: Run_def idempotent_snd assms)
  show "engine_step G s (snd (SchedulerTick sc S E E' c s))"
    using tick_action_respond [of "TriggerSchedulerScan sc E'"] engine_step.scan [of G s]
    by (auto simp: SchedulerTick_def idempotent_snd assms)
qed

lemma handle_unguarded:
  "map_of routes (m, p) = Some (False, ep) \<Longrightarrow> snd (handle ep D V rid c s) = s"
  by (auto simp: routes_def handlers_read split: if_splits)

lemma handle_step:
  assumes "en_idem G = dp_Idempotency D" "en_scheduler G = dp_Scheduler D"
  shows "snd (handle ep D V rid c s) = s \<or> engine_step G s (snd (handle ep D V rid c s))"
  using handlers_write [OF assms] by (cases ep) (auto simp: handlers_read)

lemma ServeHTTP_snd: "snd (ServeHTTP D V c s) = snd (dispatch D V (RequestID (ce_NewString V) c) c s)"
  by (simp add: ServeHTTP_def Let_def split: prod.split)

section \<open>Properties\<close>

text \<open>
  C23. Only a request with the configured key can change anything: outside development mode, a request whose \<^verbatim>\<open>X-API-Key\<close>
  is not the configured key, or any request when no key is configured, leaves the whole system as it was, whatever
  its method, path, parameters and body; and on a guarded route it is answered with 401.
\<close>

theorem ServeHTTP_unauthorised:
  assumes "\<not> IsDevelopment (dp_Config D)"
    and "cfg_APIKey (dp_Config D) = [] \<or> rq_GetHeader c ''X-API-Key'' \<noteq> cfg_APIKey (dp_Config D)"
  shows "snd (ServeHTTP D V c s) = s
    \<and> (\<forall>ep. map_of routes (rq_Method c, rq_FullPath c) = Some (True, ep) \<longrightarrow> hr_Status (fst (ServeHTTP D V c s)) = 401)"
proof -
  have denied: "APIKey (api_key_config (dp_Config D)) c = Some (error_response 401 ''unauthorized'' ''unauthorized'' [])"
    using assms by (auto simp: APIKey_def api_key_config_def Let_def)
  have "snd (dispatch D V rid c s) = s" for rid
    using handle_unguarded [of "rq_Method c" "rq_FullPath c" _ D V rid c s]
    by (auto simp: dispatch_def denied split: option.split)
  moreover have "hr_Status (fst (ServeHTTP D V c s)) = 401" if "map_of routes (rq_Method c, rq_FullPath c) = Some (True, ep)" for ep
    using that by (simp add: ServeHTTP_def dispatch_def denied error_response_def c_JSON_def Let_def)
  ultimately show ?thesis by (auto simp: ServeHTTP_snd)
qed

definition demo_config :: Config where
  "demo_config = \<lparr>cfg_AppEnv = ''production'', cfg_HTTPPort = 8080, cfg_LogLevel = ''info'', cfg_ShutdownTimeout = 15 * Second,
     cfg_DatabaseURL = ''postgres'', cfg_RedisURL = ''redis'', cfg_SchedulerInterval = 30 * Second, cfg_SchedulerBatchSize = 50,
     cfg_WorkerCount = 4, cfg_WorkerPollInterval = Second, cfg_WorkerBatchSize = 1, cfg_JobLeaseTimeout = 300 * Second,
     cfg_ReaperInterval = 60 * Second, cfg_MaxRetries = 5, cfg_RetryBaseDelay = 5 * Second, cfg_RetryMaxDelay = 900 * Second,
     cfg_PlatformFeeBPS = 100, cfg_WithholdingTaxBPS = 1500, cfg_APIKey = ''secret''\<rparr>"

definition demo_deps :: Dependencies where
  "demo_deps = \<lparr>dp_Lib = demo_lib, dp_Config = demo_config, dp_Scheduler = en_scheduler demo_engine,
     dp_Idempotency = en_idem demo_engine, dp_NoRoute = c_JSON 404 JNull, dp_Swagger = (\<lambda>c. c_JSON 200 JNull)\<rparr>"

definition demo_call :: "nat \<Rightarrow> call_env" where
  "demo_call n = \<lparr>ce_E = demo_env n, ce_E' = demo_env (n + 1), ce_NewString = ''rid'', ce_DBPing = None, ce_RedisPing = None\<rparr>"

definition demo_request :: "string \<Rightarrow> string \<Rightarrow> (string \<Rightarrow> string) \<Rightarrow> request" where
  "demo_request m p h = \<lparr>rq_Method = m, rq_FullPath = p, rq_GetHeader = h, rq_Query = (\<lambda>_. []), rq_Param = (\<lambda>_. [])\<rparr>"

theorem ServeHTTP_unauthorised_witness:
  "snd (ServeHTTP demo_deps (demo_call 0) (demo_request ''POST'' ''/api/v1/reconciliation/run'' (\<lambda>_. ''guess'')) empty_sys) = empty_sys
   \<and> hr_Status (fst (ServeHTTP demo_deps (demo_call 0) (demo_request ''POST'' ''/api/v1/reconciliation/run'' (\<lambda>_. ''guess'')) empty_sys)) = 401"
proof -
  have "map_of routes (''POST'', ''/api/v1/reconciliation/run'') = Some (True, EpRun)" by (simp add: routes_def)
  then show ?thesis
    using ServeHTTP_unauthorised [of demo_deps "demo_request ''POST'' ''/api/v1/reconciliation/run'' (\<lambda>_. ''guess'')"]
    by (simp add: demo_deps_def demo_config_def demo_request_def IsDevelopment_def)
qed

text \<open>
  C24. The API is part of the engine: whatever a request does, the system is unchanged or has made one step of the engine with the same
  scheduler and idempotency service; so every state the API can produce is reachable and has all the properties of the reachable states.
\<close>

theorem ServeHTTP_engine_step:
  assumes "en_idem G = dp_Idempotency D" "en_scheduler G = dp_Scheduler D"
  shows "(snd (ServeHTTP D V c s) = s \<or> engine_step G s (snd (ServeHTTP D V c s)))
    \<and> (reachable G s \<longrightarrow> reachable G (snd (ServeHTTP D V c s)))"
proof -
  have "snd (ServeHTTP D V c s) = s \<or> engine_step G s (snd (ServeHTTP D V c s))"
    using handle_step [OF assms, of _ V _ c s] by (simp add: ServeHTTP_snd dispatch_def split: option.split)
  then show ?thesis by (auto intro: reachable.step)
qed

theorem ServeHTTP_engine_step_witness:
  "reachable demo_engine (snd (ServeHTTP demo_deps (demo_call 2)
     (demo_request ''POST'' ''/api/v1/admin/scheduler/tick'' (\<lambda>_. ''secret'')) (demo_sys1 None)))"
proof -
  have "en_idem demo_engine = dp_Idempotency demo_deps" "en_scheduler demo_engine = dp_Scheduler demo_deps"
    by (simp_all only: demo_deps_def Dependencies.select_convs)
  from ServeHTTP_engine_step [OF this] demo_reachable(2) show ?thesis by blast
qed

text \<open>
  A job is served by its identifier: with a working connection the answer is 400 for a parameter that is no identifier, 404 for an unknown
  one, and otherwise 200 with the row of that identifier; the system is unchanged.
\<close>

theorem GetJob_answer:
  assumes "\<not> stmt_fault E 0"
  shows "snd (GetJob L E c s) = s \<and>
    (case uuid_Parse L (rq_Param c ''id'') of
       None \<Rightarrow> hr_Status (fst (GetJob L E c s)) = 400
     | Some i \<Rightarrow> (case find (\<lambda>j. sj_ID j = i) (settlement_jobs (sys_db s)) of
         None \<Rightarrow> hr_Status (fst (GetJob L E c s)) = 404
       | Some j \<Rightarrow> (\<exists>m. MapSettlementJob L j = Inr m \<and> jr_ID m = uuid_String L i
           \<and> fst (GetJob L E c s) = c_JSON 200 (SettlementJobResponse_json m))))"
proof -
  have m: "\<exists>m. MapSettlementJob L j = Inr m \<and> jr_ID m = uuid_String L (sj_ID j)" for j
    by (simp add: MapSettlementJob_def)
  have g: "SettlementService_GetJob E i s = ((case find (\<lambda>j. sj_ID j = i) (settlement_jobs (sys_db s)) of
      None \<Rightarrow> Inl ErrNotFound | Some j \<Rightarrow> Inr j), s)" for i
    using assms by (auto simp: SettlementService_GetJob_def onPool_def SettlementJobRepo_GetByID_def noRowsAs_def tryE_def run_stmt_def
        GetSettlementJobByID_def begin_tx_def failE_def returnE_def split: option.split)
  show ?thesis
  proof (cases "uuid_Parse L (rq_Param c ''id'')")
    case None
    then show ?thesis
      by (simp add: GetJob_def parseUUIDParam_def WriteError_def IsNotFound_def error_response_def c_JSON_def)
  next
    case (Some i)
    show ?thesis
    proof (cases "find (\<lambda>j. sj_ID j = i) (settlement_jobs (sys_db s))")
      case None
      with Some show ?thesis
        by (simp add: GetJob_def parseUUIDParam_def g WriteError_def IsNotFound_def error_response_def c_JSON_def)
    next
      case j: (Some j)
      then have "sj_ID j = i" by (blast dest: find_eq_SomeD)
      moreover obtain r where "MapSettlementJob L j = Inr r" "jr_ID r = uuid_String L (sj_ID j)" using m by blast
      ultimately show ?thesis using Some j by (simp add: GetJob_def parseUUIDParam_def g)
    qed
  qed
qed

theorem GetJob_answer_witness:
  "hr_Status (fst (GetJob demo_lib (demo_env 0) ((demo_request ''GET'' ''/api/v1/settlement-jobs/:id'' (\<lambda>_. []))
      \<lparr>rq_Param := \<lambda>_. replicate 128 CHR ''0''\<rparr>) empty_sys)) = 404"
  using GetJob_answer [of "demo_env 0" demo_lib "(demo_request ''GET'' ''/api/v1/settlement-jobs/:id'' (\<lambda>_. []))
      \<lparr>rq_Param := \<lambda>_. replicate 128 CHR ''0''\<rparr>" empty_sys]
  by (simp add: demo_lib_def empty_sys_def empty_db_def)

text \<open>
  A reconciliation response accounts for every job: the counts by status that a client receives for a snapshot, five different
  statuses, add up to the number of jobs in the table, and the flags are those of the snapshot.
\<close>

theorem snapshot_response_complete:
  assumes "ReconciliationService_RunSnapshot E s = (Inr (x, flags), s')"
  shows "\<exists>r. MapReconciliationSnapshot L x flags = Inr r \<and> rr_Flags r = flags
    \<and> map fst (su_ByStatus (rr_Summary r)) = [''pending'', ''failed'', ''dead_letter'', ''succeeded'', ''processing'']
    \<and> sum_list (map snd (su_ByStatus (rr_Summary r))) = int (length (settlement_jobs (sys_db s)))"
proof -
  from assms obtain st where b: "snapshot_body E (begin_tx s) = (Inr (x, flags), st)"
    by (auto simp: ReconciliationService_RunSnapshot_def WithTx_Inr)
  obtain st1 where "ReconciliationRepo_CreateSnapshot E (begin_tx s) = (Inr x, st1)" using snapshot_body_ok [OF b] by metis
  then obtain stats st2 where q: "run_stmt E AggregateSettlementJobStats (begin_tx s) = (Inr stats, st2)"
      and x: "rs_PendingCount x = ag_PendingCount stats" "rs_FailedCount x = ag_FailedCount stats"
        "rs_DeadLetterCount x = ag_DeadLetterCount stats" "rs_SucceededCount x = ag_SucceededCount stats"
        "details_number (rs_Details x) ''processing_count'' = Some (ag_ProcessingCount stats)"
    by (auto simp: ReconciliationRepo_CreateSnapshot_def bindE_Inr Let_def run_stmt_Inr CreateReconciliationSnapshot_def
        new_snapshot_def details_number_def split: if_splits)
  from q have "ag_PendingCount stats + (ag_FailedCount stats + (ag_DeadLetterCount stats + (ag_SucceededCount stats + ag_ProcessingCount stats)))
      = int (length (settlement_jobs (sys_db s)))"
    using count_status_total [of "sys_db s"]
    by (auto simp: run_stmt_Inr AggregateSettlementJobStats_def Let_def split: if_splits)
  with x show ?thesis by (simp add: MapReconciliationSnapshot_def)
qed

theorem snapshot_response_complete_witness:
  "\<exists>x flags r. ReconciliationService_RunSnapshot (demo_env 2) (demo_sys1 None) = (Inr (x, flags), snd (ReconciliationService_RunSnapshot (demo_env 2) (demo_sys1 None)))
     \<and> MapReconciliationSnapshot demo_lib x flags = Inr r \<and> sum_list (map snd (su_ByStatus (rr_Summary r))) = 1"
proof -
  have "\<exists>x flags s'. ReconciliationService_RunSnapshot (demo_env 2) (demo_sys1 None) = (Inr (x, flags), s')"
    by (simp add: ReconciliationService_RunSnapshot_def snapshot_body_def recon_RunSnapshot_def ReconciliationRepo_CreateSnapshot_def
        FlagsForSnapshot_def ReconciliationRepo_FlagCounts_def run_defs AggregateSettlementJobStats_def CreateReconciliationSnapshot_def
        CountSucceededJobsWithoutLedger_def CountOrphanLedgerJobGroups_def CountStalePendingJobs_def int_count_def in_int32_def in_int64_def
        total_net_def demo_rows Let_def)
  then obtain x flags s' where r: "ReconciliationService_RunSnapshot (demo_env 2) (demo_sys1 None) = (Inr (x, flags), s')" by blast
  have "settlement_jobs (sys_db (demo_sys1 None)) = [demo_job]" by (simp add: demo_sys1_def)
  with snapshot_response_complete [OF r, of demo_lib] r show ?thesis by auto
qed

text \<open>
  A status filter is not validated: a listing of jobs with a status that is none of the five is answered with 500,
  although the fault is the client's; every other malformed parameter of the listing is answered with 400.
\<close>

theorem ListJobs_invalid_status:
  assumes "ParsePageParams L c = Inr page" "query_uuid L c ''investment_id'' = Inr i"
    and "rq_Query c ''status'' \<noteq> []" "\<not> job_status_valid (rq_Query c ''status'')"
  shows "hr_Status (fst (ListJobs L E c s)) = 500
    \<and> (\<forall>c' e. ParsePageParams L c' = Inl e \<longrightarrow> hr_Status (fst (ListJobs L E c' s)) = 400)"
proof
  show "hr_Status (fst (ListJobs L E c s)) = 500"
    using assms
    by (simp add: ListJobs_def query_text_def SettlementService_ListJobs_def onPool_def SettlementJobRepo_List_def wrapE_def tryE_def
        run_stmt_def begin_tx_def ListSettlementJobs_def failE_def returnE_def WriteError_def IsNotFound_def error_response_def c_JSON_def)
  have "errors_Is (invalid msg) e \<longleftrightarrow> e = invalid msg \<or> e = ErrValidation \<or> e = Errorf msg []" for msg e
    by (auto simp: invalid_def)
  then have "hr_Status (WriteError (invalid msg)) = 400" for msg
    by (simp add: WriteError_def IsNotFound_def error_response_def c_JSON_def invalid_def)
  moreover have "\<exists>msg. e = invalid msg" if "ParsePageParams L c' = Inl e" for c' e
    using that by (auto simp: ParsePageParams_def page_limit_def Let_def split: if_splits option.splits sum.splits)
  ultimately show "\<forall>c' e. ParsePageParams L c' = Inl e \<longrightarrow> hr_Status (fst (ListJobs L E c' s)) = 400"
    by (fastforce simp: ListJobs_def)
qed

theorem ListJobs_invalid_status_witness:
  "hr_Status (fst (ListJobs demo_lib (demo_env 0) ((demo_request ''GET'' ''/api/v1/settlement-jobs'' (\<lambda>_. []))
      \<lparr>rq_Query := (\<lambda>_. [])(''status'' := ''paid'')\<rparr>) empty_sys)) = 500"
proof -
  let ?c = "(demo_request ''GET'' ''/api/v1/settlement-jobs'' (\<lambda>_. []))\<lparr>rq_Query := (\<lambda>_. [])(''status'' := ''paid'')\<rparr>"
  have "ParsePageParams demo_lib ?c = Inr \<lparr>pp_Limit = defaultLimit, pp_CursorTime = None, pp_CursorID = None\<rparr>"
    by (simp add: ParsePageParams_def page_limit_def)
  moreover have "query_uuid demo_lib ?c ''investment_id'' = Inr None" by (simp add: query_uuid_def)
  ultimately show ?thesis using ListJobs_invalid_status [of demo_lib ?c _ None "demo_env 0" empty_sys] by (simp add: job_status_valid_def)
qed

end
