(* ===== verification/Paging.thy ===== *)
theory Paging
  imports Router
begin

text \<open>
  The listings of the API as a client sees them: a client that follows \<^verbatim>\<open>next_cursor\<close> from response to response
  collects every row exactly once, in order. The argument is made once for any listing that answers with the keyset page of its
  rows, cursor text and JSON included, and is then applied to the listings of jobs, ledger entries, audit events and snapshots.
\<close>

section \<open>The client\<close>

definition json_field :: "string \<Rightarrow> json \<Rightarrow> json option" where
  "json_field k j = (case j of JObj kvs \<Rightarrow> map_of kvs k | _ \<Rightarrow> None)"

definition body_items :: "json \<Rightarrow> json list" where
  "body_items b = (case json_field ''items'' b of Some (JArr xs) \<Rightarrow> xs | _ \<Rightarrow> [])"

definition body_cursor :: "json \<Rightarrow> string option" where
  "body_cursor b = (case Option.bind (json_field ''page'' b) (json_field ''next_cursor'') of Some (JStr s) \<Rightarrow> Some s | _ \<Rightarrow> None)"

text \<open>\<open>follow get k cursor\<close>: at most \<open>k\<close> requests; nothing when a request fails or \<open>k\<close> are not enough.\<close>

primrec follow :: "(string \<Rightarrow> response) \<Rightarrow> nat \<Rightarrow> string \<Rightarrow> json list option" where
  "follow get 0 cursor = None"
| "follow get (Suc k) cursor =
     (let r = get cursor
      in if hr_Status r \<noteq> 200 then None
         else case body_cursor (hr_Body r) of
           None \<Rightarrow> Some (body_items (hr_Body r))
         | Some next \<Rightarrow> map_option ((@) (body_items (hr_Body r))) (follow get k next))"

section \<open>Keyset pages\<close>

lemma before_cursor_key:
  assumes "timestamptz t = t"
  shows "before_cursor (Some t) (Some i) t' i' \<longleftrightarrow> page_key t i < page_key t' i'"
  using assms by (auto simp: before_cursor_def page_key_def less_prod_def' word_less_def)

lemma page_key_inj: "page_key t i = page_key t' i' \<longleftrightarrow> t = t' \<and> i = i'"
  by (auto simp: page_key_def word_uint_eq_iff)

lemma sorted_distinct_filter_greater:
  fixes f :: "'r \<Rightarrow> 'k :: linorder"
  assumes "sorted (map f (ys @ r # zs))" "distinct (map f (ys @ r # zs))"
  shows "filter (\<lambda>x. f r < f x) (ys @ r # zs) = zs"
proof -
  have "\<forall>y \<in> set ys. f y < f r" "\<forall>z \<in> set zs. f r < f z"
    using assms by (auto simp: sorted_append order.strict_iff_order image_iff)
  then have "filter (\<lambda>x. f r < f x) ys = []" "filter (\<lambda>x. f r < f x) zs = zs"
    by (auto simp: filter_empty_conv filter_id_conv)
  then show ?thesis by simp
qed

text \<open>The rows of a table with distinct identifiers and times of microsecond resolution.\<close>

definition pageable :: "('r \<Rightarrow> gotime) \<Rightarrow> ('r \<Rightarrow> uuid) \<Rightarrow> 'r list \<Rightarrow> bool" where
  "pageable tm idf rows \<longleftrightarrow> distinct (map idf rows) \<and> (\<forall>r \<in> set rows. timestamptz (tm r) = tm r \<and> four_digit_year (tm r))"

definition listed :: "('r \<Rightarrow> gotime) \<Rightarrow> ('r \<Rightarrow> uuid) \<Rightarrow> 'r list \<Rightarrow> 'r list" where
  "listed tm idf rows = sort_key (\<lambda>r. page_key (tm r) (idf r)) rows"

lemma listed_perm: "set (listed tm idf rows) = set rows" "length (listed tm idf rows) = length rows"
  by (simp_all add: listed_def)

lemma pageable_listed:
  assumes "pageable tm idf rows"
  shows "distinct (map (\<lambda>r. page_key (tm r) (idf r)) (listed tm idf rows))"
proof -
  have "distinct rows" "inj_on idf (set rows)" using assms by (auto simp: pageable_def distinct_map)
  then have "distinct (map (\<lambda>r. page_key (tm r) (idf r)) rows)"
    by (auto simp: distinct_map inj_on_def page_key_inj)
  then show ?thesis by (simp add: listed_def distinct_map)
qed

lemma keyset_page_first: "keyset_page tm idf None None n rows = take (nat n) (listed tm idf rows)"
  by (simp add: keyset_page_def before_cursor_def listed_def)

lemma keyset_page_after:
  assumes "pageable tm idf rows" "listed tm idf rows = ys @ r # zs"
  shows "keyset_page tm idf (Some (tm r)) (Some (idf r)) n rows = take (nat n) zs"
proof -
  let ?f = "\<lambda>r. page_key (tm r) (idf r)"
  have "r \<in> set rows" using assms(2) listed_perm(1) [of tm idf rows] by auto
  then have "timestamptz (tm r) = tm r" using assms(1) by (simp add: pageable_def)
  then have "keyset_page tm idf (Some (tm r)) (Some (idf r)) n rows = take (nat n) (filter (\<lambda>x. ?f r < ?f x) (listed tm idf rows))"
    by (simp add: keyset_page_def before_cursor_key listed_def filter_sort)
  also have "filter (\<lambda>x. ?f r < ?f x) (listed tm idf rows) = zs"
    unfolding assms(2) using pageable_listed [OF assms(1)] sorted_sort_key [of ?f rows]
    by (intro sorted_distinct_filter_greater) (simp_all add: assms(2) listed_def [symmetric])
  finally show ?thesis .
qed

section \<open>Following the cursors\<close>

text \<open>\<open>serves\<close>: the answers of a listing endpoint, for no cursor and for the cursors it hands out.\<close>

definition page_answer :: "golib \<Rightarrow> ('r \<Rightarrow> json) \<Rightarrow> ('r \<Rightarrow> gotime) \<Rightarrow> ('r \<Rightarrow> uuid) \<Rightarrow> int \<Rightarrow> 'r list \<Rightarrow> response \<Rightarrow> bool" where
  "page_answer L js tm idf n p r \<longleftrightarrow> hr_Status r = 200 \<and> body_items (hr_Body r) = map js p
     \<and> body_cursor (hr_Body r) = (if int (length p) = n then Some (NextCursor L (tm (last p)) (idf (last p))) else None)"

definition serves :: "golib \<Rightarrow> (string \<Rightarrow> response) \<Rightarrow> ('r \<Rightarrow> json) \<Rightarrow> ('r \<Rightarrow> gotime) \<Rightarrow> ('r \<Rightarrow> uuid) \<Rightarrow> int \<Rightarrow> 'r list \<Rightarrow> bool" where
  "serves L get js tm idf n rows \<longleftrightarrow>
     page_answer L js tm idf n (keyset_page tm idf None None n rows) (get [])
     \<and> (\<forall>t i. four_digit_year t \<longrightarrow>
          page_answer L js tm idf n (keyset_page tm idf (Some t) (Some i) n rows) (get (NextCursor L t i)))"

lemma follow_answer:
  assumes "page_answer L js tm idf n p (get cursor)"
  shows "follow get (Suc k) cursor =
    (if int (length p) = n then map_option ((@) (map js p)) (follow get k (NextCursor L (tm (last p)) (idf (last p)))) else Some (map js p))"
  using assms by (simp add: page_answer_def Let_def)

lemma follow_rest:
  assumes "serves L get js tm idf n rows" "pageable tm idf rows" "0 < n"
    and "listed tm idf rows = ys @ zs" "length zs < k"
    and "ys = [] \<and> cursor = [] \<or> ys \<noteq> [] \<and> cursor = NextCursor L (tm (last ys)) (idf (last ys))"
  shows "follow get k cursor = Some (map js zs)"
  using assms(4-6)
proof (induction k arbitrary: ys zs cursor)
  case (Suc k)
  have ans: "page_answer L js tm idf n (take (nat n) zs) (get cursor)"
  proof (cases "ys = []")
    case True
    with Suc.prems assms(1) show ?thesis by (simp add: serves_def keyset_page_first)
  next
    case False
    then have split: "listed tm idf rows = butlast ys @ last ys # zs" using Suc.prems(1) by simp
    then have "last ys \<in> set rows" using listed_perm(1) [of tm idf rows] by auto
    with assms(2) have "four_digit_year (tm (last ys))" by (simp add: pageable_def)
    with assms(1) have "page_answer L js tm idf n (keyset_page tm idf (Some (tm (last ys))) (Some (idf (last ys))) n rows)
        (get (NextCursor L (tm (last ys)) (idf (last ys))))" by (simp add: serves_def)
    with False Suc.prems(3) show ?thesis by (simp add: keyset_page_after [OF assms(2) split])
  qed
  show ?case
  proof (cases "int (length (take (nat n) zs)) = n")
    case True
    let ?p = "take (nat n) zs"
    have ne: "?p \<noteq> []" using True assms(3) by auto
    have "follow get k (NextCursor L (tm (last ?p)) (idf (last ?p))) = Some (map js (drop (nat n) zs))"
    proof (rule Suc.IH [of "ys @ ?p"])
      show "listed tm idf rows = (ys @ ?p) @ drop (nat n) zs" using Suc.prems(1) by simp
      have "0 < nat n" "0 < length zs" using assms(3) ne by auto
      then have "length zs - nat n < length zs" by (rule diff_less)
      with Suc.prems(2) show "length (drop (nat n) zs) < k" by simp
    qed (use ne in auto)
    with True show ?thesis by (simp add: follow_answer [of L js tm idf n _ get cursor, OF ans] map_append [symmetric] del: map_append follow.simps)
  next
    case False
    have "length zs \<le> nat n"
    proof (rule ccontr)
      assume "\<not> length zs \<le> nat n"
      with False assms(3) show False by simp
    qed
    then have "take (nat n) zs = zs" by simp
    with False show ?thesis by (simp add: follow_answer [of L js tm idf n _ get cursor, OF ans] del: follow.simps)
  qed
qed simp

lemma follow_all:
  assumes "serves L get js tm idf n rows" "pageable tm idf rows" "0 < n" "length rows < k"
  shows "follow get k [] = Some (map js (listed tm idf rows))"
  using assms listed_perm(2) [of tm idf rows] by (intro follow_rest [OF assms(1-3), of "[]"]) simp_all

section \<open>The listings of the API\<close>

definition with_cursor :: "request \<Rightarrow> string \<Rightarrow> request" where
  "with_cursor c cursor = c\<lparr>rq_Query := (rq_Query c)(''cursor'' := cursor)\<rparr>"

lemma with_cursor_query [simp]:
  "rq_Query (with_cursor c cursor) ''cursor'' = cursor" "k \<noteq> ''cursor'' \<Longrightarrow> rq_Query (with_cursor c cursor) k = rq_Query c k"
  by (simp_all add: with_cursor_def)

lemma with_cursor_params [simp]:
  "k \<noteq> ''cursor'' \<Longrightarrow> query_uuid L (with_cursor c cursor) k = query_uuid L c k"
  "k \<noteq> ''cursor'' \<Longrightarrow> query_text (with_cursor c cursor) k = query_text c k"
  "k \<noteq> ''cursor'' \<Longrightarrow> query_time (with_cursor c cursor) k = query_time c k"
  by (simp_all add: query_uuid_def query_text_def query_time_def)

lemma parse_cursor:
  assumes "uuid_text_ok L" "page_limit (rq_Query c ''limit'') = Inr n"
  shows "ParsePageParams L (with_cursor c []) = Inr \<lparr>pp_Limit = n, pp_CursorTime = None, pp_CursorID = None\<rparr>"
    "four_digit_year t \<Longrightarrow> ParsePageParams L (with_cursor c (NextCursor L t i)) = Inr \<lparr>pp_Limit = n, pp_CursorTime = Some t, pp_CursorID = Some i\<rparr>"
  using assms ParsePageParams_NextCursor [of L t "with_cursor c (NextCursor L t i)" i n] by (simp_all add: ParsePageParams_def)

lemma clamp_page_limit: "page_limit raw = Inr n \<Longrightarrow> clamp_limit n = n \<and> 0 < n"
  using page_limit_range [of raw n] by (simp add: clamp_limit_def Let_def)

lemma map_rows_total: "(\<And>r. f r = Inr (g r)) \<Longrightarrow> map_rows f xs = Inr (map g xs)"
  by (induction xs) simp_all

lemma page_answer_json:
  assumes "\<And>r. cursor r = Inr (tm r, idf r)" "0 < n"
  shows "page_answer L js tm idf n p (c_JSON 200 (JObj [(''items'', JArr (map js p)), (''page'', PageMeta_json (page_meta L n cursor p))]))"
  using assms(2)
  by (auto simp: page_answer_def c_JSON_def body_items_def body_cursor_def json_field_def PageMeta_json_def page_meta_def omit_nil_def
      assms(1) Let_def)

lemma onPool_list:
  assumes "\<not> stmt_fault E 0" "q E (gen_uuid E 0) (sys_db s) = Rows x (sys_db s)"
  shows "onPool (wrapE f as (run_stmt E q)) s = (Inr x, s)"
  using assms by (simp add: onPool_def wrapE_def tryE_def run_stmt_def begin_tx_def returnE_def)

definition job_json :: "golib \<Rightarrow> SettlementJob \<Rightarrow> json" where
  "job_json L j = (case MapSettlementJob L j of Inl e \<Rightarrow> JNull | Inr m \<Rightarrow> SettlementJobResponse_json m)"

definition entry_json :: "golib \<Rightarrow> LedgerEntry \<Rightarrow> json" where
  "entry_json L e = (case MapLedgerEntry L e of Inl x \<Rightarrow> JNull | Inr m \<Rightarrow> LedgerEntryResponse_json m)"

definition event_json :: "golib \<Rightarrow> AuditEvent \<Rightarrow> json" where
  "event_json L v = (case MapAuditEvent L v of Inl e \<Rightarrow> JNull | Inr m \<Rightarrow> AuditEventResponse_json m)"

lemma mapped_rows:
  "map_rows (MapSettlementJob L) js = Inr (map (projr \<circ> MapSettlementJob L) js)"
  "map_rows (MapLedgerEntry L) es = Inr (map (projr \<circ> MapLedgerEntry L) es)"
  "map_rows (MapAuditEvent L) vs = Inr (map (projr \<circ> MapAuditEvent L) vs)"
  using mappers_total(1,3,5) [of L] by (auto intro!: map_rows_total simp: maps_def) (metis sum.sel(2))+

lemma item_json:
  "SettlementJobResponse_json \<circ> (projr \<circ> MapSettlementJob L) = job_json L"
  "LedgerEntryResponse_json \<circ> (projr \<circ> MapLedgerEntry L) = entry_json L"
  "AuditEventResponse_json \<circ> (projr \<circ> MapAuditEvent L) = event_json L"
  using mappers_total(1,3,5) [of L]
  by (auto simp: fun_eq_iff maps_def job_json_def entry_json_def event_json_def) (metis sum.case(2) sum.sel(2))+

lemma ListJobs_serves:
  assumes "uuid_text_ok L" "page_limit (rq_Query c ''limit'') = Inr n" "query_uuid L c ''investment_id'' = Inr iv"
    "\<And>st. query_text c ''status'' = Some st \<Longrightarrow> job_status_valid st" "\<not> stmt_fault E 0"
  shows "serves L (\<lambda>cursor. fst (ListJobs L E (with_cursor c cursor) s)) (job_json L) sj_CreatedAt sj_ID n
    (filter (\<lambda>j. narg (query_text c ''status'') (status_text (sj_Status j)) \<and> narg iv (sj_InvestmentID j)) (settlement_jobs (sys_db s)))"
proof -
  note n = clamp_page_limit [OF assms(2)] and pc = parse_cursor [OF assms(1,2)]
  have q: "SettlementService_ListJobs E \<lparr>lj_Status = query_text c ''status'', lj_InvestmentID = iv, lj_CursorTime = ct,
      lj_CursorID = ci, lj_LimitVal = n\<rparr> s = (Inr (keyset_page sj_CreatedAt sj_ID ct ci n
        (filter (\<lambda>j. narg (query_text c ''status'') (status_text (sj_Status j)) \<and> narg iv (sj_InvestmentID j)) (settlement_jobs (sys_db s)))), s)" for ct ci
    unfolding SettlementService_ListJobs_def SettlementJobRepo_List_def
    by (rule onPool_list) (use assms(4,5) n in \<open>auto simp: ListSettlementJobs_def split: option.split\<close>)
  have cur: "JobCursorFromSettlementJob r = Inr (sj_CreatedAt r, sj_ID r)" for r by (simp add: cursor_defs)
  show ?thesis
    using n assms(3)
    by (auto simp: serves_def ListJobs_def pc q mapped_rows SettlementJobListResponse_json_def item_json
        intro!: page_answer_json [where cursor = JobCursorFromSettlementJob, OF cur])
qed

lemma ListEntries_serves:
  fixes s :: sys
  assumes "uuid_text_ok L" "page_limit (rq_Query c ''limit'') = Inr n" "query_uuid L c ''settlement_job_id'' = Inr i"
    "query_time c ''from'' = Inr f" "query_time c ''to'' = Inr t" "\<not> stmt_fault E 0"
  defines "rows \<equiv> filter (\<lambda>e. narg i (le_SettlementJobID e)
        \<and> (case account_code_of (sys_db s) e of None \<Rightarrow> False | Some a \<Rightarrow> narg (query_text c ''account_code'') a)
        \<and> (case f of None \<Rightarrow> True | Some x \<Rightarrow> timestamptz x \<le> le_PostedAt e)
        \<and> (case t of None \<Rightarrow> True | Some x \<Rightarrow> le_PostedAt e \<le> timestamptz x)) (ledger_entries (sys_db s))"
  shows "serves L (\<lambda>cursor. fst (ListEntries L E (with_cursor c cursor) s)) (entry_json L) le_PostedAt le_ID n rows"
proof -
  note n = clamp_page_limit [OF assms(2)] and pc = parse_cursor [OF assms(1,2)]
  have q: "LedgerService_ListEntries E \<lparr>ll_SettlementJobID = i, ll_AccountCode = query_text c ''account_code'', ll_FromTime = f,
      ll_ToTime = t, ll_CursorTime = ct, ll_CursorID = ci, ll_LimitVal = n\<rparr> s
      = (Inr (keyset_page le_PostedAt le_ID ct ci n rows), s)" for ct ci
    unfolding LedgerService_ListEntries_def LedgerRepo_List_def
    by (rule onPool_list) (use assms(6) n in \<open>simp_all add: ListLedgerEntries_def rows_def cong: option.case_cong\<close>)
  have cur: "LedgerCursorFromEntry r = Inr (le_PostedAt r, le_ID r)" for r by (simp add: cursor_defs)
  show ?thesis
    using n assms(3-5)
    by (auto simp: serves_def ListEntries_def pc q mapped_rows LedgerEntryListResponse_json_def item_json
        intro!: page_answer_json [where cursor = LedgerCursorFromEntry, OF cur])
qed

lemma ListEvents_serves:
  assumes "uuid_text_ok L" "page_limit (rq_Query c ''limit'') = Inr n" "query_uuid L c ''entity_id'' = Inr i" "\<not> stmt_fault E 0"
  shows "serves L (\<lambda>cursor. fst (ListEvents L E (with_cursor c cursor) s)) (event_json L) ae_OccurredAt ae_ID n
    (filter (\<lambda>v. narg (query_text c ''entity_type'') (ae_EntityType v) \<and> narg i (ae_EntityID v)
       \<and> narg (query_text c ''action'') (ae_Action v)) (audit_events (sys_db s)))"
proof -
  note n = clamp_page_limit [OF assms(2)] and pc = parse_cursor [OF assms(1,2)]
  have q: "AuditService_ListEvents E \<lparr>lv_EntityType = query_text c ''entity_type'', lv_EntityID = i, lv_Action = query_text c ''action'',
      lv_CursorTime = ct, lv_CursorID = ci, lv_LimitVal = n\<rparr> s
      = (Inr (keyset_page ae_OccurredAt ae_ID ct ci n (filter (\<lambda>v. narg (query_text c ''entity_type'') (ae_EntityType v) \<and> narg i (ae_EntityID v)
       \<and> narg (query_text c ''action'') (ae_Action v)) (audit_events (sys_db s)))), s)" for ct ci
    unfolding AuditService_ListEvents_def AuditRepo_List_def
    by (rule onPool_list) (use assms(4) n in \<open>simp_all add: ListAuditEvents_def\<close>)
  have cur: "AuditCursorFromEvent r = Inr (ae_OccurredAt r, ae_ID r)" for r by (simp add: cursor_defs)
  show ?thesis
    using n assms(3)
    by (auto simp: serves_def ListEvents_def pc q mapped_rows AuditEventListResponse_json_def item_json
        intro!: page_answer_json [where cursor = AuditCursorFromEvent, OF cur])
qed

section \<open>Properties\<close>

lemma pageable_filter: "pageable tm idf rows \<Longrightarrow> pageable tm idf (filter P rows)"
  by (auto simp: pageable_def distinct_map_filter)

lemma follow_filtered:
  assumes "serves L get js tm idf n (filter P rows)" "pageable tm idf rows" "page_limit raw = Inr n"
  shows "follow get (Suc (length rows)) [] = Some (map js (listed tm idf (filter P rows)))"
  using assms clamp_page_limit [OF assms(3)] length_filter_le [of P rows]
  by (intro follow_all) (auto intro: pageable_filter le_imp_less_Suc)

text \<open>
  C26. Paging through the jobs is complete and exact: a client that asks for the first page with any valid limit and filter and then
  follows \<^verbatim>\<open>next_cursor\<close> until there is none receives every job that passes the filter exactly once, newest first and by
  descending identifier among equal times, and needs at most one request more than there are jobs. The cursor survives the trip through its text;
  what is used of \<^verbatim>\<open>google/uuid\<close> is that a printed identifier is parsed back.
\<close>

theorem ListJobs_pages_complete:
  assumes "uuid_text_ok L" "pageable sj_CreatedAt sj_ID (settlement_jobs (sys_db s))" "\<not> stmt_fault E 0"
    and "page_limit (rq_Query c ''limit'') = Inr n" "query_uuid L c ''investment_id'' = Inr iv"
    and "\<And>st. query_text c ''status'' = Some st \<Longrightarrow> job_status_valid st"
  shows "follow (\<lambda>cursor. fst (ListJobs L E (with_cursor c cursor) s)) (Suc (length (settlement_jobs (sys_db s)))) [] =
    Some (map (job_json L) (sort_key (\<lambda>j. (- sj_CreatedAt j, - uint (sj_ID j)))
      (filter (\<lambda>j. narg (query_text c ''status'') (status_text (sj_Status j)) \<and> narg iv (sj_InvestmentID j)) (settlement_jobs (sys_db s)))))"
  using follow_filtered [OF ListJobs_serves [OF assms(1,4,5,6,3)] assms(2,4)] by (simp add: listed_def page_key_def)

theorem ListJobs_pages_complete_witness:
  "follow (\<lambda>cursor. fst (ListJobs demo_lib (demo_env 0) (with_cursor (demo_request ''GET'' ''/api/v1/settlement-jobs'' (\<lambda>_. [])) cursor)
     (demo_sys1 None))) 2 [] = Some [job_json demo_lib demo_job]"
proof -
  let ?c = "demo_request ''GET'' ''/api/v1/settlement-jobs'' (\<lambda>_. [])"
  have c: "page_limit (rq_Query ?c ''limit'') = Inr defaultLimit" "query_uuid demo_lib ?c ''investment_id'' = Inr None"
      "query_text ?c ''status'' = None"
    by (simp_all add: demo_request_def page_limit_def query_uuid_def query_text_def)
  have s: "settlement_jobs (sys_db (demo_sys1 None)) = [demo_job]" by (simp add: demo_sys1_def)
  have "year_of 719539 = 1970" by (simp add: year_of_def days_to_year_def)
  then have "four_digit_year (1000000 * Second)" by (simp add: four_digit_year_def civil_def Let_def)
  then have p: "pageable sj_CreatedAt sj_ID (settlement_jobs (sys_db (demo_sys1 None)))"
    unfolding s by (simp add: pageable_def timestamptz_def demo_job_def)
  have "\<not> stmt_fault (demo_env 0) 0" by simp
  from ListJobs_pages_complete [OF demo_uuid_text p this c(1,2)] show ?thesis
    by (simp add: s c(3) narg_def numeral_2_eq_2)
qed

text \<open>
  The same holds of the ledger and the audit trail: a client that follows the cursors of the listing of entries, or of events, receives every entry
  (every event) that passes its filters exactly once, in order.
\<close>

theorem history_pages_complete:
  assumes "uuid_text_ok L" "\<not> stmt_fault E 0" "page_limit (rq_Query c ''limit'') = Inr n"
    and "pageable le_PostedAt le_ID (ledger_entries (sys_db s))" "pageable ae_OccurredAt ae_ID (audit_events (sys_db s))"
    and "query_uuid L c ''settlement_job_id'' = Inr i" "query_time c ''from'' = Inr f" "query_time c ''to'' = Inr t"
    and "query_uuid L c ''entity_id'' = Inr e"
  shows "follow (\<lambda>cursor. fst (ListEntries L E (with_cursor c cursor) s)) (Suc (length (ledger_entries (sys_db s)))) [] =
      Some (map (entry_json L) (listed le_PostedAt le_ID (filter (\<lambda>x. narg i (le_SettlementJobID x)
        \<and> (case account_code_of (sys_db s) x of None \<Rightarrow> False | Some a \<Rightarrow> narg (query_text c ''account_code'') a)
        \<and> (case f of None \<Rightarrow> True | Some y \<Rightarrow> timestamptz y \<le> le_PostedAt x)
        \<and> (case t of None \<Rightarrow> True | Some y \<Rightarrow> le_PostedAt x \<le> timestamptz y)) (ledger_entries (sys_db s)))))
    \<and> follow (\<lambda>cursor. fst (ListEvents L E (with_cursor c cursor) s)) (Suc (length (audit_events (sys_db s)))) [] =
      Some (map (event_json L) (listed ae_OccurredAt ae_ID (filter (\<lambda>v. narg (query_text c ''entity_type'') (ae_EntityType v)
        \<and> narg e (ae_EntityID v) \<and> narg (query_text c ''action'') (ae_Action v)) (audit_events (sys_db s)))))"
  using follow_filtered [OF ListEntries_serves [OF assms(1,3,6,7,8,2)] assms(4,3)]
    follow_filtered [OF ListEvents_serves [OF assms(1,3,9,2)] assms(5,3)] by blast

theorem history_pages_complete_witness:
  "follow (\<lambda>cursor. fst (ListEvents demo_lib (demo_env 0) (with_cursor (demo_request ''GET'' ''/api/v1/audit/events'' (\<lambda>_. [])) cursor)
     empty_sys)) 1 [] = Some []"
proof -
  let ?c = "demo_request ''GET'' ''/api/v1/audit/events'' (\<lambda>_. [])"
  have "page_limit (rq_Query ?c ''limit'') = Inr defaultLimit" "query_uuid demo_lib ?c k = Inr None" "query_time ?c k = Inr None" for k
    by (simp_all add: demo_request_def page_limit_def query_uuid_def query_time_def)
  moreover have "pageable le_PostedAt le_ID (ledger_entries (sys_db empty_sys))" "pageable ae_OccurredAt ae_ID (audit_events (sys_db empty_sys))"
    by (simp_all add: pageable_def empty_sys_def empty_db_def)
  ultimately show ?thesis
    using history_pages_complete [OF demo_uuid_text, of "demo_env 0" ?c defaultLimit empty_sys None None None None]
    by (simp add: empty_sys_def empty_db_def listed_def)
qed

end
