(* ===== verification/Worker_Pool.thy ===== *)
theory Worker_Pool
  imports Scenario Strconv
begin

text \<open>
  What leaves the process: the calls a worker makes to the payout gateway, which no rollback takes back, and the pool
  of \<^verbatim>\<open>internal/worker/pool.go\<close>: the identifiers of its workers and the bound on what one drain does.
\<close>

section \<open>Programs that do not call the gateway\<close>

abbreviation payouts :: "tx \<Rightarrow> ExecuteInput list" where
  "payouts st \<equiv> proc_payouts (tx_proc st)"

definition quiet :: "'a txm \<Rightarrow> bool" where
  "quiet m \<longleftrightarrow> (\<forall>st. payouts (snd (m st)) = payouts st)"

named_theorems quiet_intros \<open>programs that do not call the gateway\<close>

lemma quietD: "quiet m \<Longrightarrow> m st = (r, st') \<Longrightarrow> payouts st' = payouts st"
  by (metis quiet_def snd_conv)

lemma quiet_return [quiet_intros]: "quiet (returnE x)"
  by (simp add: quiet_def returnE_def)

lemma quiet_fail [quiet_intros]: "quiet (failE e)"
  by (simp add: quiet_def failE_def)

lemma quiet_lift [quiet_intros]: "quiet (liftE r)"
  by (simp add: quiet_def liftE_def returnE_def failE_def split: sum.split)

lemma quiet_stmt [quiet_intros]: "quiet (run_stmt E q)"
  by (simp add: quiet_def run_stmt_def split: sql_result.split)

lemma quiet_try [quiet_intros]:
  assumes "quiet m" "\<And>r. quiet (k r)"
  shows "quiet (tryE m k)"
  using assms by (simp add: quiet_def tryE_def split: prod.split) (metis snd_conv)

lemma quiet_bind [quiet_intros]: "quiet m \<Longrightarrow> (\<And>x. quiet (k x)) \<Longrightarrow> quiet (bindE m k)"
  unfolding bindE_def by (intro quiet_try) (auto intro: quiet_fail split: sum.split)

lemma quiet_wrap [quiet_intros]: "quiet m \<Longrightarrow> quiet (wrapE f as m)"
  unfolding wrapE_def by (intro quiet_try) (auto intro: quiet_intros split: sum.split)

lemma quiet_noRows [quiet_intros]: "quiet m \<Longrightarrow> quiet (noRowsAs e f m)"
  unfolding noRowsAs_def by (intro quiet_try) (auto intro: quiet_intros split: sum.split)

lemma quiet_map [quiet_intros]: "(\<And>x. quiet (f x)) \<Longrightarrow> quiet (mapE f xs)"
  by (induction xs) (auto intro!: quiet_intros)

lemma quiet_counters [quiet_intros]:
  "quiet (updProc inc_claimed)" "quiet (updProc inc_succeeded)" "quiet (updProc inc_retried)" "quiet (updProc inc_dead)"
  by (simp_all add: quiet_def updProc_def inc_claimed_def inc_succeeded_def inc_retried_def inc_dead_def)

lemma quiet_audit [quiet_intros]:
  "quiet (PublishJobTransition E i a c p)" "quiet (PublishLedgerPosted L E i g c n)"
  unfolding PublishJobTransition_def PublishLedgerPosted_def Publish_def AuditRepo_Record_def
  by (auto intro!: quiet_intros split: option.split)

lemma quiet_post [quiet_intros]: "quiet (PostSettlement L E p)"
  unfolding PostSettlement_def LedgerRepo_GetEntryGroupID_def LedgerRepo_PostEntries_def LedgerRepo_ListByJobID_def post_line_def Let_def
  by (auto intro!: quiet_intros split: sum.split option.split)

lemma quiet_finish [quiet_intros]: "quiet (completeSuccess P E j a i u c r w)" "quiet (handleFailure P E j a u w err cls)"
  unfolding completeSuccess_def finishSuccess_def handleFailure_def deadLetter_def scheduleRetry_def Let_def
    PayoutAttemptRepo_MarkSucceeded_def SettlementJobRepo_MarkSucceeded_def MaturityRepo_MarkSettled_def
    PayoutAttemptRepo_MarkFailed_def SettlementJobRepo_MarkDeadLetter_def SettlementJobRepo_MarkFailedRetryable_def
  by (auto intro!: quiet_intros split: sum.split option.split)

lemma quiet_claim [quiet_intros]: "quiet (SettlementJobRepo_Claim E w)" "quiet (PayoutAttemptRepo_Start E i)"
  unfolding SettlementJobRepo_Claim_def PayoutAttemptRepo_Start_def by (auto intro!: quiet_intros)

section \<open>The calls of one run\<close>

lemma bind_cases:
  assumes "bindE m k st = (r, st')" "quiet m"
  obtains (stop) "payouts st' = payouts st"
  | (go) x st1 where "m st = (Inr x, st1)" "payouts st1 = payouts st" "k x st1 = (r, st')"
proof (cases "m st")
  case (Pair q st1)
  with assms show thesis
    by (cases q) (auto simp: bindE_def tryE_def failE_def dest: quietD intro: stop go)
qed

definition payout_call :: "db \<Rightarrow> SettlementJob \<Rightarrow> Investment \<Rightarrow> ExecuteInput" where
  "payout_call d j v = \<lparr>ei_JobID = sj_ID j, ei_AttemptNumber = next_attempt d (sj_ID j),
     ei_SimulationProfile = inv_SimulationProfile v, ei_NetPayoutCents = sj_NetPayoutCents j\<rparr>"

lemma execute_payout_calls:
  assumes "execute_payout P E w job jobID v investor a st = (r, st')"
  shows "payouts st' = payouts st @ [\<lparr>ei_JobID = jobID, ei_AttemptNumber = pa_AttemptNumber a,
     ei_SimulationProfile = inv_SimulationProfile v, ei_NetPayoutCents = sj_NetPayoutCents job\<rparr>]"
  using assms
  by (auto simp: execute_payout_def call_gateway_def bindE_def tryE_def updProc_def returnE_def split: option.splits
      dest!: quietD [OF quiet_finish(1)] quietD [OF quiet_finish(2)])

text \<open>Everything a run does before it calls the gateway.\<close>

definition claim_part :: "tx_env \<Rightarrow> string \<Rightarrow> (SettlementJob \<times> Investment \<times> PayoutAttempt) txm" where
  "claim_part E w =
     bindE (SettlementJobRepo_Claim E w) (\<lambda>job.
     bindE (updProc inc_claimed) (\<lambda>_.
     bindE (wrapE ''load investment'' [] (run_stmt E (GetInvestmentByID (sj_InvestmentID job)))) (\<lambda>v.
     bindE (wrapE ''start payout attempt'' [] (PayoutAttemptRepo_Start E (sj_ID job))) (\<lambda>a.
     bindE (PublishJobTransition E (sj_ID job) ActionSettlementJobClaimed w [(''attempt_number'', JInt (pa_AttemptNumber a))]) (\<lambda>_.
     returnE (job, v, a))))))"

lemma bindE_assoc: "bindE (bindE m f) g = bindE m (\<lambda>x. bindE (f x) g)"
  by (auto simp: fun_eq_iff bindE_def tryE_def failE_def split: prod.split sum.split)

lemma bindE_returnE: "bindE (returnE x) f = f x" "bindE (liftE (Inr x)) f = f x"
  by (simp_all add: fun_eq_iff bindE_def tryE_def returnE_def liftE_def)

lemma process_body_split:
  "process_body P E w = bindE (claim_part E w) (\<lambda>(job, v, a). execute_payout P E w job (sj_ID job) v (inv_InvestorID v) a)"
  by (simp add: process_body_def claim_part_def bindE_assoc bindE_returnE)

lemma claim_part_quiet: "quiet (claim_part E w)"
  unfolding claim_part_def by (intro quiet_intros)

lemma claim_part_ok:
  assumes "claim_part E w st = (Inr (job, v, a), st')"
  obtains j where "claim_candidate E (tx_db st) = Some j" "job = claimed E w j" "v \<in> set (investments (tx_db st))"
    "inv_ID v = sj_InvestmentID j" "pa_AttemptNumber a = next_attempt (tx_db st) (sj_ID j)"
proof -
  from assms obtain sta stb stc where cl: "SettlementJobRepo_Claim E w st = (Inr job, sta)"
      and iv: "run_stmt E (GetInvestmentByID (sj_InvestmentID job)) (sta\<lparr>tx_proc := inc_claimed (tx_proc sta)\<rparr>) = (Inr v, stb)"
      and at: "PayoutAttemptRepo_Start E (sj_ID job) stb = (Inr a, stc)"
    by (auto simp: claim_part_def bindE_Inr)
  obtain j where j: "claim_candidate E (tx_db st) = Some j" "job = claimed E w j"
      "tx_db sta = replace_job (claimed E w j) (tx_db st)"
    using Claim_ok [OF cl] by metis
  from run_stmt_okD(1) [OF iv] j have b: "tx_db stb = replace_job (claimed E w j) (tx_db st)"
      and v: "v \<in> set (investments (tx_db st))" "inv_ID v = sj_InvestmentID j"
    by (auto simp: GetInvestmentByID_def split: option.splits dest!: find_eq_SomeD)
  obtain u where "a = new_attempt (sj_ID j) (next_attempt (tx_db stb) (sj_ID j)) E u"
    using Start_ok [OF at] j(2) by (metis claimed_simps(1))
  then have "pa_AttemptNumber a = next_attempt (tx_db st) (sj_ID j)" by (simp add: b new_attempt_def next_attempt_def)
  with j v show thesis by (intro that)
qed

lemma process_body_calls:
  assumes "process_body P E w st = (r, st')"
  obtains (none) "payouts st' = payouts st"
  | (one) j v where "claim_candidate E (tx_db st) = Some j" "v \<in> set (investments (tx_db st))" "inv_ID v = sj_InvestmentID j"
      "payouts st' = payouts st @ [payout_call (tx_db st) j v]"
proof (rule bind_cases [OF assms [unfolded process_body_split] claim_part_quiet])
  fix x st1 assume c: "claim_part E w st = (Inr x, st1)" "payouts st1 = payouts st"
    and e: "(case x of (job, v, a) \<Rightarrow> execute_payout P E w job (sj_ID job) v (inv_InvestorID v) a) st1 = (r, st')"
  obtain job v a where x: "x = (job, v, a)" by (cases x)
  obtain j where "claim_candidate E (tx_db st) = Some j" "job = claimed E w j" "v \<in> set (investments (tx_db st))"
      "inv_ID v = sj_InvestmentID j" "pa_AttemptNumber a = next_attempt (tx_db st) (sj_ID j)"
    using claim_part_ok [OF c(1) [unfolded x]] by metis
  with c(2) execute_payout_calls [of P E w job "sj_ID job" v "inv_InvestorID v" a st1] e x show thesis
    by (intro one [of j v]) (simp_all add: payout_call_def)
qed (rule none)

lemma ProcessOne_calls:
  obtains (none) "proc_payouts (sys_proc (snd (ProcessOne P E w s))) = proc_payouts (sys_proc s)"
  | (one) j v where "claim_candidate E (sys_db s) = Some j" "v \<in> set (investments (sys_db s))" "inv_ID v = sj_InvestmentID j"
      "proc_payouts (sys_proc (snd (ProcessOne P E w s))) = proc_payouts (sys_proc s) @ [payout_call (sys_db s) j v]"
proof -
  obtain r st where b: "process_body P E w (begin_tx s) = (r, st)" by fastforce
  have "sys_proc (snd (ProcessOne P E w s)) \<in> {sys_proc s, tx_proc st}"
    unfolding ProcessOne_def WithTx_def b by (simp split: sum.split commit_outcome.split)
  then consider "proc_payouts (sys_proc (snd (ProcessOne P E w s))) = proc_payouts (sys_proc s)"
    | "proc_payouts (sys_proc (snd (ProcessOne P E w s))) = payouts st" by force
  then show thesis
  proof cases
    case 2
    from b show thesis
    proof (cases rule: process_body_calls)
      case none
      with 2 show thesis by (intro that(1)) simp
    next
      case (one j v)
      with 2 show thesis by (intro that(2) [of j v]) simp_all
    qed
  qed (rule none)
qed

section \<open>Drains\<close>

lemma drain_loop_run:
  assumes "P = en_processor G"
  shows "engine_run G s0 s \<Longrightarrow> engine_run G s0 (drain_loop P w Es n s)"
proof (induction n arbitrary: s Es)
  case (Suc n)
  obtain r s' where p: "ProcessOne P (Es 0) w s = (r, s')" by fastforce
  have "engine_run G s0 s'"
    using engine_run.run_step [OF Suc.prems engine_step.work [of G s "Es 0" w]] by (simp add: assms [symmetric] p)
  with Suc.IH p show ?case by (simp split: sum.split)
qed simp

lemma drain_run: "pl_processor p = en_processor G \<Longrightarrow> engine_run G s (drain p w Es s)"
  unfolding drain_def by (rule drain_loop_run) (simp_all add: engine_run.run_refl)

lemma drain_loop_calls: "length (proc_payouts (sys_proc (drain_loop P w Es n s))) \<le> length (proc_payouts (sys_proc s)) + n"
proof (induction n arbitrary: s Es)
  case (Suc n)
  obtain r s' where p: "ProcessOne P (Es 0) w s = (r, s')" by fastforce
  have "length (proc_payouts (sys_proc s')) \<le> Suc (length (proc_payouts (sys_proc s)))"
    by (rule ProcessOne_calls [of P "Es 0" w s]) (simp_all add: p)
  with Suc.IH [of "\<lambda>i. Es (Suc i)" s'] p show ?case by (simp split: sum.split)
qed simp

section \<open>Properties\<close>

text \<open>
  C11. Money leaves only for the job at the head of the queue: a run of the worker, whether it commits, fails or is rolled back, calls the
  payout gateway at most once, and then for the job it claimed, which is not settled, with the net payout of that job and the attempt number that
  follows the recorded attempts. So after a rollback the call for the same job is repeated with the same attempt number.
\<close>

theorem gateway_calls:
  "proc_payouts (sys_proc (snd (ProcessOne P E w s))) = proc_payouts (sys_proc s)
   \<or> (\<exists>j v. claim_candidate E (sys_db s) = Some j \<and> j \<in> set (settlement_jobs (sys_db s))
        \<and> sj_Status j \<in> {SettlementJobStatusPending, SettlementJobStatusFailed}
        \<and> v \<in> set (investments (sys_db s)) \<and> inv_ID v = sj_InvestmentID j
        \<and> proc_payouts (sys_proc (snd (ProcessOne P E w s))) = proc_payouts (sys_proc s) @
            [\<lparr>ei_JobID = sj_ID j, ei_AttemptNumber = next_attempt (sys_db s) (sj_ID j),
              ei_SimulationProfile = inv_SimulationProfile v, ei_NetPayoutCents = sj_NetPayoutCents j\<rparr>])"
proof (rule ProcessOne_calls [of P E w s])
  fix j v assume c: "claim_candidate E (sys_db s) = Some j"
    and v: "v \<in> set (investments (sys_db s))" "inv_ID v = sj_InvestmentID j"
      "proc_payouts (sys_proc (snd (ProcessOne P E w s))) = proc_payouts (sys_proc s) @ [payout_call (sys_db s) j v]"
  note j = claim_candidate_SomeD [OF c]
  then have "sj_Status j \<in> {SettlementJobStatusPending, SettlementJobStatusFailed}" by (auto simp: claimable_def)
  with c v j show ?thesis unfolding payout_call_def by blast
qed (rule disjI1)

text \<open>
  The pool is bounded: a pool has as many workers as configured (four when the configuration is not positive), with distinct
  identifiers, and one drain of a worker makes at most a batch of gateway calls and is a run of the engine.
\<close>

theorem pool_bounded:
  "distinct (worker_ids (NewPool cfg P inst))
   \<and> length (worker_ids (NewPool cfg P inst)) = nat (if WorkerCount cfg \<le> 0 then 4 else WorkerCount cfg)
   \<and> length (proc_payouts (sys_proc (drain (NewPool cfg P inst) w Es s)))
       \<le> length (proc_payouts (sys_proc s)) + nat (if BatchSize cfg \<le> 0 then 1 else BatchSize cfg)
   \<and> engine_run \<lparr>en_processor = P, en_scheduler = sc, en_idem = S\<rparr> s (drain (NewPool cfg P inst) w Es s)"
proof (intro conjI)
  have pool: "pl_processor (NewPool cfg P inst) = P"
      "BatchSize (pl_cfg (NewPool cfg P inst)) = (if BatchSize cfg \<le> 0 then 1 else BatchSize cfg)"
    by (simp_all add: NewPool_def Let_def)
  have "inj_on (\<lambda>i. pl_instance p @ ''-worker-'' @ itoa (int i)) A" for p A
    by (auto simp: inj_on_def dest: itoa_nat_inj)
  then show "distinct (worker_ids (NewPool cfg P inst))" by (simp add: worker_ids_def distinct_map)
  show "length (worker_ids (NewPool cfg P inst)) = nat (if WorkerCount cfg \<le> 0 then 4 else WorkerCount cfg)"
    by (simp add: worker_ids_def NewPool_def Let_def)
  show "length (proc_payouts (sys_proc (drain (NewPool cfg P inst) w Es s)))
       \<le> length (proc_payouts (sys_proc s)) + nat (if BatchSize cfg \<le> 0 then 1 else BatchSize cfg)"
    unfolding drain_def pool(1,2) by (rule drain_loop_calls)
  show "engine_run \<lparr>en_processor = P, en_scheduler = sc, en_idem = S\<rparr> s (drain (NewPool cfg P inst) w Es s)"
    by (rule drain_run) (simp add: NewPool_def Let_def)
qed

end
