(* ===== verification/Platform.thy ===== *)
theory Platform
  imports Tx
begin

text \<open>
  The clients of the services the process depends on: \<^verbatim>\<open>internal/platform/db\<close>, \<^verbatim>\<open>internal/platform/redis\<close>
  and \<^verbatim>\<open>internal/platform/logging\<close>. pgx and go-redis are parameters: what they parse a URL to, and whether creating a pool and
  a ping succeed. The open connections of the process are a state that the constructors change.
\<close>

section \<open>The drivers\<close>

text \<open>
  A parsed configuration: where it points to, which only the driver reads, and the settings of the pool that the code overwrites.
  A ping carries the timeout of its context, if it has one.
\<close>

record PgConfig =
  pg_Target :: string
  pg_MaxConns :: int
  pg_MinConns :: int
  pg_MaxConnLifetime :: duration
  pg_MaxConnIdleTime :: duration
  pg_HealthCheckPeriod :: duration

record pgx =
  pgx_ParseConfig :: "string \<Rightarrow> PgConfig res"
  pgx_NewWithConfig :: "PgConfig \<Rightarrow> go_error option"
  pgx_Ping :: "duration option \<Rightarrow> PgConfig \<Rightarrow> go_error option"

record goredis =
  rd_ParseURL :: "string \<Rightarrow> string res"
  rd_Ping :: "duration \<Rightarrow> string \<Rightarrow> go_error option"

text \<open>The pools and clients that are open; a Redis client is known by its options.\<close>

record handles =
  h_pools :: "PgConfig list"
  h_clients :: "string list"

definition pool_Close :: "PgConfig \<Rightarrow> handles \<Rightarrow> handles" where
  "pool_Close p h = h\<lparr>h_pools := remove1 p (h_pools h)\<rparr>"

definition client_Close :: "string \<Rightarrow> handles \<Rightarrow> handles" where
  "client_Close c h = h\<lparr>h_clients := remove1 c (h_clients h)\<rparr>"

lemma Close_open [simp]:
  "pool_Close p (h\<lparr>h_pools := p # h_pools h\<rparr>) = h" "client_Close c (h\<lparr>h_clients := c # h_clients h\<rparr>) = h"
  "pool_Close p (h\<lparr>h_pools := p # h_pools h, h_clients := cs\<rparr>) = h\<lparr>h_clients := cs\<rparr>"
  by (simp_all add: pool_Close_def client_Close_def)

section \<open>PostgreSQL\<close>

definition pool_settings :: "PgConfig \<Rightarrow> PgConfig" where
  "pool_settings cfg = cfg\<lparr>pg_MaxConns := 20, pg_MinConns := 2, pg_MaxConnLifetime := 3600 * Second,
     pg_MaxConnIdleTime := 30 * 60 * Second, pg_HealthCheckPeriod := 60 * Second\<rparr>"

definition db_NewPool :: "pgx \<Rightarrow> string \<Rightarrow> handles \<Rightarrow> PgConfig res \<times> handles" where
  "db_NewPool X databaseURL h =
     (case pgx_ParseConfig X databaseURL of
        Inl err \<Rightarrow> (Inl (WrapPre ''parse database url'' [] err), h)
      | Inr cfg \<Rightarrow>
          let cfg = pool_settings cfg
          in (case pgx_NewWithConfig X cfg of
                Some err \<Rightarrow> (Inl (WrapPre ''create pool'' [] err), h)
              | None \<Rightarrow>
                  let h' = h\<lparr>h_pools := cfg # h_pools h\<rparr>
                  in (case pgx_Ping X (Some (5 * Second)) cfg of
                        Some err \<Rightarrow> (Inl (WrapPre ''ping database'' [] err), pool_Close cfg h')
                      | None \<Rightarrow> (Inr cfg, h'))))"

section \<open>Redis\<close>

definition redis_New :: "goredis \<Rightarrow> string \<Rightarrow> handles \<Rightarrow> string res \<times> handles" where
  "redis_New X redisURL h =
     (case rd_ParseURL X redisURL of
        Inl err \<Rightarrow> (Inl (WrapPre ''parse redis url'' [] err), h)
      | Inr opts \<Rightarrow>
          let h' = h\<lparr>h_clients := opts # h_clients h\<rparr>
          in (case rd_Ping X (5 * Second) opts of
                Some err \<Rightarrow> (Inl (WrapPre ''ping redis'' [] err), client_Close opts h')
              | None \<Rightarrow> (Inr opts, h')))"

lemma db_NewPool_cases:
  obtains (failed) err where "db_NewPool X url h = (Inl err, h)"
  | (opened) cfg where "db_NewPool X url h = (Inr cfg, h\<lparr>h_pools := cfg # h_pools h\<rparr>)" "pg_MaxConns cfg = 20"
      "pgx_Ping X (Some (5 * Second)) cfg = None"
  by (cases "pgx_ParseConfig X url"; cases "pgx_NewWithConfig X (pool_settings (projr (pgx_ParseConfig X url)))";
      cases "pgx_Ping X (Some (5 * Second)) (pool_settings (projr (pgx_ParseConfig X url)))")
     (auto simp: db_NewPool_def Let_def pool_settings_def)

lemma redis_New_cases:
  obtains (failed) err where "redis_New X url h = (Inl err, h)"
  | (opened) opts where "redis_New X url h = (Inr opts, h\<lparr>h_clients := opts # h_clients h\<rparr>)" "rd_Ping X (5 * Second) opts = None"
  by (cases "rd_ParseURL X url"; cases "rd_Ping X (5 * Second) (projr (rd_ParseURL X url))") (auto simp: redis_New_def Let_def)

text \<open>Whether a connection is made does not depend on what is open already.\<close>

lemma db_NewPool_fst: "fst (db_NewPool X url h) = fst (db_NewPool X url h')"
  by (auto simp: db_NewPool_def Let_def split: sum.split option.split)

lemma redis_New_fst: "fst (redis_New X url h) = fst (redis_New X url h')"
  by (auto simp: redis_New_def Let_def split: sum.split option.split)

section \<open>Logging\<close>

datatype slog_level = LevelDebug | LevelInfo | LevelWarn | LevelError

text \<open>\<^verbatim>\<open>strings.ToLower\<close>, with the Unicode tables as the argument \<open>low\<close>, as for \<open>ToUpper\<close>.\<close>

definition lower_char :: "char \<Rightarrow> char" where
  "lower_char c = (let n = (of_char c :: nat) in if 65 \<le> n \<and> n \<le> 90 then char_of (n + 32) else c)"

definition ToLower :: "(string \<Rightarrow> string) \<Rightarrow> string \<Rightarrow> string" where
  "ToLower low s = (if is_ascii s then map lower_char s else low s)"

definition parseLevel :: "(string \<Rightarrow> string) \<Rightarrow> string \<Rightarrow> slog_level" where
  "parseLevel low level =
     (let l = ToLower low (TrimSpace level)
      in if l = ''debug'' then LevelDebug
         else if l = ''warn'' \<or> l = ''warning'' then LevelWarn
         else if l = ''error'' then LevelError
         else LevelInfo)"

section \<open>A driver\<close>

definition demo_pgx :: pgx where
  "demo_pgx = \<lparr>pgx_ParseConfig = (\<lambda>url. Inr \<lparr>pg_Target = url, pg_MaxConns = 4, pg_MinConns = 0, pg_MaxConnLifetime = 3600 * Second,
     pg_MaxConnIdleTime = 1800 * Second, pg_HealthCheckPeriod = 60 * Second\<rparr>), pgx_NewWithConfig = (\<lambda>_. None), pgx_Ping = (\<lambda>_ _. None)\<rparr>"

lemma demo_pool: "\<exists>pool. fst (db_NewPool demo_pgx url h) = Inr pool \<and> pg_MaxConns pool = 20"
  by (simp add: db_NewPool_def demo_pgx_def pool_settings_def Let_def)

end
