(* ===== verification/Wiring.thy ===== *)
theory Wiring
  imports Paging Worker_Pool Platform
begin

text \<open>
  \<^verbatim>\<open>cmd/arrakin/main.go\<close>: how \<^verbatim>\<open>run\<close> assembles the process from the environment, and the process as a
  whole: the scheduler, the workers of the pool and the HTTP server on one database.
\<close>

record http_Server =
  srv_Addr :: string
  srv_ReadHeaderTimeout :: duration
  srv_ReadTimeout :: duration
  srv_WriteTimeout :: duration
  srv_IdleTimeout :: duration

text \<open>What is running after the start: the engine, the pool of workers, the router with its dependencies, and what they run on.\<close>

record process =
  wr_engine :: engine
  wr_pool :: Pool
  wr_deps :: Dependencies
  wr_db :: PgConfig
  wr_redis :: string
  wr_level :: slog_level
  wr_release :: bool
  wr_server :: http_Server

text \<open>The third-party functions: the identifiers, Unicode, what gin answers for an unknown route, the Swagger pages, and the two drivers.\<close>

record outside =
  ou_lib :: golib
  ou_lower :: "string \<Rightarrow> string"
  ou_noRoute :: response
  ou_swagger :: "request \<Rightarrow> response"
  ou_pgx :: pgx
  ou_redis :: goredis

text \<open>
  \<^verbatim>\<open>run\<close> up to the point where everything is started. The deferred functions run when it returns early, the last one first.
\<close>

definition run :: "outside \<Rightarrow> environ \<Rightarrow> handles \<Rightarrow> process res \<times> handles" where
  "run X env h =
     (case Load env of Inl err \<Rightarrow> (Inl (WrapPre ''load config'' [] err), h) | Inr cfg \<Rightarrow>
     let level = parseLevel (ou_lower X) (cfg_LogLevel cfg);
         release = (\<not> IsDevelopment cfg)
     in (case db_NewPool (ou_pgx X) (cfg_DatabaseURL cfg) h of (Inl err, h) \<Rightarrow> (Inl (WrapPre ''connect postgres'' [] err), h) | (Inr pool, h) \<Rightarrow>
     (case redis_New (ou_redis X) (cfg_RedisURL cfg) h of (Inl err, h) \<Rightarrow> (Inl (WrapPre ''connect redis'' [] err), pool_Close pool h) | (Inr redisClient, h) \<Rightarrow>
     (case calculator_New \<lparr>cc_PlatformFeeBPS = cfg_PlatformFeeBPS cfg, cc_WithholdingTaxBPS = cfg_WithholdingTaxBPS cfg\<rparr> of
        Inl err \<Rightarrow> (Inl (WrapPre ''settlement calculator'' [] err), pool_Close pool (client_Close redisClient h))
      | Inr calc \<Rightarrow>
          let idemSvc = NewIdemService (24 * 3600 * Second);
              retryPolicy = \<lparr>BaseDelay = cfg_RetryBaseDelay cfg, MaxDelay = cfg_RetryMaxDelay cfg\<rparr>;
              orch = orchestrator_New (ou_lib X) calc (cfg_MaxRetries cfg);
              sched = scheduler_New \<lparr>Interval = cfg_SchedulerInterval cfg, ReaperInterval = cfg_ReaperInterval cfg,
                         JobLeaseTimeout = cfg_JobLeaseTimeout cfg\<rparr> orch;
              processor = NewProcessor (ou_lib X) (Simulator_Execute (ou_lib X)) retryPolicy
          in (Inr \<lparr>wr_engine = \<lparr>en_processor = processor, en_scheduler = sched, en_idem = idemSvc\<rparr>,
                  wr_pool = NewPool \<lparr>WorkerCount = cfg_WorkerCount cfg, PollInterval = cfg_WorkerPollInterval cfg,
                              BatchSize = cfg_WorkerBatchSize cfg\<rparr> processor ''arrakin'',
                  wr_deps = \<lparr>dp_Lib = ou_lib X, dp_Config = cfg, dp_Scheduler = sched, dp_Idempotency = idemSvc,
                              dp_NoRoute = ou_noRoute X, dp_Swagger = ou_swagger X\<rparr>,
                  wr_db = pool, wr_redis = redisClient, wr_level = level, wr_release = release,
                  wr_server = \<lparr>srv_Addr = '':'' @ itoa (cfg_HTTPPort cfg), srv_ReadHeaderTimeout = 5 * Second,
                    srv_ReadTimeout = 15 * Second, srv_WriteTimeout = 30 * Second, srv_IdleTimeout = 60 * Second\<rparr>\<rparr>, h)))))"

text \<open>One event of the running process: the scheduler's tick or reaper, the drain of one of the workers, a request, or a registration upstream.\<close>

inductive process_step :: "process \<Rightarrow> sys \<Rightarrow> sys \<Rightarrow> bool" for p :: process where
  upstream: "d' = (sys_db s)\<lparr>investments := investments (sys_db s) @ vs, maturity_schedules := maturity_schedules (sys_db s) @ ms\<rparr>
     \<Longrightarrow> schema_ok d' \<Longrightarrow> process_step p s (s\<lparr>sys_db := d'\<rparr>)"
| scheduler: "process_step p s (runTick (dp_Scheduler (wr_deps p)) E s)"
| reaper: "process_step p s (reapStaleLeases (dp_Scheduler (wr_deps p)) E s)"
| worker: "w \<in> set (worker_ids (wr_pool p)) \<Longrightarrow> process_step p s (drain (wr_pool p) w Es s)"
| request: "process_step p s (snd (ServeHTTP (wr_deps p) V c s))"

inductive_cases process_stepE: "process_step p s s'"

lemma run_parts:
  assumes "run X env h = (Inr p, h')"
  shows "en_scheduler (wr_engine p) = dp_Scheduler (wr_deps p)" "en_idem (wr_engine p) = dp_Idempotency (wr_deps p)"
    "pl_processor (wr_pool p) = en_processor (wr_engine p)" "Load env = Inr (dp_Config (wr_deps p))"
  using assms by (auto simp: run_def NewPool_def Let_def split: sum.splits prod.splits)

lemma engine_run_reachable: "engine_run G s s' \<Longrightarrow> reachable G s \<Longrightarrow> reachable G s'"
  by (induction rule: engine_run.induct) (blast intro: reachable.step)+

lemma process_step_reachable:
  assumes "run X env h = (Inr p, h')" "process_step p s s'" "reachable (wr_engine p) s"
  shows "reachable (wr_engine p) s'"
proof -
  note parts = run_parts [OF assms(1)]
  have serve: "snd (ServeHTTP (wr_deps p) V c s) = s \<or> engine_step (wr_engine p) s (snd (ServeHTTP (wr_deps p) V c s))" for V c
    using handle_step [OF parts(2,1), of _ V _ c s] by (simp add: ServeHTTP_snd dispatch_def split: option.split)
  from assms(2) show ?thesis
  proof (cases rule: process_step.cases)
    case (upstream d' vs ms)
    then show ?thesis using reachable.step [OF assms(3) engine_step.seed] by blast
  next
    case (scheduler E)
    then show ?thesis using reachable.step [OF assms(3) engine_step.tick [of "wr_engine p" s E]] by (simp add: parts)
  next
    case (reaper E)
    then show ?thesis using reachable.step [OF assms(3) engine_step.reap [of "wr_engine p" s E]] by (simp add: parts)
  next
    case (worker w Es)
    then show ?thesis using engine_run_reachable [OF drain_run [OF parts(3)] assms(3)] by simp
  next
    case (request V c)
    with serve [of V c] assms(3) show ?thesis by (auto intro: reachable.step)
  qed
qed

lemma calculator_starts:
  "(\<exists>s. calculator_New cfg = Inr s) \<longleftrightarrow> cc_PlatformFeeBPS cfg \<in> {0..10000} \<and> cc_WithholdingTaxBPS cfg \<in> {0..10000}"
  by (auto simp: calculator_New_def ValidateBasisPoints_def BasisPointsDenominator_def split: sum.split)

section \<open>Properties\<close>

text \<open>The outcomes of the start, with what is open afterwards.\<close>

lemma run_starts:
  assumes "Load env = Inr cfg"
  shows "((\<exists>p. fst (run X env h) = Inr p) \<longleftrightarrow> (\<exists>pool. fst (db_NewPool (ou_pgx X) (cfg_DatabaseURL cfg) h) = Inr pool)
     \<and> (\<exists>client. fst (redis_New (ou_redis X) (cfg_RedisURL cfg) h) = Inr client)
     \<and> cfg_PlatformFeeBPS cfg \<in> {0..10000} \<and> cfg_WithholdingTaxBPS cfg \<in> {0..10000})
   \<and> snd (run X env h) = (case fst (run X env h) of Inl err \<Rightarrow> h
       | Inr p \<Rightarrow> h\<lparr>h_pools := wr_db p # h_pools h, h_clients := wr_redis p # h_clients h\<rparr>)
   \<and> (case fst (run X env h) of Inl err \<Rightarrow> True | Inr p \<Rightarrow> pg_MaxConns (wr_db p) = 20)"
proof (cases rule: db_NewPool_cases [of "ou_pgx X" "cfg_DatabaseURL cfg" h])
  case (failed err)
  with assms show ?thesis by (simp add: run_def Let_def)
next
  case (opened pool)
  note pool = this
  note calc = calculator_starts [of "\<lparr>cc_PlatformFeeBPS = cfg_PlatformFeeBPS cfg, cc_WithholdingTaxBPS = cfg_WithholdingTaxBPS cfg\<rparr>"]
  note same = redis_New_fst [of "ou_redis X" "cfg_RedisURL cfg" h "h\<lparr>h_pools := pool # h_pools h\<rparr>"]
  show ?thesis
  proof (cases rule: redis_New_cases [of "ou_redis X" "cfg_RedisURL cfg" "h\<lparr>h_pools := pool # h_pools h\<rparr>"])
    case (failed err)
    with assms pool same show ?thesis by (simp add: run_def Let_def)
  next
    case (opened client)
    with assms pool same calc show ?thesis
      by (auto simp: run_def Let_def pool_Close_def client_Close_def split: sum.split)
  qed
qed

lemma run_starts_handles:
  "snd (run X env h) = (case fst (run X env h) of Inl err \<Rightarrow> h
     | Inr p \<Rightarrow> h\<lparr>h_pools := wr_db p # h_pools h, h_clients := wr_redis p # h_clients h\<rparr>)"
proof (cases "Load env")
  case (Inr cfg)
  from run_starts [OF this] show ?thesis by blast
qed (simp add: run_def)

text \<open>
  The process starts exactly when both URLs are set, both servers are reached and both rates are between 0 and
  10000 basis points; whatever else is in the environment, malformed values included, cannot stop it. When it does not start nothing
  is left open; when it does, one pool of twenty connections and one Redis client are.
\<close>

theorem run_starts_iff:
  "((\<exists>p. fst (run X env h) = Inr p) \<longleftrightarrow>
     env ''DATABASE_URL'' \<noteq> [] \<and> env ''REDIS_URL'' \<noteq> []
   \<and> (\<exists>pool. fst (db_NewPool (ou_pgx X) (env ''DATABASE_URL'') h) = Inr pool)
   \<and> (\<exists>client. fst (redis_New (ou_redis X) (env ''REDIS_URL'') h) = Inr client)
   \<and> getEnvInt env ''PLATFORM_FEE_BPS'' 100 \<in> {0..10000} \<and> getEnvInt env ''WITHHOLDING_TAX_BPS'' 1500 \<in> {0..10000})
   \<and> snd (run X env h) = (case fst (run X env h) of Inl err \<Rightarrow> h
       | Inr p \<Rightarrow> h\<lparr>h_pools := wr_db p # h_pools h, h_clients := wr_redis p # h_clients h\<rparr>)
   \<and> (case fst (run X env h) of Inl err \<Rightarrow> True | Inr p \<Rightarrow> pg_MaxConns (wr_db p) = 20)"
proof (cases "Load env")
  case (Inl e)
  then show ?thesis by (auto simp: run_def Load_def Let_def split: if_splits)
next
  case (Inr cfg)
  then have "cfg_PlatformFeeBPS cfg = getEnvInt env ''PLATFORM_FEE_BPS'' 100" "cfg_WithholdingTaxBPS cfg = getEnvInt env ''WITHHOLDING_TAX_BPS'' 1500"
      "cfg_DatabaseURL cfg = env ''DATABASE_URL''" "cfg_RedisURL cfg = env ''REDIS_URL''" "env ''DATABASE_URL'' \<noteq> []" "env ''REDIS_URL'' \<noteq> []"
    by (auto simp: Load_def Let_def split: if_splits)
  with run_starts [OF Inr] show ?thesis by simp
qed

text \<open>
  The assembled process is one engine: started on a migrated database, and after any sequence of ticks, reaper runs, drains of its workers,
  HTTP requests and upstream registrations, it is in a reachable state of the engine it assembled, so its jobs, ledger and maturities
  agree: a job is succeeded exactly when its entries are in the ledger.
\<close>

theorem process_reachable:
  assumes "run X env h = (Inr p, h')" "fresh_db (sys_db s)" "(process_step p)\<^sup>*\<^sup>* s s'"
  shows "reachable (wr_engine p) s'
    \<and> (\<forall>j \<in> set (settlement_jobs (sys_db s')). sj_Status j = SettlementJobStatusSucceeded \<longleftrightarrow> entries_of (sys_db s') (sj_ID j) \<noteq> [])"
proof -
  have "reachable (wr_engine p) s'"
    using assms(3) by (induction rule: rtranclp_induct) (blast intro: reachable.init assms(2) process_step_reachable [OF assms(1)])+
  then show ?thesis using inv_entries_iff [OF reachable_inv] by blast
qed

definition demo_outside :: outside where
  "demo_outside = \<lparr>ou_lib = demo_lib, ou_lower = (\<lambda>s. s), ou_noRoute = c_JSON 404 JNull, ou_swagger = (\<lambda>c. c_JSON 200 JNull),
     ou_pgx = demo_pgx,
     ou_redis = \<lparr>rd_ParseURL = Inr, rd_Ping = (\<lambda>_ _. None)\<rparr>\<rparr>"

definition no_handles :: handles where
  "no_handles = \<lparr>h_pools = [], h_clients = []\<rparr>"

lemma demo_run_starts: "\<exists>p h. run demo_outside demo_environ no_handles = (Inr p, h)"
  by (simp add: run_def demo_outside_def Load_def demo_environ_def getEnvInt_def calculator_New_def ValidateBasisPoints_def
      BasisPointsDenominator_def Let_def db_NewPool_def redis_New_def demo_pgx_def)

theorem process_reachable_witness:
  "\<exists>p h. run demo_outside demo_environ no_handles = (Inr p, h)
     \<and> reachable (wr_engine p) (runTick (dp_Scheduler (wr_deps p)) (demo_env 0) (demo_sys None))"
proof -
  obtain p h where p: "run demo_outside demo_environ no_handles = (Inr p, h)" using demo_run_starts by blast
  have "fresh_db (sys_db (demo_sys None))" by (simp add: demo_sys_def demo_fresh)
  moreover have "(process_step p)\<^sup>*\<^sup>* (demo_sys None) (runTick (dp_Scheduler (wr_deps p)) (demo_env 0) (demo_sys None))"
    by (rule r_into_rtranclp) (rule process_step.scheduler)
  ultimately show ?thesis using process_reachable [OF p] p by blast
qed

text \<open>
  The batch size of the scheduler has no effect: changing \<^verbatim>\<open>SCHEDULER_BATCH_SIZE\<close> in the environment
  changes neither the engine nor the pool the process assembles; a scan always takes every due maturity.
\<close>

theorem scheduler_batch_size_unused:
  "map_sum (\<lambda>e. e) (\<lambda>p. (wr_engine p, wr_pool p)) (fst (run X (env(''SCHEDULER_BATCH_SIZE'' := v)) h))
   = map_sum (\<lambda>e. e) (\<lambda>p. (wr_engine p, wr_pool p)) (fst (run X env h))"
proof -
  let ?e = "env(''SCHEDULER_BATCH_SIZE'' := v)"
  have g: "getEnvInt ?e k n = getEnvInt env k n" "getEnvDuration ?e k n = getEnvDuration env k n" if "k \<noteq> ''SCHEDULER_BATCH_SIZE''" for k n
    using that by (simp_all add: getEnvInt_def getEnvDuration_def)
  have "Load ?e = map_sum (\<lambda>e. e) (\<lambda>c. c\<lparr>cfg_SchedulerBatchSize := getEnvInt ?e ''SCHEDULER_BATCH_SIZE'' 50\<rparr>) (Load env)"
    by (simp add: Load_def Let_def getEnv_def g)
  then show ?thesis
    by (cases "Load env") (simp_all add: run_def Let_def split: prod.split sum.split)
qed

end
