(* ===== verification/Process_Life.thy ===== *)
theory Process_Life
  imports Wiring
begin

text \<open>
  The life of the process after \<^verbatim>\<open>cmd/arrakin/main.go\<close> has assembled it: the goroutines of the scheduler
  (\<^verbatim>\<open>Scheduler.Run\<close>), of the pool and its workers (\<^verbatim>\<open>Pool.Run\<close>, \<^verbatim>\<open>Pool.loop\<close>), of the HTTP server, and
  \<^verbatim>\<open>run\<close> waiting for a signal and shutting down. A step is one event of one of them, so that the runs of different workers, the
  ticks and the requests interleave in any order; a \<^verbatim>\<open>select\<close> with several ready cases takes any of them.

  A run of a worker, a scan, a run of the reaper and a request have a beginning and an end, and the context of the engine may be
  cancelled in between. What they do, the call of the payout gateway included, is recorded at their end. \<^verbatim>\<open>Gateway.Execute\<close> takes
  no context, so that a run that has begun may call the gateway after the cancellation; its statements and its commit may fail from then on.
\<close>

section \<open>The state\<close>

datatype server_state = Serving | ServeFailed go_error | Closed

text \<open>\<open>Closing\<close>: \<^verbatim>\<open>run\<close> is returning and waits in the deferred \<^verbatim>\<open>pool.Close()\<close>.\<close>

datatype main_state = Selecting | Stopping | Closing "go_error option" | Returned "go_error option"

text \<open>
  A worker is absent when its loop has returned. Otherwise it is between two runs, with a number of runs left in its current drain,
  none while it waits for its ticker, or in a run whose transaction has begun.
\<close>

datatype worker_state = Between nat | Running nat

text \<open>
  \<open>lf_cancelled\<close> says that \<^verbatim>\<open>engineCtx\<close> is done, \<open>lf_schedTx\<close> that the scheduler is in a scan or a run of the reaper whose transaction
  has begun, \<open>lf_requests\<close> is the number of requests that are being served.
\<close>

record life =
  lf_sys :: sys
  lf_handles :: handles
  lf_sched :: bool
  lf_schedTx :: bool
  lf_workers :: "string \<rightharpoonup> worker_state"
  lf_poolRun :: bool
  lf_cancelled :: bool
  lf_server :: server_state
  lf_requests :: nat
  lf_main :: main_state

definition live :: "life \<Rightarrow> bool" where
  "live l \<longleftrightarrow> (case lf_main l of Returned r \<Rightarrow> False | _ \<Rightarrow> True)"

text \<open>The workers that are in a run.\<close>

definition running :: "life \<Rightarrow> string set" where
  "running l = {w. \<exists>n. lf_workers l w = Some (Running n)}"

text \<open>\<^verbatim>\<open>time.NewTicker\<close> panics on an interval that is not positive; a panic in a goroutine ends the process.\<close>

definition NewTicker :: "duration \<Rightarrow> duration res" where
  "NewTicker d = (if d \<le> 0 then Inl GoPanic else Inr d)"

definition Scheduler_tickers :: "Scheduler \<Rightarrow> (duration \<times> duration) res" where
  "Scheduler_tickers S =
     (case run_intervals (sc_cfg S) of (interval, reaperInterval) \<Rightarrow>
        (case NewTicker interval of Inl err \<Rightarrow> Inl err | Inr tick \<Rightarrow>
        (case NewTicker reaperInterval of Inl err \<Rightarrow> Inl err | Inr reaper \<Rightarrow> Inr (tick, reaper))))"

definition launch :: "process \<Rightarrow> sys \<Rightarrow> handles \<Rightarrow> life res" where
  "launch p s h =
     (case Scheduler_tickers (dp_Scheduler (wr_deps p)) of Inl err \<Rightarrow> Inl err | Inr _ \<Rightarrow>
     (case NewTicker (PollInterval (pl_cfg (wr_pool p))) of Inl err \<Rightarrow> Inl err | Inr _ \<Rightarrow>
        Inr \<lparr>lf_sys = s, lf_handles = h, lf_sched = True, lf_schedTx = False,
             lf_workers = map_of (map (\<lambda>w. (w, Between 0)) (worker_ids (wr_pool p))),
             lf_poolRun = True, lf_cancelled = False, lf_server = Serving, lf_requests = 0, lf_main = Selecting\<rparr>))"

text \<open>
  The deferred functions of \<^verbatim>\<open>run\<close>: \<^verbatim>\<open>engineCancel\<close>, then the Redis client, then the pool, whose \<^verbatim>\<open>Close\<close> blocks until
  every connection has been returned.
\<close>

definition return_from_run :: "process \<Rightarrow> go_error option \<Rightarrow> life \<Rightarrow> life" where
  "return_from_run p r l = l\<lparr>lf_main := Closing r, lf_cancelled := True, lf_handles := client_Close (wr_redis p) (lf_handles l)\<rparr>"

definition idle :: "life \<Rightarrow> bool" where
  "idle l \<longleftrightarrow> running l = {} \<and> \<not> lf_schedTx l \<and> lf_requests l = 0"

text \<open>
  The environment of a transaction of the engine. With a context that is done, \<^verbatim>\<open>pgxpool.Pool.Begin\<close> returns its error instead of a
  transaction, and a commit does not report success; statements may fail at any time.
\<close>

definition began_env :: "bool \<Rightarrow> tx_env \<Rightarrow> bool" where
  "began_env cancelled E \<longleftrightarrow> \<not> begin_fault E \<and> (cancelled \<longrightarrow> commit_outcome E \<noteq> CommitOk)"

section \<open>The steps\<close>

text \<open>
  What happens to the process: the tickers of \<^verbatim>\<open>Scheduler.Run\<close> and \<^verbatim>\<open>Pool.loop\<close> fire, requests arrive (also on connections
  that were accepted before \<^verbatim>\<open>Shutdown\<close>), the listener fails, and a signal comes. A ticker that fires in the scheduler begins a transaction, or is refused one.
\<close>

inductive outside_step :: "process \<Rightarrow> life \<Rightarrow> life \<Rightarrow> bool" for p :: process where
  poll: "lf_workers l w = Some (Between 0)
     \<Longrightarrow> outside_step p l (l\<lparr>lf_workers := (lf_workers l)(w \<mapsto> Between (nat (BatchSize (pl_cfg (wr_pool p)))))\<rparr>)"
| sched_begin: "lf_sched l \<Longrightarrow> \<not> lf_schedTx l \<Longrightarrow> \<not> lf_cancelled l \<Longrightarrow> outside_step p l (l\<lparr>lf_schedTx := True\<rparr>)"
| tick_refused: "lf_sched l \<Longrightarrow> \<not> lf_schedTx l \<Longrightarrow> begin_fault E
     \<Longrightarrow> outside_step p l (l\<lparr>lf_sys := runTick (dp_Scheduler (wr_deps p)) E (lf_sys l)\<rparr>)"
| reap_refused: "lf_sched l \<Longrightarrow> \<not> lf_schedTx l \<Longrightarrow> begin_fault E
     \<Longrightarrow> outside_step p l (l\<lparr>lf_sys := reapStaleLeases (dp_Scheduler (wr_deps p)) E (lf_sys l)\<rparr>)"
| accept: "lf_server l \<noteq> Closed \<Longrightarrow> lf_main l \<in> {Selecting, Stopping} \<Longrightarrow> outside_step p l (l\<lparr>lf_requests := Suc (lf_requests l)\<rparr>)"
| serve_fails: "lf_server l = Serving \<Longrightarrow> outside_step p l (l\<lparr>lf_server := ServeFailed err\<rparr>)"
| signal: "lf_main l = Selecting \<Longrightarrow> outside_step p l (l\<lparr>lf_cancelled := True, lf_main := Stopping\<rparr>)"

text \<open>\<^verbatim>\<open>Scheduler.Run\<close>: the end of a scan or of a run of the reaper, and the end of the loop when the context is done.\<close>

inductive scheduler_step :: "process \<Rightarrow> life \<Rightarrow> life \<Rightarrow> bool" for p :: process where
  tick: "lf_schedTx l \<Longrightarrow> began_env (lf_cancelled l) E
     \<Longrightarrow> scheduler_step p l (l\<lparr>lf_schedTx := False, lf_sys := runTick (dp_Scheduler (wr_deps p)) E (lf_sys l)\<rparr>)"
| reap: "lf_schedTx l \<Longrightarrow> began_env (lf_cancelled l) E
     \<Longrightarrow> scheduler_step p l (l\<lparr>lf_schedTx := False, lf_sys := reapStaleLeases (dp_Scheduler (wr_deps p)) E (lf_sys l)\<rparr>)"
| sched_done: "lf_sched l \<Longrightarrow> \<not> lf_schedTx l \<Longrightarrow> lf_cancelled l \<Longrightarrow> scheduler_step p l (l\<lparr>lf_sched := False\<rparr>)"

text \<open>
  \<^verbatim>\<open>Pool.loop\<close> of one worker: a drain goes on with one run after the other until a run fails; a run begins its transaction, or is
  refused one, and ends; the loop returns when the context is done; \<^verbatim>\<open>Pool.Run\<close> returns after the last worker.
\<close>

inductive pool_step :: "process \<Rightarrow> life \<Rightarrow> life \<Rightarrow> bool" for p :: process where
  run_begins: "lf_workers l w = Some (Between (Suc n)) \<Longrightarrow> \<not> lf_cancelled l
     \<Longrightarrow> pool_step p l (l\<lparr>lf_workers := (lf_workers l)(w \<mapsto> Running n)\<rparr>)"
| run_refused: "lf_workers l w = Some (Between (Suc n)) \<Longrightarrow> begin_fault E \<Longrightarrow> ProcessOne (pl_processor (wr_pool p)) E w (lf_sys l) = (Inl err, s')
     \<Longrightarrow> pool_step p l (l\<lparr>lf_sys := s', lf_workers := (lf_workers l)(w \<mapsto> Between 0)\<rparr>)"
| run_ends: "lf_workers l w = Some (Running n) \<Longrightarrow> began_env (lf_cancelled l) E \<Longrightarrow> ProcessOne (pl_processor (wr_pool p)) E w (lf_sys l) = (r, s')
     \<Longrightarrow> pool_step p l (l\<lparr>lf_sys := s', lf_workers := (lf_workers l)(w \<mapsto> Between (case r of Inl err \<Rightarrow> 0 | Inr _ \<Rightarrow> n))\<rparr>)"
| worker_done: "lf_workers l w = Some (Between 0) \<Longrightarrow> lf_cancelled l \<Longrightarrow> pool_step p l (l\<lparr>lf_workers := (lf_workers l)(w := None)\<rparr>)"
| pool_done: "lf_poolRun l \<Longrightarrow> lf_cancelled l \<Longrightarrow> lf_workers l = Map.empty \<Longrightarrow> pool_step p l (l\<lparr>lf_poolRun := False\<rparr>)"

text \<open>A request is answered. The requests have contexts of their own.\<close>

inductive server_step :: "process \<Rightarrow> life \<Rightarrow> life \<Rightarrow> bool" for p :: process where
  request: "lf_requests l = Suc n \<Longrightarrow> server_step p l (l\<lparr>lf_requests := n, lf_sys := snd (ServeHTTP (wr_deps p) V c (lf_sys l))\<rparr>)"

text \<open>
  The end of \<^verbatim>\<open>run\<close>: a failed server, or the shutdown after the signal, which succeeds when no request is left and fails at its
  deadline; then \<^verbatim>\<open>pool.Close()\<close> returns when no connection is in use.
\<close>

inductive main_step :: "process \<Rightarrow> life \<Rightarrow> life \<Rightarrow> bool" for p :: process where
  main_fails: "lf_main l = Selecting \<Longrightarrow> lf_server l = ServeFailed err
     \<Longrightarrow> main_step p l (return_from_run p (Some (WrapPre ''http server'' [] err)) l)"
| stopped: "lf_main l = Stopping \<Longrightarrow> lf_requests l = 0 \<Longrightarrow> main_step p l (return_from_run p None (l\<lparr>lf_server := Closed\<rparr>))"
| stop_fails: "lf_main l = Stopping \<Longrightarrow> main_step p l (return_from_run p (Some (WrapPre ''graceful shutdown'' [] err)) l)"
| pool_closed: "lf_main l = Closing r \<Longrightarrow> idle l \<Longrightarrow> main_step p l (l\<lparr>lf_main := Returned r, lf_handles := pool_Close (wr_db p) (lf_handles l)\<rparr>)"

text \<open>The steps the process takes of its own, and all together, with the registrations upstream; the goroutines end with the process.\<close>

inductive own_step :: "process \<Rightarrow> life \<Rightarrow> life \<Rightarrow> bool" for p :: process where
  scheduler: "live l \<Longrightarrow> scheduler_step p l l' \<Longrightarrow> own_step p l l'"
| pool: "live l \<Longrightarrow> pool_step p l l' \<Longrightarrow> own_step p l l'"
| server: "live l \<Longrightarrow> server_step p l l' \<Longrightarrow> own_step p l l'"
| main: "main_step p l l' \<Longrightarrow> own_step p l l'"

inductive life_step :: "process \<Rightarrow> life \<Rightarrow> life \<Rightarrow> bool" for p :: process where
  upstream: "d' = (sys_db (lf_sys l))\<lparr>investments := investments (sys_db (lf_sys l)) @ vs,
       maturity_schedules := maturity_schedules (sys_db (lf_sys l)) @ ms\<rparr> \<Longrightarrow> schema_ok d'
     \<Longrightarrow> life_step p l (l\<lparr>lf_sys := (lf_sys l)\<lparr>sys_db := d'\<rparr>\<rparr>)"
| outside: "live l \<Longrightarrow> outside_step p l l' \<Longrightarrow> life_step p l l'"
| own: "own_step p l l' \<Longrightarrow> life_step p l l'"

lemmas own_elims = own_step.cases scheduler_step.cases pool_step.cases server_step.cases main_step.cases
lemmas life_elims = life_step.cases outside_step.cases own_elims

text \<open>\<^verbatim>\<open>main\<close>: the exit status of the process.\<close>

definition exit_code :: "main_state \<Rightarrow> int option" where
  "exit_code m = (case m of Returned None \<Rightarrow> Some 0 | Returned (Some err) \<Rightarrow> Some 1 | _ \<Rightarrow> None)"

lemma exited: "exit_code (lf_main l) \<noteq> None \<longleftrightarrow> \<not> live l"
  by (simp add: exit_code_def live_def split: main_state.split option.split)

section \<open>The start\<close>

lemma NewPool_positive: "0 < PollInterval (pl_cfg (NewPool cfg P i))" "0 < BatchSize (pl_cfg (NewPool cfg P i))"
  by (simp_all add: NewPool_def Let_def)

lemma run_pool: "run X env h = (Inr p, h') \<Longrightarrow> \<exists>cfg P. wr_pool p = NewPool cfg P ''arrakin''"
  by (auto simp: run_def Let_def split: sum.splits prod.splits) blast

text \<open>No interval of the environment makes a ticker panic.\<close>

lemma launch_starts:
  assumes "run X env h = (Inr p, h')"
  obtains l where "launch p s h' = Inr l"
proof -
  obtain cfg P where "wr_pool p = NewPool cfg P ''arrakin''" using run_pool [OF assms] by blast
  then have "0 < PollInterval (pl_cfg (wr_pool p))" by (simp add: NewPool_positive)
  then show thesis using that
    by (simp add: launch_def Scheduler_tickers_def run_intervals_def NewTicker_def)
qed

section \<open>Every state is a state of the engine\<close>

lemma life_step_reachable:
  assumes "run X env h = (Inr p, h')" "life_step p l l'" "reachable (wr_engine p) (lf_sys l)"
  shows "reachable (wr_engine p) (lf_sys l')"
proof -
  note step = process_step_reachable [OF assms(1) _ assms(3)]
  note steps = step [OF process_step.scheduler] step [OF process_step.reaper] step [OF process_step.request]
  have works: "reachable (wr_engine p) s'" if "ProcessOne (pl_processor (wr_pool p)) E w (lf_sys l) = (r, s')" for E w r s'
    using reachable.step [OF assms(3) engine_step.work, of E w] run_parts(3) [OF assms(1)] that by simp
  from assms(2) show ?thesis
  proof (cases rule: life_step.cases)
    case (upstream d' vs ms)
    then show ?thesis using step [OF process_step.upstream, of d' vs ms] by simp
  next
    case outside
    from this(2) show ?thesis by (cases rule: outside_step.cases) (simp_all add: assms(3) steps)
  next
    case own
    then show ?thesis
    proof (cases rule: own_step.cases)
      case scheduler
      from this(2) show ?thesis by (cases rule: scheduler_step.cases) (simp_all add: assms(3) steps)
    next
      case pool
      from this(2) show ?thesis by (cases rule: pool_step.cases) (auto simp: assms(3) works)
    next
      case server
      from this(2) show ?thesis by (cases rule: server_step.cases) (simp add: steps)
    next
      case main
      then show ?thesis by (cases rule: main_step.cases) (simp_all add: assms(3) return_from_run_def)
    qed
  qed
qed

section \<open>One worker on its own\<close>

text \<open>The two steps of a run, or the one of a run that is refused its transaction, are one call of \<^verbatim>\<open>ProcessOne\<close>.\<close>

lemma ProcessOne_refused: "begin_fault E \<Longrightarrow> ProcessOne P E w s = (Inl (WrapPre ''begin tx'' [] ConnErr), s)"
  by (simp add: ProcessOne_def WithTx_def)

lemma run_steps:
  assumes "live l" "\<not> lf_cancelled l" "lf_workers l w = Some (Between (Suc n))"
    and "ProcessOne (pl_processor (wr_pool p)) E w (lf_sys l) = (r, s')"
  shows "(life_step p)\<^sup>*\<^sup>* l (l\<lparr>lf_sys := s', lf_workers := (lf_workers l)(w \<mapsto> Between (case r of Inl err \<Rightarrow> 0 | Inr _ \<Rightarrow> n))\<rparr>)"
proof (cases "begin_fault E")
  case True
  with assms(4) have r: "r = Inl (WrapPre ''begin tx'' [] ConnErr)" by (simp add: ProcessOne_refused)
  have "life_step p l (l\<lparr>lf_sys := s', lf_workers := (lf_workers l)(w \<mapsto> Between 0)\<rparr>)"
    using assms True r by (intro life_step.own own_step.pool pool_step.run_refused) auto
  with r show ?thesis by (simp del: fun_upd_apply)
next
  case False
  let ?l1 = "l\<lparr>lf_workers := (lf_workers l)(w \<mapsto> Running n)\<rparr>"
  have "life_step p l ?l1" using assms by (intro life_step.own own_step.pool pool_step.run_begins) auto
  moreover have "life_step p ?l1 (?l1\<lparr>lf_sys := s', lf_workers := (lf_workers ?l1)(w \<mapsto> Between (case r of Inl err \<Rightarrow> 0 | Inr _ \<Rightarrow> n))\<rparr>)"
    using assms False by (intro life_step.own own_step.pool pool_step.run_ends) (auto simp: live_def began_env_def)
  ultimately show ?thesis by (simp add: rtranclp.rtrancl_into_rtrancl [OF r_into_rtranclp])
qed

text \<open>The steps of one worker from tick to tick are the drain of \<^verbatim>\<open>pool.go\<close>.\<close>

lemma work_steps:
  assumes "live l" "\<not> lf_cancelled l" "lf_workers l w = Some (Between n)"
  shows "(life_step p)\<^sup>*\<^sup>* l (l\<lparr>lf_sys := drain_loop (pl_processor (wr_pool p)) w Es n (lf_sys l),
    lf_workers := (lf_workers l)(w \<mapsto> Between 0)\<rparr>)"
  using assms
proof (induction n arbitrary: l Es)
  case 0
  then have "l\<lparr>lf_sys := drain_loop (pl_processor (wr_pool p)) w Es 0 (lf_sys l), lf_workers := (lf_workers l)(w \<mapsto> Between 0)\<rparr> = l"
    by (simp add: fun_upd_idem)
  then show ?case by (metis rtranclp.rtrancl_refl)
next
  case (Suc n)
  obtain r s' where run: "ProcessOne (pl_processor (wr_pool p)) (Es 0) w (lf_sys l) = (r, s')" by fastforce
  note steps = run_steps [OF Suc.prems run]
  show ?case
  proof (cases r)
    case (Inl err)
    with steps run show ?thesis by (simp del: fun_upd_apply)
  next
    case (Inr x)
    let ?l1 = "l\<lparr>lf_sys := s', lf_workers := (lf_workers l)(w \<mapsto> Between n)\<rparr>"
    have "(life_step p)\<^sup>*\<^sup>* ?l1 (?l1\<lparr>lf_sys := drain_loop (pl_processor (wr_pool p)) w (\<lambda>i. Es (Suc i)) n (lf_sys ?l1),
        lf_workers := (lf_workers ?l1)(w \<mapsto> Between 0)\<rparr>)"
      by (rule Suc.IH) (use Suc.prems in \<open>simp_all add: live_def\<close>)
    with rtranclp_trans [of "life_step p" l ?l1] steps run Inr show ?thesis by (simp del: fun_upd_apply)
  qed
qed

section \<open>Only the workers call the gateway\<close>

definition silent :: "(sys \<Rightarrow> 'a \<times> sys) \<Rightarrow> bool" where
  "silent m \<longleftrightarrow> (\<forall>s. proc_payouts (sys_proc (snd (m s))) = proc_payouts (sys_proc s))"

lemma silent_WithTx: "quiet m \<Longrightarrow> silent (WithTx E m)"
  unfolding silent_def WithTx_def
  by (auto split: prod.split sum.split commit_outcome.split dest: quietD)

lemma quiet_scan [quiet_intros]: "quiet (enqueue_body S E)"
proof -
  have "quiet (enqueue_one S E row)" for row
    unfolding enqueue_one_def SettlementJobRepo_CreateIdempotent_def by (auto intro!: quiet_intros split: prod.split sum.split)
  then have "quiet (enqueue_loop S E rows c)" for rows c by (induction rows arbitrary: c) (auto intro!: quiet_intros)
  then show ?thesis unfolding enqueue_body_def MaturityRepo_ListDue_def by (intro quiet_intros)
qed

lemma quiet_reap [quiet_intros]: "quiet (reap_body L E t)"
proof -
  have "quiet (updProc (\<lambda>p. p\<lparr>proc_metrics := (proc_metrics p)\<lparr>LeasesExpired := LeasesExpired (proc_metrics p) + n\<rparr>\<rparr>))" for n
    by (simp add: quiet_def updProc_def)
  then show ?thesis
    unfolding reap_body_def reap_one_def SettlementJobRepo_ExpireStaleLeases_def by (auto intro!: quiet_intros)
qed

lemma quiet_admin [quiet_intros]: "quiet (replay_body E i a c)" "quiet (requeue_body E i a c)"
  unfolding replay_body_def requeue_body_def SettlementJobRepo_GetByID_def SettlementJobRepo_ReplayDeadLetter_def
    SettlementJobRepo_RequeueFailed_def Publish_def AuditRepo_Record_def
  by (auto intro!: quiet_intros split: option.split)

lemma quiet_snapshot [quiet_intros]: "quiet (snapshot_body E)"
  unfolding snapshot_body_def recon_RunSnapshot_def FlagsForSnapshot_def ReconciliationRepo_CreateSnapshot_def
    ReconciliationRepo_FlagCounts_def Let_def
  by (auto intro!: quiet_intros)

lemma quiet_keys [quiet_intros]: "quiet (lookupState E scope key)" "quiet (Reserve S E scope key h)" "quiet (Complete E scope key r)"
proof -
  show 1: "quiet (lookupState E scope key)"
    unfolding lookupState_def IdempotencyRepo_GetActive_def by (auto intro!: quiet_intros split: sum.split option.split)
  show "quiet (Reserve S E scope key h)"
    unfolding Reserve_def IdempotencyRepo_Reserve_def by (auto intro!: quiet_intros 1 split: sum.split prod.split)
  show "quiet (Complete E scope key r)"
    unfolding Complete_def IdempotencyRepo_Complete_def by (auto intro!: quiet_intros)
qed

lemma silent_runIdempotent:
  assumes "silent fn"
  shows "silent (runIdempotent S E key scope fn)"
proof -
  have fn: "proc_payouts (sys_proc s') = proc_payouts (sys_proc s)" if "fn s = (r, s')" for s r s'
    using assms that by (metis silent_def snd_conv)
  have "payouts st' = payouts st \<and> proc_payouts (sys_proc s') = proc_payouts (sys_proc s)"
    if "Execute S E scope key h fn (st, s) = (r, st', s')" "payouts st = proc_payouts (sys_proc s)" for h st s r st' s'
    using that
    by (auto simp: Execute_def refresh_def split: prod.splits sum.splits key_state.splits if_splits
        dest!: quietD [OF quiet_keys(1)] quietD [OF quiet_keys(2)] quietD [OF quiet_keys(3)] dest: fn)
  then show ?thesis unfolding silent_def runIdempotent_def
    by (auto split: prod.splits sum.splits commit_outcome.splits dest: fn)
qed

lemma silent_respond: "silent svc \<Longrightarrow> silent (respond f svc)"
  unfolding silent_def respond_def by (auto split: prod.split sum.split) (metis snd_conv)+

lemma silent_services:
  "silent (SettlementService_ReplayDeadLetter E i a c)" "silent (SettlementService_RequeueFailed E i a c)"
  "silent (ReconciliationService_RunSnapshot E)" "silent (TriggerSchedulerScan sc E)"
proof -
  show "silent (SettlementService_ReplayDeadLetter E i a c)" "silent (SettlementService_RequeueFailed E i a c)"
      "silent (ReconciliationService_RunSnapshot E)"
    using silent_WithTx [OF quiet_admin(1)] silent_WithTx [OF quiet_admin(2)] silent_WithTx [OF quiet_snapshot]
    by (simp_all add: silent_def SettlementService_ReplayDeadLetter_def SettlementService_RequeueFailed_def ReconciliationService_RunSnapshot_def)
  show "silent (TriggerSchedulerScan sc E)"
    using silent_WithTx [OF quiet_scan, of E "sc_orchestrator sc" E] unfolding silent_def TriggerSchedulerScan_def TickOnce_def EnqueueDueMaturities_def
    by (auto split: prod.split sum.split) (metis snd_conv)+
qed

lemma silent_handlers:
  "silent (ReplayJob L S E E' rid c)" "silent (RequeueJob L S E E' rid c)" "silent (Run L S E E' c)" "silent (SchedulerTick sc S E E' c)"
proof -
  have action: "silent (idempotent S E c scope (respond f svc))" if "silent svc" for scope svc and f :: "'x \<Rightarrow> StoredResponse"
    using silent_runIdempotent [OF silent_respond [OF that]] by (simp add: silent_def idempotent_snd)
  have "silent (idempotent S E c scope (job_action L svc))" if "silent svc" for scope svc
    using job_action_respond [of L svc] action [OF that] by auto
  then show "silent (ReplayJob L S E E' rid c)" "silent (RequeueJob L S E E' rid c)"
    using silent_services(1,2) by (auto simp: silent_def ReplayJob_def RequeueJob_def split: sum.split)
  show "silent (Run L S E E' c)"
    using snapshot_action_respond [of L "ReconciliationService_RunSnapshot E'"] action [OF silent_services(3)]
    by (auto simp: silent_def Run_def)
  show "silent (SchedulerTick sc S E E' c)"
    using tick_action_respond [of "TriggerSchedulerScan sc E'"] action [OF silent_services(4)]
    by (auto simp: silent_def SchedulerTick_def)
qed

lemma silent_ServeHTTP: "silent (ServeHTTP D V c)"
proof -
  have "proc_payouts (sys_proc (snd (handle ep D V rid c s))) = proc_payouts (sys_proc s)" for ep rid s
    using silent_handlers by (cases ep) (auto simp: handlers_read silent_def)
  then show ?thesis by (simp add: silent_def ServeHTTP_snd dispatch_def split: option.split)
qed

lemma silent_scheduler:
  "proc_payouts (sys_proc (runTick sc E s)) = proc_payouts (sys_proc s)"
  "proc_payouts (sys_proc (reapStaleLeases sc E s)) = proc_payouts (sys_proc s)"
  using silent_services(4) [of sc E] silent_WithTx [OF quiet_reap, of E]
  by (auto simp: silent_def TriggerSchedulerScan_def TickOnce_def runTick_def reapStaleLeases_def Let_def)

section \<open>Properties\<close>

lemma cancelled_stays: "life_step p l l' \<Longrightarrow> lf_cancelled l \<Longrightarrow> lf_cancelled l'"
  by (auto elim!: life_elims simp: return_from_run_def)

text \<open>
  The interleaved steps of a worker implement the drain of \<^verbatim>\<open>pool.go\<close>: from its ticker, a worker that is not
  interrupted takes the process to exactly the state that one call of \<^verbatim>\<open>drain\<close> computes, and waits for its ticker again.
\<close>

theorem poll_drains:
  assumes "live l" "\<not> lf_cancelled l" "lf_workers l w = Some (Between 0)"
  shows "(life_step p)\<^sup>*\<^sup>* l (l\<lparr>lf_sys := drain (wr_pool p) w Es (lf_sys l)\<rparr>)"
proof -
  let ?l1 = "l\<lparr>lf_workers := (lf_workers l)(w \<mapsto> Between (nat (BatchSize (pl_cfg (wr_pool p)))))\<rparr>"
  have "life_step p l ?l1" by (rule life_step.outside [OF assms(1) outside_step.poll [OF assms(3)]])
  moreover have "(life_step p)\<^sup>*\<^sup>* ?l1 (?l1\<lparr>lf_sys := drain (wr_pool p) w Es (lf_sys ?l1), lf_workers := (lf_workers ?l1)(w \<mapsto> Between 0)\<rparr>)"
    unfolding drain_def by (rule work_steps) (use assms in \<open>simp_all add: live_def\<close>)
  moreover have "?l1\<lparr>lf_sys := drain (wr_pool p) w Es (lf_sys ?l1), lf_workers := (lf_workers ?l1)(w \<mapsto> Between 0)\<rparr>
      = l\<lparr>lf_sys := drain (wr_pool p) w Es (lf_sys l)\<rparr>"
    using assms(3) by (simp add: fun_upd_idem)
  ultimately show ?thesis by (metis converse_rtranclp_into_rtranclp)
qed

lemma first_worker:
  assumes "run X env h = (Inr p, h')" "launch p s h' = Inr l"
  shows "lf_workers l ''arrakin-worker-0'' = Some (Between 0)" "live l" "\<not> lf_cancelled l" "lf_sys l = s"
proof -
  obtain cfg P where pool: "wr_pool p = NewPool cfg P ''arrakin''" using run_pool [OF assms(1)] by blast
  have "itoa 0 = ''0''" by (simp add: itoa_def dec_digits.simps char_of_def bit_iff_odd)
  moreover have "pl_instance (wr_pool p) = ''arrakin''" "0 < WorkerCount (pl_cfg (wr_pool p))"
    by (simp_all add: pool NewPool_def Let_def)
  ultimately have "''arrakin-worker-0'' \<in> set (worker_ids (wr_pool p))"
    unfolding worker_ids_def set_map by (intro image_eqI [of _ _ 0]) simp_all
  then show "lf_workers l ''arrakin-worker-0'' = Some (Between 0)"
    using assms(2) by (auto simp: launch_def map_of_map_restrict split: sum.splits)
  show "live l" "\<not> lf_cancelled l" "lf_sys l = s" using assms(2) by (auto simp: launch_def live_def split: sum.splits)
qed

theorem poll_drains_witness:
  "\<exists>p h' l. run demo_outside demo_environ no_handles = (Inr p, h') \<and> launch p (demo_sys None) h' = Inr l
     \<and> (life_step p)\<^sup>*\<^sup>* l (l\<lparr>lf_sys := drain (wr_pool p) ''arrakin-worker-0'' (\<lambda>_. demo_env 1) (demo_sys None)\<rparr>)"
proof -
  obtain p h' where p: "run demo_outside demo_environ no_handles = (Inr p, h')" using demo_run_starts by blast
  obtain l where l: "launch p (demo_sys None) h' = Inr l" by (rule launch_starts [OF p])
  note w = first_worker [OF p l]
  from poll_drains [OF w(2,3,1), of p] p l w(4) show ?thesis by auto
qed

text \<open>What holds at every moment of a life that began with the handles \<open>h\<close> and, once started, had \<open>h'\<close>.\<close>

definition life_ok :: "process \<Rightarrow> handles \<Rightarrow> handles \<Rightarrow> life \<Rightarrow> bool" where
  "life_ok p h h' l \<longleftrightarrow> dom (lf_workers l) \<subseteq> set (worker_ids (wr_pool p))
     \<and> (lf_cancelled l \<longleftrightarrow> lf_main l \<noteq> Selecting)
     \<and> (\<not> lf_cancelled l \<longrightarrow> lf_sched l \<and> lf_poolRun l \<and> dom (lf_workers l) = set (worker_ids (wr_pool p)))
     \<and> (\<not> lf_poolRun l \<longrightarrow> lf_workers l = Map.empty)
     \<and> lf_handles l = (case lf_main l of Returned r \<Rightarrow> h | Closing r \<Rightarrow> client_Close (wr_redis p) h' | _ \<Rightarrow> h')
     \<and> (lf_main l \<in> {Closing None, Returned None} \<longrightarrow> lf_server l = Closed)
     \<and> (\<not> live l \<longrightarrow> idle l)"

lemma life_ok_step:
  assumes "pool_Close (wr_db p) (client_Close (wr_redis p) h') = h" "life_step p l l'" "life_ok p h h' l"
  shows "life_ok p h h' l'"
  using assms(2)
  by (elim life_elims)
     (use assms(1,3) in \<open>auto simp: life_ok_def return_from_run_def live_def idle_def running_def split: main_state.splits\<close>)

lemma launch_ok:
  assumes "run X env h = (Inr p, h')" "launch p s h' = Inr l"
  shows "life_ok p h h' l" "lf_sys l = s" "pool_Close (wr_db p) (client_Close (wr_redis p) h') = h"
proof -
  have "lf_workers l = map_of (map (\<lambda>w. (w, Between 0)) (worker_ids (wr_pool p)))" "lf_main l = Selecting" "\<not> lf_cancelled l" "lf_sched l"
      "lf_poolRun l" "lf_handles l = h'" "lf_sys l = s"
    using assms(2) by (auto simp: launch_def split: sum.splits)
  then show "life_ok p h h' l" "lf_sys l = s"
    by (simp_all add: life_ok_def live_def dom_map_of_conv_image_fst image_image)
  have "h' = h\<lparr>h_pools := wr_db p # h_pools h, h_clients := wr_redis p # h_clients h\<rparr>"
    using run_starts_handles [of X env h] assms(1) by simp
  then show "pool_Close (wr_db p) (client_Close (wr_redis p) h') = h"
    by (simp add: pool_Close_def client_Close_def)
qed

text \<open>
  C12. The process from start to exit: whatever the environment says, the assembled process starts its tickers, and at every
  moment of its life its tables are a reachable state of its engine with no job left processing; its goroutines are all running until the
  context is cancelled, which happens exactly by a signal or when \<^verbatim>\<open>run\<close> returns; the pool stops after its
  last worker; and when \<^verbatim>\<open>run\<close> has returned, no run, scan or request has a transaction open any more and both connections are closed,
  with exit status 0 only after the server was closed.
\<close>

theorem life_invariant:
  assumes "run X env h = (Inr p, h')" "fresh_db (sys_db s)"
  shows "\<exists>l0. launch p s h' = Inr l0 \<and> (\<forall>l. (life_step p)\<^sup>*\<^sup>* l0 l \<longrightarrow>
      reachable (wr_engine p) (lf_sys l) \<and> (\<forall>j \<in> set (settlement_jobs (sys_db (lf_sys l))). sj_Status j \<noteq> SettlementJobStatusProcessing)
    \<and> (\<not> lf_cancelled l \<longrightarrow> lf_sched l \<and> lf_poolRun l \<and> dom (lf_workers l) = set (worker_ids (wr_pool p)))
    \<and> (lf_cancelled l \<longleftrightarrow> lf_main l \<noteq> Selecting) \<and> (\<not> lf_poolRun l \<longrightarrow> lf_workers l = Map.empty)
    \<and> (exit_code (lf_main l) \<noteq> None \<longrightarrow> lf_handles l = h \<and> idle l) \<and> (exit_code (lf_main l) = Some 0 \<longrightarrow> lf_server l = Closed))"
    (is "\<exists>l0. _ \<and> (\<forall>l. _ \<longrightarrow> ?ok l)")
proof -
  obtain l0 where l0: "launch p s h' = Inr l0" by (rule launch_starts [OF assms(1)])
  note start = launch_ok [OF assms(1) l0]
  have inv: "reachable (wr_engine p) (lf_sys l) \<and> life_ok p h h' l" if "(life_step p)\<^sup>*\<^sup>* l0 l" for l
    using that
  proof (induction rule: rtranclp_induct)
    case base
    with start assms(2) show ?case by (simp add: reachable.init)
  next
    case (step l l')
    then show ?case by (blast intro: life_ok_step [OF start(3)] life_step_reachable [OF assms(1)])
  qed
  have "?ok l" if "(life_step p)\<^sup>*\<^sup>* l0 l" for l
  proof -
    note ok = inv [OF that, THEN conjunct1] inv [OF that, THEN conjunct2, unfolded life_ok_def]
    have "\<forall>j \<in> set (settlement_jobs (sys_db (lf_sys l))). sj_Status j \<noteq> SettlementJobStatusProcessing"
      using reachable_inv [OF ok(1)] by (simp add: engine_inv_def job_inv_def)
    moreover have "lf_handles l = h \<and> idle l" if "exit_code (lf_main l) \<noteq> None"
      using ok(2) that exited [of l] by (auto simp: live_def split: main_state.splits)
    moreover have "lf_server l = Closed" if "exit_code (lf_main l) = Some 0"
      using ok(2) that by (auto simp: exit_code_def split: main_state.splits option.splits)
    ultimately show ?thesis using ok by blast
  qed
  with l0 show ?thesis by blast
qed

theorem life_invariant_witness:
  "\<exists>p h' l0. run demo_outside demo_environ no_handles = (Inr p, h') \<and> launch p (demo_sys None) h' = Inr l0 \<and> lf_poolRun l0"
proof -
  obtain p h' where p: "run demo_outside demo_environ no_handles = (Inr p, h')" using demo_run_starts by blast
  have "fresh_db (sys_db (demo_sys None))" by (simp add: demo_sys_def demo_fresh)
  from life_invariant [OF p this] obtain l0 where l0: "launch p (demo_sys None) h' = Inr l0"
      "\<not> lf_cancelled l0 \<longrightarrow> lf_poolRun l0" by blast
  moreover have "\<not> lf_cancelled l0" using l0(1) by (auto simp: launch_def split: sum.splits)
  ultimately show ?thesis using p by blast
qed

section \<open>The shutdown\<close>

lemma running_upd [simp]:
  "running (l\<lparr>lf_workers := (lf_workers l)(w \<mapsto> Between n)\<rparr>) = running l - {w}"
  "running (l\<lparr>lf_workers := (lf_workers l)(w := None)\<rparr>) = running l - {w}"
  by (auto simp: running_def)

lemma running_idem [simp]:
  "running (l\<lparr>lf_sys := s\<rparr>) = running l" "running (l\<lparr>lf_handles := h\<rparr>) = running l" "running (l\<lparr>lf_sched := b\<rparr>) = running l"
  "running (l\<lparr>lf_schedTx := b\<rparr>) = running l" "running (l\<lparr>lf_poolRun := b\<rparr>) = running l" "running (l\<lparr>lf_cancelled := b\<rparr>) = running l"
  "running (l\<lparr>lf_server := v\<rparr>) = running l" "running (l\<lparr>lf_requests := n\<rparr>) = running l" "running (l\<lparr>lf_main := m\<rparr>) = running l"
  by (simp_all add: running_def)

lemma not_running: "lf_workers l w = Some (Between n) \<Longrightarrow> running l - {w} = running l"
  by (auto simp: running_def)

lemma finite_running: "life_ok p h h' l \<Longrightarrow> finite (running l) \<and> card (running l) \<le> length (worker_ids (wr_pool p))"
proof -
  assume "life_ok p h h' l"
  then have "running l \<subseteq> set (worker_ids (wr_pool p))" by (auto simp: life_ok_def running_def)
  then show ?thesis by (auto intro: finite_subset order.trans [OF card_mono card_length])
qed

abbreviation lf_payouts :: "life \<Rightarrow> ExecuteInput list" where
  "lf_payouts l \<equiv> proc_payouts (sys_proc (lf_sys l))"

text \<open>After the cancellation only a run that had begun calls the gateway, at most once, and then it is over.\<close>

lemma cancelled_calls:
  assumes "life_step p l l'" "lf_cancelled l" "finite (running l)"
  shows "\<exists>calls. lf_payouts l' = lf_payouts l @ calls \<and> length calls + card (running l') \<le> card (running l)"
proof -
  have silent_case: ?thesis if "lf_payouts l' = lf_payouts l" "running l' = running l" using that by simp
  from assms(1) show ?thesis
  proof (cases rule: life_step.cases)
    case outside
    from this(2) show ?thesis
      by (cases rule: outside_step.cases) (auto intro!: silent_case simp: silent_scheduler not_running)
  next
    case own
    then show ?thesis
    proof (cases rule: own_step.cases)
      case scheduler
      from this(2) show ?thesis by (cases rule: scheduler_step.cases) (auto intro!: silent_case simp: silent_scheduler)
    next
      case pool
      from this(2) show ?thesis
      proof (cases rule: pool_step.cases)
        case (run_ends w n E r s')
        have "w \<in> running l" using run_ends(2) by (auto simp: running_def)
        then have "card (running l) = Suc (card (running l - {w}))" by (rule card.remove [OF assms(3)])
        moreover have "running l' = running l - {w}" "lf_sys l' = s'" using run_ends(1) by (auto simp: running_def split: if_splits)
        moreover have "\<exists>calls. proc_payouts (sys_proc s') = lf_payouts l @ calls \<and> length calls \<le> 1"
        proof (rule ProcessOne_calls [of "pl_processor (wr_pool p)" E w "lf_sys l"])
          fix j v
          assume "proc_payouts (sys_proc (snd (ProcessOne (pl_processor (wr_pool p)) E w (lf_sys l)))) = lf_payouts l @ [payout_call (sys_db (lf_sys l)) j v]"
          with run_ends(4) show ?thesis by simp
        qed (use run_ends(4) in simp)
        ultimately show ?thesis by auto
      qed (use assms(2) in \<open>auto intro!: silent_case simp: not_running ProcessOne_refused\<close>)
    next
      case server
      from this(2) show ?thesis
        using silent_ServeHTTP by (cases rule: server_step.cases) (auto intro!: silent_case simp: silent_def)
    next
      case main
      then show ?thesis by (cases rule: main_step.cases) (auto intro!: silent_case simp: return_from_run_def)
    qed
  qed (auto intro!: silent_case)
qed

lemma life_ok_steps:
  assumes "run X env h = (Inr p, h')" "launch p s h' = Inr l0" "(life_step p)\<^sup>*\<^sup>* l0 l"
  shows "life_ok p h h' l"
  using assms(3) by (induction rule: rtranclp_induct) (blast intro: launch_ok(1) [OF assms(1,2)] life_ok_step [OF launch_ok(3) [OF assms(1,2)]])+

text \<open>
  C14. What the shutdown signal does to the payouts: from the moment the context of the engine is cancelled, along every further life of the
  process, with whatever ticks, polls and requests, the gateway is called at most once for each worker that was in the middle of a run,
  of which there are no more than the pool has workers, and every run that ends uses up its call; and when the process has exited, no
  run is left that could call it.
\<close>

theorem shutdown_payouts:
  assumes "run X env h = (Inr p, h')" "launch p s h' = Inr l0" "(life_step p)\<^sup>*\<^sup>* l0 l" "lf_cancelled l" "(life_step p)\<^sup>*\<^sup>* l l'"
  shows "\<exists>calls. proc_payouts (sys_proc (lf_sys l')) = proc_payouts (sys_proc (lf_sys l)) @ calls
    \<and> length calls + card (running l') \<le> card (running l) \<and> card (running l) \<le> length (worker_ids (wr_pool p))
    \<and> (exit_code (lf_main l') \<noteq> None \<longrightarrow> running l' = {})"
proof -
  note ok = life_ok_steps [OF assms(1,2)]
  have "lf_cancelled l' \<and> (\<exists>calls. lf_payouts l' = lf_payouts l @ calls \<and> length calls + card (running l') \<le> card (running l))"
    using assms(5)
  proof (induction rule: rtranclp_induct)
    case base
    from assms(4) show ?case by simp
  next
    case (step k k')
    have "finite (running k)" using finite_running ok rtranclp_trans [OF assms(3) step.hyps(1)] by blast
    then obtain calls' where "lf_payouts k' = lf_payouts k @ calls'" "length calls' + card (running k') \<le> card (running k)"
      using cancelled_calls [OF step.hyps(2)] step.IH by blast
    moreover obtain calls where "lf_payouts k = lf_payouts l @ calls" "length calls + card (running k) \<le> card (running l)"
      using step.IH by blast
    ultimately show ?case
      using step.IH cancelled_stays [OF step.hyps(2)] by (intro conjI exI [of _ "calls @ calls'"]) auto
  qed
  moreover have "running l' = {}" if "exit_code (lf_main l') \<noteq> None"
    using ok [OF rtranclp_trans [OF assms(3,5)]] exited [of l'] that by (simp add: life_ok_def idle_def)
  ultimately show ?thesis using finite_running [OF ok [OF assms(3)]] by blast
qed

text \<open>A signal in the middle of the first run of the first worker.\<close>

lemma interrupted_run:
  assumes "run X env h = (Inr p, h')" "launch p s h' = Inr l0"
  obtains n l where "(life_step p)\<^sup>*\<^sup>* l0 l" "lf_cancelled l" "lf_main l = Stopping" "lf_sys l = s" "lf_requests l = 0"
    "lf_workers l ''arrakin-worker-0'' = Some (Running n)"
proof -
  note w = first_worker [OF assms]
  obtain cfg P where "wr_pool p = NewPool cfg P ''arrakin''" using run_pool [OF assms(1)] by blast
  then obtain n where n: "nat (BatchSize (pl_cfg (wr_pool p))) = Suc n"
    using NewPool_positive(2) [of cfg P "''arrakin''"] by (metis gr0_implies_Suc zero_less_nat_eq)
  let ?w = "''arrakin-worker-0''"
  let ?l1 = "l0\<lparr>lf_workers := (lf_workers l0)(?w \<mapsto> Between (Suc n))\<rparr>"
  let ?l2 = "?l1\<lparr>lf_workers := (lf_workers ?l1)(?w \<mapsto> Running n)\<rparr>"
  let ?l = "?l2\<lparr>lf_cancelled := True, lf_main := Stopping\<rparr>"
  have l0: "lf_main l0 = Selecting" "lf_requests l0 = 0" using assms(2) by (auto simp: launch_def split: sum.splits)
  have "life_step p l0 ?l1" using life_step.outside [OF w(2) outside_step.poll [OF w(1)], of p] n by simp
  moreover have "life_step p ?l1 ?l2" using w by (intro life_step.own own_step.pool pool_step.run_begins) (simp_all add: live_def)
  moreover have "life_step p ?l2 ?l" using w l0 by (intro life_step.outside outside_step.signal) (simp_all add: live_def)
  ultimately have "(life_step p)\<^sup>*\<^sup>* l0 ?l" by (blast intro: rtranclp.rtrancl_into_rtrancl)
  then show thesis by (rule that) (use w l0 in simp_all)
qed

lemma cut_short:
  obtains E where "\<And>c. began_env c E"
  by (rule that [of "(demo_env 0)\<lparr>commit_outcome := CommitFailed\<rparr>"]) (simp add: began_env_def)

theorem shutdown_payouts_witness:
  "\<exists>p h' l0 l l' calls. run demo_outside demo_environ no_handles = (Inr p, h') \<and> launch p (demo_sys1 None) h' = Inr l0
     \<and> (life_step p)\<^sup>*\<^sup>* l0 l \<and> lf_cancelled l \<and> running l \<noteq> {} \<and> (life_step p)\<^sup>*\<^sup>* l l'
     \<and> proc_payouts (sys_proc (lf_sys l')) = proc_payouts (sys_proc (demo_sys1 None)) @ calls \<and> length calls \<le> card (running l)"
proof -
  obtain p h' where p: "run demo_outside demo_environ no_handles = (Inr p, h')" using demo_run_starts by blast
  obtain l0 where l0: "launch p (demo_sys1 None) h' = Inr l0" by (rule launch_starts [OF p])
  obtain n l where l: "(life_step p)\<^sup>*\<^sup>* l0 l" "lf_cancelled l" "lf_main l = Stopping" "lf_sys l = demo_sys1 None"
      "lf_workers l ''arrakin-worker-0'' = Some (Running n)"
    by (rule interrupted_run [OF p l0])
  obtain E where E: "began_env (lf_cancelled l) E" using cut_short by blast
  obtain r s' where run: "ProcessOne (pl_processor (wr_pool p)) E ''arrakin-worker-0'' (lf_sys l) = (r, s')" by fastforce
  let ?l' = "l\<lparr>lf_sys := s', lf_workers := (lf_workers l)(''arrakin-worker-0'' \<mapsto> Between (case r of Inl err \<Rightarrow> 0 | Inr _ \<Rightarrow> n))\<rparr>"
  have "own_step p l ?l'" using l E run by (intro own_step.pool pool_step.run_ends) (simp_all add: live_def)
  then have l': "(life_step p)\<^sup>*\<^sup>* l ?l'" by (blast intro: life_step.own)
  obtain calls where "proc_payouts (sys_proc (lf_sys ?l')) = proc_payouts (sys_proc (lf_sys l)) @ calls" "length calls \<le> card (running l)"
    using shutdown_payouts [OF p l0 l(1,2) l'] by auto
  moreover have "running l \<noteq> {}" using l(5) by (auto simp: running_def)
  ultimately show ?thesis using p l0 l l' by metis
qed

section \<open>The end of the process\<close>











end
