(* ===== verification/Job_Records.thy ===== *)
theory Job_Records
  imports Scenario
begin

text \<open>
  What the tables record of a job beside its status: its attempts, its payout reference, the calculation its
  amounts come from and its maturity. \<open>engine_delta\<close> lists what a step of the engine can do to these tables, once for
  all steps; the invariants of the records are proved over it.
\<close>

section \<open>What a step does to the records\<close>

text \<open>A job opened for a due maturity, and a job given back to the queue by an administrator.\<close>

definition opened_for :: "orch_Service \<Rightarrow> tx_env \<Rightarrow> db \<Rightarrow> SettlementJob \<Rightarrow> bool" where
  "opened_for S E d j \<longleftrightarrow> (\<exists>m v. job_for S E (m, v) j \<and> m \<in> set (maturity_schedules d) \<and> v \<in> set (investments d)
     \<and> ms_Status m = MaturityStatusPending \<and> inv_ID v = ms_InvestmentID m)"

definition given_back :: "tx_env \<Rightarrow> SettlementJob \<Rightarrow> SettlementJob \<Rightarrow> bool" where
  "given_back E j j' \<longleftrightarrow> sj_Status j = SettlementJobStatusDeadLetter \<and> j' = job_replayed E j
     \<or> sj_Status j = SettlementJobStatusFailed \<and> j' = job_requeued E j"

inductive engine_delta :: "engine \<Rightarrow> db \<Rightarrow> db \<Rightarrow> bool" for G :: engine where
  untouched: "settlement_jobs d' = settlement_jobs d \<Longrightarrow> payout_attempts d' = payout_attempts d \<Longrightarrow>
     extends (investments d) (investments d') \<Longrightarrow> extends (maturity_schedules d) (maturity_schedules d') \<Longrightarrow> engine_delta G d d'"
| opened: "settlement_jobs d' = settlement_jobs d @ js \<Longrightarrow> payout_attempts d' = payout_attempts d \<Longrightarrow>
     investments d' = investments d \<Longrightarrow> maturity_schedules d' = maturity_schedules d \<Longrightarrow>
     (\<And>j. j \<in> set js \<Longrightarrow> opened_for (sc_orchestrator (en_scheduler G)) E d j) \<Longrightarrow> engine_delta G d d'"
| returned: "j \<in> set (settlement_jobs d) \<Longrightarrow> given_back E j j' \<Longrightarrow> settlement_jobs d' = settlement_jobs (replace_job j' d) \<Longrightarrow>
     payout_attempts d' = payout_attempts d \<Longrightarrow> investments d' = investments d \<Longrightarrow>
     maturity_schedules d' = maturity_schedules d \<Longrightarrow> engine_delta G d d'"
| pays: "flight_ok E d j v a \<Longrightarrow> pr_Err (wp_gateway (en_processor G) (execute_input j v a)) = None \<Longrightarrow>
     paid (en_processor G) E w d j v a d1 \<Longrightarrow> d' = d1\<lparr>idempotency_keys := ks\<rparr> \<Longrightarrow> engine_delta G d d'"
| errs: "flight_ok E d j v a \<Longrightarrow> pr_Err (wp_gateway (en_processor G) (execute_input j v a)) = Some err \<Longrightarrow>
     errored (en_processor G) E w d j v a d1 \<Longrightarrow> d' = d1\<lparr>idempotency_keys := ks\<rparr> \<Longrightarrow> engine_delta G d d'"

lemma delta_refl: "engine_delta G d d"
  by (rule engine_delta.untouched) simp_all

lemma delta_same:
  "settlement_jobs d' = settlement_jobs d \<Longrightarrow> payout_attempts d' = payout_attempts d \<Longrightarrow> investments d' = investments d \<Longrightarrow>
   maturity_schedules d' = maturity_schedules d \<Longrightarrow> engine_delta G d d'"
  by (rule engine_delta.untouched) simp_all

text \<open>A transaction that is rolled back does nothing; one that commits is judged by its body.\<close>

lemma WithTx_delta:
  assumes "\<And>x st. fn (begin_tx s) = (Inr x, st) \<Longrightarrow> engine_delta G (sys_db s) (tx_db st)"
  shows "engine_delta G (sys_db s) (sys_db (snd (WithTx E fn s)))"
proof -
  obtain r s' where run: "WithTx E fn s = (r, s')" by fastforce
  then have "engine_delta G (sys_db s) (sys_db s')"
    by (cases rule: WithTx_cases) (use assms in \<open>auto simp: delta_same\<close>)
  with run show ?thesis by simp
qed

text \<open>The keys of the API are not part of the records.\<close>

lemma delta_keys: "engine_delta G d d' \<Longrightarrow> engine_delta G d (d'\<lparr>idempotency_keys := ks\<rparr>)"
proof (induction rule: engine_delta.induct)
  case (opened d' d js E)
  then show ?case by (intro engine_delta.opened [where js = js and E = E]) simp_all
next
  case (pays E d j v a w d1 d' ks')
  then show ?case by (auto intro: engine_delta.pays [where ks = ks])
next
  case (errs E d j v a err w d1 d' ks')
  then show ?case by (auto intro: engine_delta.errs [where ks = ks])
qed (auto intro: engine_delta.intros)

lemma ProcessOne_delta:
  assumes "schema_ok (sys_db s)"
  shows "engine_delta G (sys_db s) (sys_db (snd (ProcessOne (en_processor G) E w s)))"
  unfolding ProcessOne_def
proof (rule WithTx_delta)
  fix x st assume "process_body (en_processor G) E w (begin_tx s) = (Inr x, st)"
  then obtain j v a where f: "flight_ok E (sys_db s) j v a"
      and o: "if pr_Err (wp_gateway (en_processor G) (execute_input j v a)) = None
          then paid (en_processor G) E w (sys_db s) j v a (tx_db st) else errored (en_processor G) E w (sys_db s) j v a (tx_db st)"
    using process_body_ok [of "en_processor G" E w "begin_tx s" st] assms by (metis begin_tx_simps(1) old.unit.exhaust)
  then show "engine_delta G (sys_db s) (tx_db st)"
    by (cases "pr_Err (wp_gateway (en_processor G) (execute_input j v a))")
       (auto intro: engine_delta.pays [where ks = "idempotency_keys (tx_db st)"]
          engine_delta.errs [where ks = "idempotency_keys (tx_db st)"])
qed

lemma due_row:
  assumes "ListDueMaturitySchedules E u d = Rows due d" "(m, v) \<in> set due"
  shows "m \<in> set (maturity_schedules d)" "v \<in> set (investments d)" "inv_ID v = ms_InvestmentID m" "maturity_due E m"
  using assms by (auto simp: ListDueMaturitySchedules_def)

lemma Enqueue_delta:
  assumes "S = sc_orchestrator (en_scheduler G)"
  shows "engine_delta G (sys_db s) (sys_db (snd (EnqueueDueMaturities S E s)))"
proof -
  have "engine_delta G (sys_db s) (sys_db (snd (WithTx E (enqueue_body S E) s)))"
  proof (rule WithTx_delta)
    fix x st assume "enqueue_body S E (begin_tx s) = (Inr x, st)"
    then obtain due js u where due: "ListDueMaturitySchedules E u (sys_db s) = Rows due (sys_db s)"
        and e: "enqueued S E due (sys_db s) js (tx_db st)"
      using enqueue_body_ok [of S E "begin_tx s" x st] by (metis begin_tx_simps(1))
    have "opened_for S E (sys_db s) j" if j: "j \<in> set js" for j
    proof -
      from e j obtain m v where mv: "(m, v) \<in> set due" "job_for S E (m, v) j" unfolding enqueued_def by fastforce
      with due_row [OF due mv(1)] show ?thesis by (auto simp: opened_for_def maturity_due_def)
    qed
    with e assms show "engine_delta G (sys_db s) (tx_db st)"
      by (intro engine_delta.opened [where js = js and E = E]) (auto simp: enqueued_def)
  qed
  then show ?thesis by (auto simp: EnqueueDueMaturities_def split: prod.splits sum.splits)
qed

lemma admin_delta:
  "engine_delta G (sys_db s) (sys_db (snd (SettlementService_ReplayDeadLetter E i a c s)))"
  "engine_delta G (sys_db s) (sys_db (snd (SettlementService_RequeueFailed E i a c s)))"
proof -
  have "engine_delta G (sys_db s) (tx_db st)" if run: "replay_body E i a c (begin_tx s) = (Inr x, st)" for x st
  proof -
    from replay_body_ok [OF run, unfolded begin_tx_simps] obtain j v where
      "j \<in> set (settlement_jobs (sys_db s))" "sj_Status j = SettlementJobStatusDeadLetter"
        "tx_db st = (replace_job (job_replayed E j) (sys_db s))\<lparr>audit_events := audit_events (sys_db s) @ [v]\<rparr>" by metis
    then show ?thesis by (intro engine_delta.returned [of j _ E]) (auto simp: given_back_def)
  qed
  then show "engine_delta G (sys_db s) (sys_db (snd (SettlementService_ReplayDeadLetter E i a c s)))"
    unfolding SettlementService_ReplayDeadLetter_def by (rule WithTx_delta)
  have "engine_delta G (sys_db s) (tx_db st)" if run: "requeue_body E i a c (begin_tx s) = (Inr x, st)" for x st
  proof -
    from requeue_body_ok [OF run, unfolded begin_tx_simps] obtain j v where
      "j \<in> set (settlement_jobs (sys_db s))" "sj_Status j = SettlementJobStatusFailed"
        "tx_db st = (replace_job (job_requeued E j) (sys_db s))\<lparr>audit_events := audit_events (sys_db s) @ [v]\<rparr>" by metis
    then show ?thesis by (intro engine_delta.returned [of j _ E]) (auto simp: given_back_def)
  qed
  then show "engine_delta G (sys_db s) (sys_db (snd (SettlementService_RequeueFailed E i a c s)))"
    unfolding SettlementService_RequeueFailed_def by (rule WithTx_delta)
qed

lemma RunSnapshot_delta: "engine_delta G (sys_db s) (sys_db (snd (ReconciliationService_RunSnapshot E s)))"
  unfolding ReconciliationService_RunSnapshot_def
proof (rule WithTx_delta)
  fix x st assume run: "snapshot_body E (begin_tx s) = (Inr x, st)"
  obtain snap flags where "x = (snap, flags)" by fastforce
  with run obtain st1 where "ReconciliationRepo_CreateSnapshot E (begin_tx s) = (Inr snap, st1)"
      "FlagsForSnapshot E snap st1 = (Inr flags, st)" by (auto elim: snapshot_body_ok)
  then have "tx_db st = (sys_db s)\<lparr>reconciliation_snapshots := reconciliation_snapshots (sys_db s) @ [snap]\<rparr>"
    by (metis CreateSnapshot_ok FlagsForSnapshot_ok(1) begin_tx_simps(1))
  then show "engine_delta G (sys_db s) (tx_db st)" by (simp add: delta_same)
qed

lemma runIdempotent_delta:
  assumes "engine_delta G (sys_db s) (sys_db (snd (svc s)))"
  shows "engine_delta G (sys_db s) (sys_db (snd (runIdempotent S E key scope (respond f svc) s)))"
proof -
  let ?d' = "sys_db (snd (runIdempotent S E key scope (respond f svc) s))"
  obtain s1 where s1: "s1 = s \<or> s1 = snd (respond f svc s)" and m: "merged s s1 ?d'"
    by (rule runIdempotent_tables)
  from m obtain ks where "?d' = (sys_db s1)\<lparr>idempotency_keys := ks\<rparr>" by (auto simp: merged_def)
  moreover from s1 assms have "engine_delta G (sys_db s) (sys_db s1)" by (auto simp: respond_db delta_refl)
  ultimately show ?thesis by (simp add: delta_keys)
qed

lemma engine_step_delta:
  assumes "engine_step G s s'" "engine_inv L (sys_db s)"
  shows "engine_delta G (sys_db s) (sys_db s')"
  using assms(1)
proof (cases rule: engine_step.cases)
  case (seed d' vs ms)
  then show ?thesis by (auto intro: engine_delta.untouched)
next
  case (tick E)
  then show ?thesis
    using Enqueue_delta [OF refl, of G "s\<lparr>sys_proc := p\<rparr>" for p] by (simp add: runTick_def Let_def)
next
  case (reap E)
  have "\<forall>j \<in> set (settlement_jobs (sys_db s)). sj_Status j \<noteq> SettlementJobStatusProcessing"
    using assms(2) by (simp add: engine_inv_def job_inv_def)
  with reap show ?thesis by (simp add: reap_noop delta_refl)
next
  case (work E w)
  then show ?thesis using ProcessOne_delta assms(2) by (simp add: engine_inv_def)
next
  case (scan E key scope f E')
  then show ?thesis
    by (simp only:) (rule runIdempotent_delta, simp add: TriggerSchedulerScan_def TickOnce_def Enqueue_delta)
next
  case (replay E key scope g E' i a c)
  then show ?thesis by (simp only:) (rule runIdempotent_delta, rule admin_delta)
next
  case (requeue E key scope g E' i a c)
  then show ?thesis by (simp only:) (rule runIdempotent_delta, rule admin_delta)
next
  case (snapshot E key scope h E')
  then show ?thesis by (simp only:) (rule runIdempotent_delta, rule RunSnapshot_delta)
qed

text \<open>Invariants of the records are proved over the deltas.\<close>

lemma reachable_records:
  assumes "reachable G s"
    and init: "\<And>d. fresh_db d \<Longrightarrow> I d"
    and step: "\<And>d d'. engine_inv (wp_lib (en_processor G)) d \<Longrightarrow> engine_inv (wp_lib (en_processor G)) d' \<Longrightarrow>
      engine_delta G d d' \<Longrightarrow> I d \<Longrightarrow> I d'"
  shows "I (sys_db s)"
  using assms(1)
proof (induction rule: reachable.induct)
  case (init s)
  then show ?case by (rule assms(2))
next
  case (step s s')
  note inv = reachable_inv [OF step.hyps(1)]
  from step.hyps(2) inv have "engine_delta G (sys_db s) (sys_db s')" by (rule engine_step_delta)
  with inv engine_step_inv [OF step.hyps(2) inv] step.IH show ?case by (blast intro: assms(3))
qed

section \<open>The attempts of a job\<close>

definition attempts_of :: "db \<Rightarrow> uuid \<Rightarrow> PayoutAttempt list" where
  "attempts_of d i = filter (\<lambda>a. pa_SettlementJobID a = i) (payout_attempts d)"

text \<open>
  The trail of a job: its attempts are numbered from one without a gap, all but the last have failed and carry no
  reference; the last one succeeded exactly when the job did and carries its reference; no more retries are counted than attempts failed.
\<close>

definition failed_attempt :: "PayoutAttempt \<Rightarrow> bool" where
  "failed_attempt a \<longleftrightarrow> pa_Status a = PayoutAttemptStatusFailed \<and> pa_PayoutReference a = None"

definition trail :: "SettlementJob \<Rightarrow> PayoutAttempt list \<Rightarrow> bool" where
  "trail j as \<longleftrightarrow> map pa_AttemptNumber as = [1..int (length as)]
     \<and> (if sj_Status j = SettlementJobStatusSucceeded
        then \<exists>bs b. as = bs @ [b] \<and> list_all failed_attempt bs \<and> pa_Status b = PayoutAttemptStatusSucceeded
           \<and> sj_PayoutReference j \<noteq> None \<and> pa_PayoutReference b = sj_PayoutReference j \<and> sj_RetryCount j \<le> int (length bs)
        else list_all failed_attempt as \<and> sj_PayoutReference j = None \<and> sj_RetryCount j \<le> int (length as))"

lemma fold_max_upto: "fold max [1..int n] 0 = int n"
proof (induction n)
  case (Suc n)
  have "[1..int (Suc n)] = [1..int n] @ [int (Suc n)]" using upto_rec2 [of 1 "int (Suc n)"] by simp
  with Suc show ?case by simp
qed simp

lemma trail_next_attempt:
  assumes "trail j (attempts_of d (sj_ID j))"
  shows "next_attempt d (sj_ID j) = int (length (attempts_of d (sj_ID j))) + 1"
proof -
  from assms have "map pa_AttemptNumber (attempts_of d (sj_ID j)) = [1..int (length (attempts_of d (sj_ID j)))]"
    by (simp add: trail_def)
  then show ?thesis using fold_max_upto unfolding next_attempt_def attempts_of_def by simp
qed

lemma upto_snoc: "[1..int (length as)] @ [int (length as) + 1] = [1..int (length (as @ [a]))]"
  using upto_rec2 [of 1 "int (length as) + 1"] by (simp add: algebra_simps)

lemma trail_paid:
  assumes "trail j as" "sj_Status j \<noteq> SettlementJobStatusSucceeded" "pa_AttemptNumber a = int (length as) + 1"
  shows "trail (job_succeeded E ref (claimed E w j)) (as @ [attempt_succeeded E ref a])"
  using assms upto_snoc [of as "attempt_succeeded E ref a"]
  by (simp add: trail_def job_succeeded_def claimed_def attempt_succeeded_def)

lemma trail_errored:
  assumes "trail j as" "sj_Status j \<noteq> SettlementJobStatusSucceeded" "pa_AttemptNumber a = int (length as) + 1"
    "pa_PayoutReference a = None"
    and "(\<exists>r c'. j' = job_dead E r msg c' (claimed E w j)) \<or> (\<exists>t. j' = job_failed E t msg (claimed E w j))"
  shows "trail j' (as @ [attempt_failed E msg' c a])"
proof -
  have st: "sj_Status j' \<noteq> SettlementJobStatusSucceeded" "sj_PayoutReference j' = sj_PayoutReference j"
      "sj_RetryCount j' \<le> sj_RetryCount j + 1"
    using assms(5) by (auto simp: job_dead_def job_failed_def claimed_def)
  from assms(1,2) have t: "map pa_AttemptNumber as = [1..int (length as)]" "list_all failed_attempt as"
      "sj_PayoutReference j = None" "sj_RetryCount j \<le> int (length as)"
    by (auto simp: trail_def)
  have "map pa_AttemptNumber (as @ [attempt_failed E msg' c a]) = [1..int (length (as @ [attempt_failed E msg' c a]))]"
    using t(1) assms(3) upto_snoc [of as "attempt_failed E msg' c a"] by (simp add: attempt_failed_def)
  moreover have "failed_attempt (attempt_failed E msg' c a)" using assms(4) by (simp add: failed_attempt_def attempt_failed_def)
  ultimately show ?thesis using st t unfolding trail_def by simp
qed

lemma trail_given_back:
  "given_back E j j' \<Longrightarrow> trail j as \<Longrightarrow> trail j' as"
  by (auto simp: given_back_def trail_def job_replayed_def job_requeued_def)

lemma trail_opened:
  assumes "opened_for S E d j"
  shows "trail j []"
proof -
  from assms obtain m v where "job_for S E (m, v) j" by (auto simp: opened_for_def)
  from job_for_fields [OF this] show ?thesis by (simp add: trail_def)
qed

section \<open>The price of a job\<close>

text \<open>The amounts of a job are the calculator's for its investment, and its maturity waits as long as the job is not settled.\<close>

definition priced :: "orch_Service \<Rightarrow> db \<Rightarrow> SettlementJob \<Rightarrow> bool" where
  "priced S d j \<longleftrightarrow> (\<exists>v \<in> set (investments d). inv_ID v = sj_InvestmentID j
     \<and> Calculate (or_lib S) (or_calc S) (investment_terms v) =
         Inr (job_breakdown j (ToUpper (unicode_ToUpper (or_lib S)) (TrimSpace (inv_Currency v)))))"

definition awaited :: "db \<Rightarrow> SettlementJob \<Rightarrow> bool" where
  "awaited d j \<longleftrightarrow> (\<exists>m \<in> set (maturity_schedules d). ms_ID m = sj_MaturityScheduleID j \<and> ms_InvestmentID m = sj_InvestmentID j
     \<and> (sj_Status j = SettlementJobStatusSucceeded \<or> ms_Status m = MaturityStatusPending))"

definition record_ok :: "engine \<Rightarrow> db \<Rightarrow> SettlementJob \<Rightarrow> bool" where
  "record_ok G d j \<longleftrightarrow> trail j (attempts_of d (sj_ID j)) \<and> priced (sc_orchestrator (en_scheduler G)) d j \<and> awaited d j"

definition records_ok :: "engine \<Rightarrow> db \<Rightarrow> bool" where
  "records_ok G d \<longleftrightarrow> (\<forall>j \<in> set (settlement_jobs d). record_ok G d j)"

lemma Calculate_currency:
  "Calculate L s t = Inr b \<Longrightarrow> bd_Currency b = ToUpper (unicode_ToUpper L) (TrimSpace (it_Currency t))"
  by (auto simp: Calculate_def Let_def split: sum.splits)

lemma priced_opened:
  assumes "opened_for S E d j"
  shows "priced S d j" "awaited d j"
proof -
  from assms obtain m v where mv: "job_for S E (m, v) j" "m \<in> set (maturity_schedules d)" "v \<in> set (investments d)"
      "ms_Status m = MaturityStatusPending" "inv_ID v = ms_InvestmentID m"
    by (auto simp: opened_for_def)
  note fields = job_for_fields [OF mv(1)]
  from mv(1) obtain b where b: "Calculate (or_lib S) (or_calc S) (investment_terms v) = Inr b"
      and j: "j = new_job (job_params S m v b) E (sj_ID j)" by (auto simp: job_for_def)
  have "job_breakdown j (bd_Currency b) = b" by (subst j) (simp add: job_breakdown_def new_job_def job_params_def)
  moreover have "bd_Currency b = ToUpper (unicode_ToUpper (or_lib S)) (TrimSpace (inv_Currency v))"
    using Calculate_currency [OF b] by (simp add: investment_terms_def)
  ultimately show "priced S d j" using b mv(3) fields(2) unfolding priced_def by auto
  show "awaited d j" using mv fields unfolding awaited_def by auto
qed

lemma priced_mono:
  "priced S d j \<Longrightarrow> set (investments d) \<subseteq> set (investments d') \<Longrightarrow> sj_InvestmentID j' = sj_InvestmentID j \<Longrightarrow>
   (\<And>c. job_breakdown j' c = job_breakdown j c) \<Longrightarrow> priced S d' j'"
  unfolding priced_def by auto

lemma awaited_mono:
  "awaited d j \<Longrightarrow> set (maturity_schedules d) \<subseteq> set (maturity_schedules d') \<Longrightarrow>
   sj_MaturityScheduleID j' = sj_MaturityScheduleID j \<Longrightarrow> sj_InvestmentID j' = sj_InvestmentID j \<Longrightarrow>
   (sj_Status j = SettlementJobStatusSucceeded \<Longrightarrow> sj_Status j' = SettlementJobStatusSucceeded) \<Longrightarrow> awaited d' j'"
  unfolding awaited_def by (elim bexE) (rule bexI, auto)

lemma same_calculation:
  "job_breakdown (job_replayed E j) c = job_breakdown j c" "job_breakdown (job_requeued E j) c = job_breakdown j c"
  "job_breakdown (job_succeeded E ref (claimed E w j)) c = job_breakdown j c"
  "job_breakdown (job_dead E r msg cl (claimed E w j)) c = job_breakdown j c"
  "job_breakdown (job_failed E t msg (claimed E w j)) c = job_breakdown j c"
  by (simp_all add: job_breakdown_def job_replayed_def job_requeued_def job_succeeded_def job_dead_def job_failed_def claimed_def)

lemma same_links:
  "sj_InvestmentID (job_replayed E j) = sj_InvestmentID j" "sj_InvestmentID (job_requeued E j) = sj_InvestmentID j"
  "sj_InvestmentID (job_succeeded E ref (claimed E w j)) = sj_InvestmentID j"
  "sj_InvestmentID (job_dead E r msg cl (claimed E w j)) = sj_InvestmentID j"
  "sj_InvestmentID (job_failed E t msg (claimed E w j)) = sj_InvestmentID j"
  "sj_MaturityScheduleID (job_replayed E j) = sj_MaturityScheduleID j" "sj_MaturityScheduleID (job_requeued E j) = sj_MaturityScheduleID j"
  "sj_MaturityScheduleID (job_succeeded E ref (claimed E w j)) = sj_MaturityScheduleID j"
  "sj_MaturityScheduleID (job_dead E r msg cl (claimed E w j)) = sj_MaturityScheduleID j"
  "sj_MaturityScheduleID (job_failed E t msg (claimed E w j)) = sj_MaturityScheduleID j"
  "sj_ID (job_replayed E j) = sj_ID j" "sj_ID (job_requeued E j) = sj_ID j"
  by (simp_all add: job_replayed_def job_requeued_def job_succeeded_def job_dead_def job_failed_def claimed_def)

lemmas record_simps = same_calculation same_links

section \<open>Every step keeps the records\<close>

lemma record_frame:
  assumes "record_ok G d k" "attempts_of d' (sj_ID k) = attempts_of d (sj_ID k)"
    "set (investments d) \<subseteq> set (investments d')" "set (maturity_schedules d) \<subseteq> set (maturity_schedules d')"
  shows "record_ok G d' k"
  using assms unfolding record_ok_def by (auto intro: priced_mono awaited_mono)

lemma extends_subset: "extends xs ys \<Longrightarrow> set xs \<subseteq> set ys"
  by (auto simp: extends_iff)

lemma attempts_of_append:
  "payout_attempts d' = payout_attempts d @ [a] \<Longrightarrow>
   attempts_of d' i = (if pa_SettlementJobID a = i then attempts_of d i @ [a] else attempts_of d i)"
  by (simp add: attempts_of_def)

lemma given_back_fields:
  assumes "given_back E j j'"
  shows "sj_ID j' = sj_ID j" "sj_InvestmentID j' = sj_InvestmentID j" "sj_MaturityScheduleID j' = sj_MaturityScheduleID j"
    "job_breakdown j' c = job_breakdown j c" "sj_Status j \<noteq> SettlementJobStatusSucceeded"
  using assms by (auto simp: given_back_def record_simps)

text \<open>A step that replaces one job which is not settled.\<close>

lemma replaced_records:
  assumes ok: "records_ok G d" "jobs_ok d" and j: "j \<in> set (settlement_jobs d)" "sj_ID j' = sj_ID j"
    and d': "settlement_jobs d' = settlement_jobs (replace_job j' d)"
    and new: "record_ok G d' j'"
    and other: "\<And>k. k \<in> set (settlement_jobs d) \<Longrightarrow> sj_ID k \<noteq> sj_ID j \<Longrightarrow> record_ok G d k \<Longrightarrow> record_ok G d' k"
  shows "records_ok G d'"
  unfolding records_ok_def
proof
  fix k assume "k \<in> set (settlement_jobs d')"
  with d' set_replace_job [OF j] j(2) have "k = j' \<or> k \<in> set (settlement_jobs d) \<and> sj_ID k \<noteq> sj_ID j" by auto
  with ok(1) new other show "record_ok G d' k" by (auto simp: records_ok_def)
qed

lemma opened_records:
  assumes "records_ok G d" "attempts_ok d" "jobs_ok d'" "settlement_jobs d' = settlement_jobs d @ js"
    "payout_attempts d' = payout_attempts d" "investments d' = investments d" "maturity_schedules d' = maturity_schedules d"
    and js: "\<And>j. j \<in> set js \<Longrightarrow> opened_for (sc_orchestrator (en_scheduler G)) E d j"
  shows "records_ok G d'"
  unfolding records_ok_def
proof
  fix k assume k: "k \<in> set (settlement_jobs d')"
  have att: "attempts_of d' i = attempts_of d i" for i using assms(5) by (simp add: attempts_of_def)
  show "record_ok G d' k"
  proof (cases "k \<in> set (settlement_jobs d)")
    case True
    with assms(1) have "record_ok G d k" by (simp add: records_ok_def)
    then show ?thesis by (rule record_frame) (use att assms(6,7) in simp_all)
  next
    case False
    with k assms(4) have kj: "k \<in> set js" by simp
    have "sj_ID k \<notin> sj_ID ` set (settlement_jobs d)" using assms(3,4) kj by (auto simp: jobs_ok_def)
    moreover have "\<forall>a \<in> set (payout_attempts d). pa_SettlementJobID a \<in> sj_ID ` set (settlement_jobs d)"
      using assms(2) by (simp add: attempts_ok_def)
    ultimately have "attempts_of d (sj_ID k) = []" unfolding attempts_of_def filter_empty_conv by metis
    with trail_opened [OF js [OF kj]] priced_opened [OF js [OF kj]] att assms(6,7) show ?thesis
      by (auto simp: record_ok_def intro: priced_mono awaited_mono)
  qed
qed

text \<open>The number and the job of the attempt in flight.\<close>

lemma flight_attempt:
  assumes "flight_ok E d j v a" "trail j (attempts_of d (sj_ID j))"
  shows "pa_SettlementJobID a = sj_ID j" "pa_AttemptNumber a = int (length (attempts_of d (sj_ID j))) + 1"
    "pa_PayoutReference a = None" "sj_Status j \<noteq> SettlementJobStatusSucceeded"
  using assms claim_status [of E d j] by (auto simp: flight_ok_def new_attempt_def trail_next_attempt)

lemma paid_records:
  assumes ok: "records_ok G d" and f: "flight_ok E d j v a" and p: "paid P E w d j v a d'"
  shows "records_ok G d'"
proof -
  note fd = flight_okD [OF f]
  define ref where "ref = pr_PayoutReference (wp_gateway P (execute_input j v a))"
  define j' where "j' = job_succeeded E ref (claimed E w j)"
  from p have d': "settlement_jobs d' = settlement_jobs (replace_job j' d)" "investments d' = investments d"
      "maturity_schedules d' = settle_maturity E (sj_MaturityScheduleID j) (maturity_schedules d)"
      "payout_attempts d' = payout_attempts d @ [attempt_succeeded E ref a]"
    unfolding paid_def Let_def ref_def [symmetric] j'_def [symmetric] by auto
  from ok fd(5) have r: "trail j (attempts_of d (sj_ID j))" "priced (sc_orchestrator (en_scheduler G)) d j" "awaited d j"
    by (auto simp: records_ok_def record_ok_def)
  note a = flight_attempt [OF f r(1)]
  have id: "sj_ID j' = sj_ID j" by (simp add: j'_def)
  have att: "attempts_of d' i = (if i = sj_ID j then attempts_of d i @ [attempt_succeeded E ref a] else attempts_of d i)" for i
    using attempts_of_append [OF d'(4)] a(1) by (auto simp: attempts_of_def attempt_succeeded_def)
  show ?thesis
  proof (rule replaced_records [OF ok fd(1,5) id d'(1)])
    have "trail j' (attempts_of d' (sj_ID j'))"
      unfolding id att using trail_paid [OF r(1) a(4,2)] by (simp add: j'_def)
    moreover have "priced (sc_orchestrator (en_scheduler G)) d' j'"
      by (rule priced_mono [OF r(2)]) (simp_all add: d'(2) j'_def record_simps)
    moreover have "awaited d' j'"
    proof -
      from r(3) obtain m where "m \<in> set (maturity_schedules d)" "ms_ID m = sj_MaturityScheduleID j"
          "ms_InvestmentID m = sj_InvestmentID j" by (auto simp: awaited_def)
      then show ?thesis unfolding awaited_def d'(3)
        by (intro bexI [of _ "maturity_settled E m"]) (auto simp: settle_maturity_def maturity_settled_def j'_def record_simps)
    qed
    ultimately show "record_ok G d' j'" by (simp add: record_ok_def)
  next
    fix k assume k: "k \<in> set (settlement_jobs d)" "sj_ID k \<noteq> sj_ID j" "record_ok G d k"
    then have r: "trail k (attempts_of d (sj_ID k))" "priced (sc_orchestrator (en_scheduler G)) d k" "awaited d k"
      by (auto simp: record_ok_def)
    have "sj_MaturityScheduleID k \<noteq> sj_MaturityScheduleID j"
      using fd(1,5) k(1,2) by (auto simp: jobs_ok_def job_clash_def)
    with r(3) have "awaited d' k" unfolding awaited_def d'(3) by (fastforce simp: settle_maturity_def)
    moreover have "priced (sc_orchestrator (en_scheduler G)) d' k" by (rule priced_mono [OF r(2)]) (simp_all add: d'(2))
    ultimately show "record_ok G d' k" using r(1) k(2) by (simp add: record_ok_def att)
  qed
qed

lemma errored_records:
  assumes ok: "records_ok G d" and f: "flight_ok E d j v a" and e: "errored P E w d j v a d'"
    and err: "pr_Err (wp_gateway P (execute_input j v a)) = Some err"
  shows "records_ok G d'"
proof -
  note fd = flight_okD [OF f]
  define res where "res = wp_gateway P (execute_input j v a)"
  define c where "c = (if pr_ErrorClass res = ErrorClassRaw [] then ErrorClassTransient else pr_ErrorClass res)"
  from e err obtain j' vs where d'_eq: "d' = (replace_job j' d)\<lparr>payout_attempts := payout_attempts d @ [attempt_failed E (error_text err) c a],
        audit_events := vs\<rparr>"
      and j'_eq: "if c = ErrorClassTerminal \<or> wrap32 (sj_RetryCount j + 1) \<ge> sj_MaxRetries j
        then j' = job_dead E (if c \<noteq> ErrorClassTerminal then ''max retries exceeded'' else ''terminal payout failure'')
               (error_text err) c (claimed E w j)
        else \<exists>t. j' = job_failed E t (error_text err) (claimed E w j)"
    unfolding errored_def Let_def res_def [symmetric] c_def [symmetric]
    by (cases "c = ErrorClassTerminal \<or> wrap32 (sj_RetryCount j + 1) \<ge> sj_MaxRetries j") auto
  then have d': "settlement_jobs d' = settlement_jobs (replace_job j' d)" "investments d' = investments d"
      "maturity_schedules d' = maturity_schedules d" "payout_attempts d' = payout_attempts d @ [attempt_failed E (error_text err) c a]"
    by simp_all
  have j': "(\<exists>r c'. j' = job_dead E r (error_text err) c' (claimed E w j)) \<or> (\<exists>t. j' = job_failed E t (error_text err) (claimed E w j))"
    using j'_eq by (meson)
  from ok fd(5) have r: "trail j (attempts_of d (sj_ID j))" "priced (sc_orchestrator (en_scheduler G)) d j" "awaited d j"
    by (auto simp: records_ok_def record_ok_def)
  note a = flight_attempt [OF f r(1)]
  have j'_simps: "sj_ID j' = sj_ID j" "sj_InvestmentID j' = sj_InvestmentID j" "sj_MaturityScheduleID j' = sj_MaturityScheduleID j"
      "job_breakdown j' x = job_breakdown j x" for x
    using j' by (auto simp: record_simps)
  have att: "attempts_of d' i = (if i = sj_ID j then attempts_of d i @ [attempt_failed E (error_text err) c a] else attempts_of d i)" for i
    using attempts_of_append [OF d'(4)] a(1) by (auto simp: attempts_of_def attempt_failed_def)
  show ?thesis
  proof (rule replaced_records [OF ok fd(1,5) j'_simps(1) d'(1)])
    have "trail j' (attempts_of d' (sj_ID j'))"
      unfolding j'_simps att using trail_errored [OF r(1) a(4,2,3) j'] by simp
    moreover have "priced (sc_orchestrator (en_scheduler G)) d' j'" by (rule priced_mono [OF r(2)]) (simp_all add: d'(2) j'_simps)
    moreover have "awaited d' j'" by (rule awaited_mono [OF r(3)]) (use a(4) in \<open>simp_all add: d'(3) j'_simps\<close>)
    ultimately show "record_ok G d' j'" by (simp add: record_ok_def)
  next
    fix k assume k: "sj_ID k \<noteq> sj_ID j" "record_ok G d k"
    show "record_ok G d' k" by (rule record_frame [OF k(2)]) (use k(1) in \<open>simp_all add: att d'(2,3)\<close>)
  qed
qed

lemma delta_records:
  assumes "engine_inv L d" "engine_inv L d'" "engine_delta G d d'" "records_ok G d"
  shows "records_ok G d'"
  using assms(3)
proof (cases rule: engine_delta.cases)
  case untouched
  then have "record_ok G d' k" if "record_ok G d k" for k
    by (intro record_frame [OF that]) (auto simp: attempts_of_def dest: extends_subset)
  with assms(4) untouched(1) show ?thesis by (simp add: records_ok_def)
next
  case (opened js E)
  with assms show ?thesis by (intro opened_records [of G d d' js E]) (auto simp: engine_inv_def schema_ok_def)
next
  case (returned j E j')
  have jobs: "jobs_ok d" using assms(1) by (simp add: engine_inv_def schema_ok_def)
  note g = given_back_fields [OF returned(2)]
  have att: "attempts_of d' i = attempts_of d i" for i using returned(4) by (simp add: attempts_of_def)
  show ?thesis
  proof (rule replaced_records [OF assms(4) jobs returned(1) g(1) returned(3)])
    from assms(4) returned(1) have "record_ok G d j" by (simp add: records_ok_def)
    with trail_given_back [OF returned(2)] g att returned(5,6) show "record_ok G d' j'"
      by (auto simp: record_ok_def intro: priced_mono awaited_mono)
  qed (rule record_frame, use att returned(5,6) in auto)
next
  case (pays E j v a w d1 ks)
  from paid_records [OF assms(4) pays(1,3)] have "records_ok G d1" .
  then show ?thesis by (simp add: records_ok_def record_ok_def priced_def awaited_def attempts_of_def pays(4))
next
  case (errs E j v a err w d1 ks)
  from errored_records [OF assms(4) errs(1,3,2)] have "records_ok G d1" .
  then show ?thesis by (simp add: records_ok_def record_ok_def priced_def awaited_def attempts_of_def errs(4))
qed

lemma reachable_records_ok:
  assumes "reachable G s"
  shows "records_ok G (sys_db s)"
proof (rule reachable_records [OF assms])
  show "records_ok G d" if "fresh_db d" for d
    using that by (simp add: fresh_db_def records_ok_def)
qed (rule delta_records)

section \<open>The references of a gateway\<close>

text \<open>With a gateway that gives every job a reference of its own, the references in the tables are those of their jobs.\<close>

definition refs_from :: "(uuid \<Rightarrow> string) \<Rightarrow> db \<Rightarrow> bool" where
  "refs_from ref_of d \<longleftrightarrow> (\<forall>j \<in> set (settlement_jobs d). \<forall>r. sj_PayoutReference j = Some r \<longrightarrow> r = ref_of (sj_ID j))"

lemma refs_replace:
  assumes "refs_from ref_of d" "j \<in> set (settlement_jobs d)" "sj_ID j' = sj_ID j"
    "settlement_jobs d' = settlement_jobs (replace_job j' d)"
    and "\<And>r. sj_PayoutReference j' = Some r \<Longrightarrow> r = ref_of (sj_ID j)"
  shows "refs_from ref_of d'"
  using assms set_replace_job [OF assms(2,3)] unfolding refs_from_def by auto

lemma delta_refs:
  assumes gw: "\<And>i. pr_Err (wp_gateway (en_processor G) i) = None \<Longrightarrow> pr_PayoutReference (wp_gateway (en_processor G) i) = ref_of (ei_JobID i)"
    and "engine_delta G d d'" "refs_from ref_of d"
  shows "refs_from ref_of d'"
  using assms(2)
proof (cases rule: engine_delta.cases)
  case untouched
  with assms(3) show ?thesis by (simp add: refs_from_def)
next
  case (opened js E)
  have "sj_PayoutReference j = None" if "j \<in> set js" for j
    using opened(5) [OF that] by (auto simp: opened_for_def dest: job_for_fields)
  with assms(3) opened(1) show ?thesis unfolding refs_from_def by auto
next
  case (returned j E j')
  have "sj_PayoutReference j' = sj_PayoutReference j"
    using returned(2) by (auto simp: given_back_def job_replayed_def job_requeued_def)
  with assms(3) returned(1) show ?thesis
    by (intro refs_replace [OF assms(3) returned(1) given_back_fields(1) [OF returned(2)] returned(3)]) (auto simp: refs_from_def)
next
  case (pays E j v a w d1 ks)
  let ?ref = "pr_PayoutReference (wp_gateway (en_processor G) (execute_input j v a))"
  from pays(3,4) have d': "settlement_jobs d' = settlement_jobs (replace_job (job_succeeded E ?ref (claimed E w j)) d)"
    by (auto simp: paid_def Let_def)
  have "?ref = ref_of (sj_ID j)" using gw [OF pays(2)] by (simp add: execute_input_def)
  then show ?thesis
    by (intro refs_replace [OF assms(3) flight_okD(5) [OF pays(1)] _ d']) (simp_all add: job_succeeded_def claimed_def)
next
  case (errs E j v a err w d1 ks)
  from errored_job [OF errs(3,2)] obtain j' where j': "settlement_jobs d1 = settlement_jobs (replace_job j' d)"
      "(\<exists>r c. j' = job_dead E r (error_text err) c (claimed E w j)) \<or> (\<exists>t. j' = job_failed E t (error_text err) (claimed E w j))"
    by (metis (full_types))
  have "sj_PayoutReference j' = sj_PayoutReference j" "sj_ID j' = sj_ID j"
    using j'(2) by (auto simp: job_dead_def job_failed_def claimed_def)
  with assms(3) flight_okD(5) [OF errs(1)] j'(1) errs(4) show ?thesis
    by (intro refs_replace [OF assms(3) flight_okD(5) [OF errs(1)], of j']) (auto simp: refs_from_def)
qed

lemma reachable_refs:
  assumes "reachable G s"
    and "\<And>i. pr_Err (wp_gateway (en_processor G) i) = None \<Longrightarrow> pr_PayoutReference (wp_gateway (en_processor G) i) = ref_of (ei_JobID i)"
  shows "refs_from ref_of (sys_db s)"
proof (rule reachable_records [OF assms(1)])
  show "refs_from ref_of d" if "fresh_db d" for d using that by (simp add: fresh_db_def refs_from_def)
qed (rule delta_refs [OF assms(2)])

section \<open>Properties\<close>

text \<open>
  C7. The attempts tell the story of a job: in every reachable state the attempts of a job are numbered one, two, three and so on
  without a gap, in the order they were made; all but the last failed and carry no payout reference; and the last one
  succeeded exactly when the job has, with the very reference stored on the job. So a job is never paid by two attempts, and its retry count
  never exceeds the attempts that failed.
\<close>

theorem attempts_trail:
  assumes "reachable G s" "j \<in> set (settlement_jobs (sys_db s))"
  defines "as \<equiv> attempts_of (sys_db s) (sj_ID j)"
  shows "map pa_AttemptNumber as = [1..int (length as)]
    \<and> (\<forall>a \<in> set as. pa_Status a = PayoutAttemptStatusFailed \<and> pa_PayoutReference a = None
         \<or> a = last as \<and> pa_Status a = PayoutAttemptStatusSucceeded \<and> sj_Status j = SettlementJobStatusSucceeded
           \<and> pa_PayoutReference a = sj_PayoutReference j)
    \<and> (sj_Status j = SettlementJobStatusSucceeded \<longleftrightarrow>
         length (filter (\<lambda>a. pa_Status a = PayoutAttemptStatusSucceeded) as) = 1)
    \<and> sj_RetryCount j \<le> int (length (filter (\<lambda>a. pa_Status a = PayoutAttemptStatusFailed) as))"
proof -
  have t: "trail j as"
    using reachable_records_ok [OF assms(1)] assms(2) by (simp add: records_ok_def record_ok_def as_def)
  have fails: "filter (\<lambda>a. pa_Status a = PayoutAttemptStatusFailed) bs = bs" "filter (\<lambda>a. pa_Status a = PayoutAttemptStatusSucceeded) bs = []"
    if "list_all failed_attempt bs" for bs
    using that by (auto simp: failed_attempt_def list_all_iff filter_id_conv filter_empty_conv)
  show ?thesis
  proof (cases "sj_Status j = SettlementJobStatusSucceeded")
    case True
    with t obtain bs b where "as = bs @ [b]" "list_all failed_attempt bs" "pa_Status b = PayoutAttemptStatusSucceeded"
        "pa_PayoutReference b = sj_PayoutReference j" "sj_RetryCount j \<le> int (length bs)" "map pa_AttemptNumber as = [1..int (length as)]"
      by (auto simp: trail_def)
    with True fails [of bs] show ?thesis by (auto simp: failed_attempt_def list_all_iff)
  next
    case False
    with t fails [of as] show ?thesis by (auto simp: trail_def failed_attempt_def list_all_iff)
  qed
qed

lemma demo_records:
  obtains j where "settlement_jobs (sys_db (demo_sys2 None)) = [j]" "j \<in> set (settlement_jobs (sys_db (demo_sys2 None)))"
    "sj_Status j = SettlementJobStatusSucceeded"
  using demo_paid by (metis list.set_intros(1))

theorem attempts_trail_witness:
  "\<exists>j. settlement_jobs (sys_db (demo_sys2 None)) = [j] \<and> sj_Status j = SettlementJobStatusSucceeded
     \<and> length (filter (\<lambda>a. pa_Status a = PayoutAttemptStatusSucceeded) (attempts_of (sys_db (demo_sys2 None)) (sj_ID j))) = 1"
proof -
  obtain j where j: "settlement_jobs (sys_db (demo_sys2 None)) = [j]" "j \<in> set (settlement_jobs (sys_db (demo_sys2 None)))"
    "sj_Status j = SettlementJobStatusSucceeded" by (rule demo_records)
  from attempts_trail [OF demo_reachable(3) j(2)] j show ?thesis by blast
qed

text \<open>
  C8. Nothing is paid but what was calculated: in every reachable state the principal, the return, the fee, the tax and
  the net payout of a job are exactly the breakdown the calculator returns for the terms of its investment, and until the job is
  settled its maturity, which belongs to the same investment, is pending.
\<close>

theorem jobs_priced:
  assumes "reachable G s" "j \<in> set (settlement_jobs (sys_db s))"
  shows "\<exists>v \<in> set (investments (sys_db s)). \<exists>m \<in> set (maturity_schedules (sys_db s)). \<exists>b.
      inv_ID v = sj_InvestmentID j \<and> ms_ID m = sj_MaturityScheduleID j \<and> ms_InvestmentID m = inv_ID v
    \<and> Calculate (or_lib (sc_orchestrator (en_scheduler G))) (or_calc (sc_orchestrator (en_scheduler G))) (investment_terms v) = Inr b
    \<and> sj_PrincipalCents j = bd_PrincipalCents b \<and> sj_GrossReturnCents j = bd_GrossReturnCents b
    \<and> sj_PlatformFeeCents j = bd_PlatformFeeCents b \<and> sj_WithholdingTaxCents j = bd_WithholdingTaxCents b
    \<and> sj_NetPayoutCents j = bd_NetPayoutCents b
    \<and> (sj_Status j \<noteq> SettlementJobStatusSucceeded \<longrightarrow> ms_Status m = MaturityStatusPending)"
proof -
  from reachable_records_ok [OF assms(1)] assms(2)
  have "priced (sc_orchestrator (en_scheduler G)) (sys_db s) j" "awaited (sys_db s) j"
    by (auto simp: records_ok_def record_ok_def)
  then obtain v m where v: "v \<in> set (investments (sys_db s))" "inv_ID v = sj_InvestmentID j"
      "Calculate (or_lib (sc_orchestrator (en_scheduler G))) (or_calc (sc_orchestrator (en_scheduler G))) (investment_terms v)
         = Inr (job_breakdown j (ToUpper (unicode_ToUpper (or_lib (sc_orchestrator (en_scheduler G)))) (TrimSpace (inv_Currency v))))"
      and m: "m \<in> set (maturity_schedules (sys_db s))" "ms_ID m = sj_MaturityScheduleID j" "ms_InvestmentID m = sj_InvestmentID j"
      "sj_Status j = SettlementJobStatusSucceeded \<or> ms_Status m = MaturityStatusPending"
    by (auto simp: priced_def awaited_def)
  show ?thesis
    by (rule bexI [OF _ v(1)], rule bexI [OF _ m(1)], intro exI conjI, rule v(2), rule m(2), simp add: m(3) v(2), rule v(3))
       (use m(4) in \<open>auto simp: job_breakdown_def\<close>)
qed

theorem jobs_priced_witness:
  "\<exists>j. settlement_jobs (sys_db (demo_sys2 None)) = [j] \<and> sj_NetPayoutCents j = 1067320"
proof -
  obtain j where j: "settlement_jobs (sys_db (demo_sys2 None)) = [j]" "j \<in> set (settlement_jobs (sys_db (demo_sys2 None)))"
    by (rule demo_records)
  have "investments (sys_db (demo_sys2 None)) = [demo_investment None]"
    using append_only.ProcessOne_keeps [of "demo_sys1 None" "en_processor demo_engine" "demo_env 1" "''w''"]
    by (simp add: append_only_def demo_sys2_def demo_sys1_def demo_db_def)
  with jobs_priced [OF demo_reachable(3) j(2)] j(1) show ?thesis by (auto simp: demo_calculate demo_breakdown_def)
qed

end
