(* ===== verification/Progress.thy ===== *)
theory Progress
  imports Job_Records
begin

text \<open>
  Total correctness of the worker: when nothing fails, a run on a job that can be paid returns and has paid it. The first part
  is a small calculus of programs that return, in the style of a logic for total correctness; the second follows
  \<^verbatim>\<open>process_body\<close> forwards, as \<open>Worker_Runs\<close> follows it backwards.
\<close>

section \<open>Programs that return\<close>

text \<open>An environment in which no statement, begin or commit fails.\<close>

definition healthy :: "tx_env \<Rightarrow> bool" where
  "healthy E \<longleftrightarrow> \<not> begin_fault E \<and> commit_outcome E = CommitOk \<and> (\<forall>n. \<not> stmt_fault E n)"

definition row_ids :: "db \<Rightarrow> uuid set" where
  "row_ids d = pa_ID ` set (payout_attempts d) \<union> la_ID ` set (ledger_accounts d) \<union> le_ID ` set (ledger_entries d)
     \<union> ae_ID ` set (audit_events d)"

text \<open>
  The transaction is usable and the identifiers the server will give in the next \<open>k\<close> statements are different and not in
  the tables. \<open>does E k m st x d\<close> says that \<open>m\<close> returns \<open>x\<close> and leaves the tables \<open>d\<close>, with identifiers for \<open>k\<close> more statements.
\<close>

definition fresh_ids :: "tx_env \<Rightarrow> nat \<Rightarrow> nat \<Rightarrow> db \<Rightarrow> bool" where
  "fresh_ids E n k d \<longleftrightarrow> inj_on (gen_uuid E) {n..<n + k} \<and> gen_uuid E ` {n..<n + k} \<inter> row_ids d = {}"

definition ready :: "tx_env \<Rightarrow> nat \<Rightarrow> tx \<Rightarrow> bool" where
  "ready E k st \<longleftrightarrow> \<not> tx_aborted st \<and> fresh_ids E (tx_stmts st) k (tx_db st)"

definition does :: "tx_env \<Rightarrow> nat \<Rightarrow> 'a txm \<Rightarrow> tx \<Rightarrow> 'a \<Rightarrow> db \<Rightarrow> bool" where
  "does E k m st x d \<longleftrightarrow> (\<exists>st'. m st = (Inr x, st') \<and> ready E k st' \<and> tx_db st' = d)"

definition completes :: "tx_env \<Rightarrow> nat \<Rightarrow> 'a txm \<Rightarrow> tx \<Rightarrow> bool" where
  "completes E k m st \<longleftrightarrow> (\<exists>x d. does E k m st x d)"

lemma does_completes: "does E k m st x d \<Longrightarrow> completes E k m st"
  by (auto simp: completes_def)

lemma completesE:
  assumes "completes E k m st"
  obtains x st' where "m st = (Inr x, st')" "ready E k st'"
  using assms by (auto simp: completes_def does_def)

lemma completes_bind:
  assumes "does E k' m st x d" "\<And>st'. m st = (Inr x, st') \<Longrightarrow> ready E k' st' \<Longrightarrow> tx_db st' = d \<Longrightarrow> completes E k (c x) st'"
  shows "completes E k (bindE m c) st"
proof -
  from assms(1) obtain st' where st': "m st = (Inr x, st')" "ready E k' st'" "tx_db st' = d" by (auto simp: does_def)
  with assms(2) have "completes E k (c x) st'" by blast
  with bindE_step [of m st x st' c] st'(1) show ?thesis by (simp add: completes_def does_def)
qed

lemma does_wrap: "does E k m st x d \<Longrightarrow> does E k (wrapE f as m) st x d"
  by (auto simp: does_def)

lemma noRowsAs_step: "m st = (Inr x, st') \<Longrightarrow> noRowsAs e f m st = (Inr x, st')"
  by (simp add: noRowsAs_def tryE_def returnE_def)

lemma does_noRowsAs: "does E k m st x d \<Longrightarrow> does E k (noRowsAs e f m) st x d"
  by (auto simp: does_def noRowsAs_step)

lemma does_lift: "ready E k st \<Longrightarrow> does E k (liftE (Inr x)) st x (tx_db st)"
  by (auto simp: does_def)

lemma does_updProc: "ready E k st \<Longrightarrow> does E k (updProc f) st () (tx_db st)"
  by (auto simp: does_def ready_def)

lemma fresh_ids_Suc_iff:
  "fresh_ids E n (Suc k) d \<longleftrightarrow> gen_uuid E n \<notin> row_ids d \<and> gen_uuid E n \<notin> gen_uuid E ` {Suc n..<Suc n + k} \<and> fresh_ids E (Suc n) k d"
proof -
  have "{n..<n + Suc k} = insert n {Suc n..<Suc n + k}" by auto
  then show ?thesis by (auto simp: fresh_ids_def)
qed

lemma ready_next: "ready E (Suc k) st \<Longrightarrow> gen_uuid E (tx_stmts st) \<notin> row_ids (tx_db st)"
  by (simp add: ready_def fresh_ids_Suc_iff)

lemma fresh_ids_Suc:
  assumes "fresh_ids E n (Suc k) d" "row_ids d' \<subseteq> insert (gen_uuid E n) (row_ids d)"
  shows "fresh_ids E (Suc n) k d'"
proof -
  let ?ids = "gen_uuid E ` {Suc n..<Suc n + k}"
  have "gen_uuid E n \<notin> ?ids" "fresh_ids E (Suc n) k d" using assms(1) by (simp_all add: fresh_ids_Suc_iff)
  then have "inj_on (gen_uuid E) {Suc n..<Suc n + k}" "?ids \<inter> insert (gen_uuid E n) (row_ids d) = {}"
    by (simp_all add: fresh_ids_def)
  with assms(2) show ?thesis unfolding fresh_ids_def by blast
qed

lemma ready_Suc:
  assumes "ready E (Suc k) st" "row_ids d \<subseteq> insert (gen_uuid E (tx_stmts st)) (row_ids (tx_db st))"
  shows "ready E k (st\<lparr>tx_db := d, tx_stmts := Suc (tx_stmts st)\<rparr>)"
  using assms fresh_ids_Suc [of E "tx_stmts st" k "tx_db st" d] by (simp add: ready_def)

lemma does_stmt:
  assumes "healthy E" "ready E (Suc k) st" "q E (gen_uuid E (tx_stmts st)) (tx_db st) = Rows x d"
    and "row_ids d \<subseteq> insert (gen_uuid E (tx_stmts st)) (row_ids (tx_db st))"
  shows "does E k (run_stmt E q) st x d"
proof -
  have "run_stmt E q st = (Inr x, st\<lparr>tx_db := d, tx_stmts := Suc (tx_stmts st)\<rparr>)"
    using assms by (simp add: run_stmt_Inr healthy_def ready_def)
  with ready_Suc [OF assms(2,4)] show ?thesis by (auto simp: does_def)
qed

lemma run_stmt_NoRows:
  assumes "healthy E" "ready E (Suc k) st" "q E (gen_uuid E (tx_stmts st)) (tx_db st) = NoRows"
  obtains st' where "run_stmt E q st = (Inl PgxErrNoRows, st')" "ready E k st'" "tx_db st' = tx_db st" "tx_proc st' = tx_proc st"
  using assms ready_Suc [OF assms(2), of "tx_db st"]
  by (intro that [of "st\<lparr>tx_stmts := Suc (tx_stmts st)\<rparr>"]) (auto simp: run_stmt_def healthy_def ready_def)

section \<open>Publishing\<close>

lemma row_ids_simps [simp]:
  "row_ids (replace_job j d) = row_ids d"
  "row_ids (d\<lparr>settlement_jobs := js\<rparr>) = row_ids d" "row_ids (d\<lparr>maturity_schedules := ms\<rparr>) = row_ids d"
  by (simp_all add: row_ids_def)

lemma does_Publish:
  assumes "healthy E" "ready E (Suc k) st" "ev_Action i \<noteq> []" "ev_EntityType i \<noteq> []" "ev_EntityID i \<noteq> uuid_Nil"
  shows "\<exists>v. does E k (Publish E i) st v ((tx_db st)\<lparr>audit_events := audit_events (tx_db st) @ [v]\<rparr>)"
proof -
  let ?u = "gen_uuid E (tx_stmts st)"
  let ?v = "event_of i E ?u"
  let ?d = "(tx_db st)\<lparr>audit_events := audit_events (tx_db st) @ [?v]\<rparr>"
  have u: "?u \<notin> ae_ID ` set (audit_events (tx_db st))" using ready_next [OF assms(2)] by (auto simp: row_ids_def)
  have run: "Publish E i st = (Inr ?v, st\<lparr>tx_db := ?d, tx_stmts := Suc (tx_stmts st)\<rparr>)"
    using assms u by (simp add: Publish_Inr healthy_def ready_def)
  have "ready E k (st\<lparr>tx_db := ?d, tx_stmts := Suc (tx_stmts st)\<rparr>)"
    by (rule ready_Suc [OF assms(2)]) (auto simp: row_ids_def event_of_def)
  with run show ?thesis by (auto simp: does_def)
qed

lemma does_PublishJobTransition:
  assumes "healthy E" "ready E (Suc k) st" "i \<noteq> uuid_Nil" "a \<noteq> []"
  shows "\<exists>v. does E k (PublishJobTransition E i a c det) st v ((tx_db st)\<lparr>audit_events := audit_events (tx_db st) @ [v]\<rparr>)"
  unfolding PublishJobTransition_def by (rule does_Publish) (use assms in \<open>simp_all add: audit_names\<close>)

lemma does_PublishLedgerPosted:
  assumes "healthy E" "ready E (Suc k) st" "g \<noteq> uuid_Nil"
  shows "\<exists>v. does E k (PublishLedgerPosted L E i g c n) st v ((tx_db st)\<lparr>audit_events := audit_events (tx_db st) @ [v]\<rparr>)"
  unfolding PublishLedgerPosted_def by (rule does_Publish) (use assms in \<open>simp_all add: audit_names\<close>)

section \<open>Posting\<close>

text \<open>The pairs of account code and side that a group of entries already has.\<close>

definition taken :: "db \<Rightarrow> uuid \<Rightarrow> (string \<times> string) set" where
  "taken d g = {(la_Code a, le_Side e) | a e. a \<in> set (ledger_accounts d) \<and> e \<in> set (ledger_entries d)
     \<and> le_EntryGroupID e = g \<and> le_AccountID e = la_ID a}"

definition line_ok :: "LedgerLineInput \<Rightarrow> bool" where
  "line_ok l \<longleftrightarrow> li_AccountType l \<in> account_types \<and> li_Side l \<in> {''D'', ''C''} \<and> 0 < li_AmountCents l \<and> length (li_Currency l) \<le> 3"

abbreviation line_key :: "LedgerLineInput \<Rightarrow> string \<times> string" where
  "line_key l \<equiv> (li_AccountCode l, li_Side l)"

lemma bpchar_one: "s \<in> {''D'', ''C''} \<Longrightarrow> bpchar 1 s = s"
  by auto

lemma does_Upsert:
  assumes "healthy E" "ready E (Suc k) st" "typ \<in> account_types" "ledger_ok (tx_db st)"
  shows "\<exists>a as. does E k (run_stmt E (UpsertLedgerAccount code name typ)) st a ((tx_db st)\<lparr>ledger_accounts := as\<rparr>)
     \<and> a \<in> set as \<and> la_Code a = code \<and> ledger_ok ((tx_db st)\<lparr>ledger_accounts := as\<rparr>)
     \<and> taken ((tx_db st)\<lparr>ledger_accounts := as\<rparr>) g = taken (tx_db st) g"
proof -
  let ?u = "gen_uuid E (tx_stmts st)" and ?d = "tx_db st"
  have u: "\<forall>b \<in> set (ledger_accounts ?d). la_ID b \<noteq> ?u" using ready_next [OF assms(2)] by (force simp: row_ids_def)
  obtain a as where up: "UpsertLedgerAccount code name typ E ?u ?d = Rows a (?d\<lparr>ledger_accounts := as\<rparr>)"
      and ids: "(\<lambda>b. (la_ID b, la_Code b)) ` set as \<subseteq> insert (?u, code) ((\<lambda>b. (la_ID b, la_Code b)) ` set (ledger_accounts ?d))"
  proof (cases "find (\<lambda>a. la_Code a = code) (ledger_accounts ?d)")
    case None
    with u assms(3) have "UpsertLedgerAccount code name typ E ?u ?d = Rows \<lparr>la_ID = ?u, la_Code = code, la_Name = name,
        la_AccountType = typ, la_CreatedAt = pg_now E\<rparr> (?d\<lparr>ledger_accounts := ledger_accounts ?d @ [\<lparr>la_ID = ?u, la_Code = code,
        la_Name = name, la_AccountType = typ, la_CreatedAt = pg_now E\<rparr>]\<rparr>)"
      by (auto simp: UpsertLedgerAccount_def Let_def)
    then show thesis by (rule that) auto
  next
    case (Some b)
    with assms(3) have "UpsertLedgerAccount code name typ E ?u ?d = Rows (b\<lparr>la_Name := name\<rparr>)
        (?d\<lparr>ledger_accounts := map (\<lambda>c. if la_Code c = code then b\<lparr>la_Name := name\<rparr> else c) (ledger_accounts ?d)\<rparr>)"
      by (simp add: UpsertLedgerAccount_def)
    then show thesis by (rule that) (use find_eq_SomeD [OF Some] in auto)
  qed
  note r = Upsert_Rows [OF up assms(4)]
  have "does E k (run_stmt E (UpsertLedgerAccount code name typ)) st a (?d\<lparr>ledger_accounts := as\<rparr>)"
    by (rule does_stmt [OF assms(1,2)], rule up) (use ids in \<open>force simp: row_ids_def\<close>)
  moreover have "taken (?d\<lparr>ledger_accounts := as\<rparr>) g = taken ?d g"
  proof (intro equalityI subsetI)
    fix x assume "x \<in> taken (?d\<lparr>ledger_accounts := as\<rparr>) g"
    then obtain b e where b: "b \<in> set as" "e \<in> set (ledger_entries ?d)" "le_EntryGroupID e = g" "le_AccountID e = la_ID b"
        "x = (la_Code b, le_Side e)" by (auto simp: taken_def)
    moreover have "le_AccountID e \<in> la_ID ` set (ledger_accounts ?d)" using assms(4) b(2) by (simp add: ledger_ok_def)
    then have "la_ID b \<noteq> ?u" using u b(4) by auto
    ultimately obtain c where "c \<in> set (ledger_accounts ?d)" "la_ID c = la_ID b" "la_Code c = la_Code b"
      using ids by (force simp: image_subset_iff)
    with b show "x \<in> taken ?d g" unfolding taken_def by (metis (mono_tags, lifting) mem_Collect_eq)
  next
    fix x assume "x \<in> taken ?d g"
    then obtain b e where "b \<in> set (ledger_accounts ?d)" "e \<in> set (ledger_entries ?d)" "le_EntryGroupID e = g"
        "le_AccountID e = la_ID b" "x = (la_Code b, le_Side e)" by (auto simp: taken_def)
    moreover from this(1) r(4) obtain c where "c \<in> set as" "la_ID c = la_ID b" "la_Code c = la_Code b"
      by (auto simp: accounts_grow_def)
    ultimately show "x \<in> taken (?d\<lparr>ledger_accounts := as\<rparr>) g" unfolding taken_def by auto metis
  qed
  ultimately show ?thesis using r(2,3,5) by auto
qed

text \<open>One line: it is posted when its account and side are not taken in the group, and takes them.\<close>

lemma does_post_line:
  assumes E: "healthy E" "ready E (Suc (Suc k)) st" and d: "ledger_ok (tx_db st)" "job \<in> sj_ID ` set (settlement_jobs (tx_db st))"
    and l: "line_ok line" "line_key line \<notin> taken (tx_db st) g"
  shows "\<exists>e d'. does E k (post_line E job g line) st e d' \<and> ledger_ok d' \<and> settlement_jobs d' = settlement_jobs (tx_db st)
     \<and> taken d' g = insert (line_key line) (taken (tx_db st) g)"
proof -
  have ty: "li_AccountType line \<in> account_types"
    and side: "li_Side line \<in> {''D'', ''C''}" using l(1) by (auto simp: line_ok_def)
  obtain a as where up: "does E (Suc k) (run_stmt E (UpsertLedgerAccount (li_AccountCode line) (li_AccountName line) (li_AccountType line)))
        st a ((tx_db st)\<lparr>ledger_accounts := as\<rparr>)"
      and a: "a \<in> set as" "la_Code a = li_AccountCode line" "ledger_ok ((tx_db st)\<lparr>ledger_accounts := as\<rparr>)"
        "taken ((tx_db st)\<lparr>ledger_accounts := as\<rparr>) g = taken (tx_db st) g"
    using does_Upsert [OF E ty d(1)] by blast
  let ?d1 = "(tx_db st)\<lparr>ledger_accounts := as\<rparr>"
  let ?q = "\<lparr>ip_EntryGroupID = g, ip_SettlementJobID = job, ip_AccountID = la_ID a,
              ip_Side = li_Side line, ip_AmountCents = li_AmountCents line, ip_Currency = li_Currency line,
              ip_Description = li_Description line, ip_Metadata = li_Metadata line\<rparr>"
  have free: "line_key line \<notin> taken ?d1 g" using l(2) a(4) by simp
  let ?ins = "wrapE ''insert ledger entry'' [] (run_stmt E (InsertLedgerEntry ?q))"
  have ins: "\<exists>e. does E k ?ins st1 e (?d1\<lparr>ledger_entries := ledger_entries ?d1 @ [e]\<rparr>) \<and> le_AccountID e = la_ID a
      \<and> le_EntryGroupID e = g \<and> le_Side e = li_Side line \<and> ledger_ok (?d1\<lparr>ledger_entries := ledger_entries ?d1 @ [e]\<rparr>)"
    if st1: "ready E (Suc k) st1" "tx_db st1 = ?d1" for st1
  proof -
    let ?u = "gen_uuid E (tx_stmts st1)"
    let ?e = "new_entry ?q E ?u"
    have e: "le_Side ?e = li_Side line" "le_AccountID ?e = la_ID a" "le_EntryGroupID ?e = g" "le_ID ?e = ?u"
      using side bpchar_one by (simp_all add: new_entry_def)
    have "\<forall>f \<in> set (ledger_entries ?d1). le_ID f \<noteq> ?u" using ready_next [OF st1(1)] st1(2) by (force simp: row_ids_def)
    moreover have "\<not> (le_EntryGroupID f = g \<and> le_AccountID f = la_ID a \<and> le_Side f = li_Side line)"
      if "f \<in> set (ledger_entries ?d1)" for f
      using that free a(1,2) by (auto simp: taken_def)
    ultimately have "InsertLedgerEntry ?q E ?u ?d1 = Rows ?e (?d1\<lparr>ledger_entries := ledger_entries ?d1 @ [?e]\<rparr>)"
      using side l(1) d(2) a(1) e by (auto simp: InsertLedgerEntry_def Let_def line_ok_def new_entry_def bpchar_fitsI)
    note row = this
    have "does E k (run_stmt E (InsertLedgerEntry ?q)) st1 ?e (?d1\<lparr>ledger_entries := ledger_entries ?d1 @ [?e]\<rparr>)"
      by (rule does_stmt [OF E(1) st1(1)]) (use row st1(2) e(4) in \<open>auto simp: row_ids_def\<close>)
    then show ?thesis using e insert_ledger_ok [OF row a(3)] by (blast intro: does_wrap)
  qed
  from up obtain st1 where st1: "run_stmt E (UpsertLedgerAccount (li_AccountCode line) (li_AccountName line) (li_AccountType line)) st
      = (Inr a, st1)" "ready E (Suc k) st1" "tx_db st1 = ?d1" by (auto simp: does_def)
  from ins [OF st1(2,3)] obtain e where e: "does E k ?ins st1 e (?d1\<lparr>ledger_entries := ledger_entries ?d1 @ [e]\<rparr>)"
      "le_AccountID e = la_ID a" "le_EntryGroupID e = g" "le_Side e = li_Side line"
      "ledger_ok (?d1\<lparr>ledger_entries := ledger_entries ?d1 @ [e]\<rparr>)" by blast
  have "does E k (post_line E job g line) st e (?d1\<lparr>ledger_entries := ledger_entries ?d1 @ [e]\<rparr>)"
    using e(1) st1(1) by (simp add: post_line_def does_def bindE_def tryE_def wrapE_def returnE_def)
  moreover have "taken (?d1\<lparr>ledger_entries := ledger_entries ?d1 @ [e]\<rparr>) g = insert (line_key line) (taken ?d1 g)"
  proof -
    have "la_Code b = li_AccountCode line" if "b \<in> set as" "la_ID b = la_ID a" for b
      using distinct_map_same_key [of la_ID as b a] a(1-3) that by (simp add: ledger_ok_def)
    then show ?thesis using e(2-4) a(1,2) by (auto simp: taken_def) metis+
  qed
  ultimately show ?thesis using e(5) a(4) by (intro exI conjI) auto
qed

lemma completes_post_lines:
  assumes "healthy E" "ready E (2 * length lines + k) st" "ledger_ok (tx_db st)" "job \<in> sj_ID ` set (settlement_jobs (tx_db st))"
    "list_all line_ok lines" "distinct (map line_key lines)" "set (map line_key lines) \<inter> taken (tx_db st) g = {}"
  shows "completes E k (mapE (post_line E job g) lines) st"
  using assms(2-)
proof (induction lines arbitrary: st)
  case Nil
  then show ?case by (auto simp: completes_def does_def)
next
  case (Cons l ls)
  then obtain e d' where e: "does E (2 * length ls + k) (post_line E job g l) st e d'" "ledger_ok d'" "settlement_jobs d' = settlement_jobs (tx_db st)"
      "taken d' g = insert (line_key l) (taken (tx_db st) g)"
    using does_post_line [OF assms(1) _ Cons.prems(2,3), of "2 * length ls + k" l g] Cons.prems(1) by auto
  have "completes E k (bindE (mapE (post_line E job g) ls) (\<lambda>ys. returnE (e # ys))) st1"
    if st1: "ready E (2 * length ls + k) st1" "tx_db st1 = d'" for st1
  proof -
    have "completes E k (mapE (post_line E job g) ls) st1"
      by (rule Cons.IH) (use Cons.prems e st1 in auto)
    then obtain ys d where ys: "does E k (mapE (post_line E job g) ls) st1 ys d" by (auto simp: completes_def)
    then show ?thesis by (rule completes_bind) (auto simp: completes_def does_def)
  qed
  then show ?case unfolding mapE.simps by (rule completes_bind [OF e(1)]) simp_all
qed

lemma posting_lines_ok:
  assumes "breakdown_amounts_ok b" "in_int64 (bd_PrincipalCents b + bd_GrossReturnCents b)" "0 < bd_PlatformFeeCents b"
    "0 < bd_WithholdingTaxCents b" "length (bd_Currency b) \<le> 3"
  shows "list_all line_ok (buildPostingLines L i b)" "distinct (map line_key (buildPostingLines L i b))"
  using assms
  by (auto simp: buildPostingLines_def Let_def line_ok_def posting_consts account_types_def TotalObligation_exact amounts_ok_def
      investorWalletCode_def)

lemma completes_PostSettlement:
  assumes E: "healthy E" "ready E (10 + k) st" and d: "ledger_ok (tx_db st)" "ps_JobID input \<in> sj_ID ` set (settlement_jobs (tx_db st))"
      "entries_of (tx_db st) (ps_JobID input) = []"
      "\<forall>e \<in> set (ledger_entries (tx_db st)). le_EntryGroupID e \<noteq> EntryGroupIDFromJob L (ps_JobID input)"
    and ids: "ps_JobID input \<noteq> uuid_Nil" "ps_InvestorID input \<noteq> uuid_Nil"
    and b: "Breakdown_Validate (ps_Breakdown input) = Inr ()" "breakdown_amounts_ok (ps_Breakdown input)"
      "in_int64 (bd_PrincipalCents (ps_Breakdown input) + bd_GrossReturnCents (ps_Breakdown input))"
      "0 < bd_PlatformFeeCents (ps_Breakdown input)" "0 < bd_WithholdingTaxCents (ps_Breakdown input)"
      "length (bd_Currency (ps_Breakdown input)) \<le> 3"
  shows "completes E k (PostSettlement L E input) st"
proof -
  let ?job = "ps_JobID input" and ?lines = "buildPostingLines L (ps_InvestorID input) (ps_Breakdown input)"
  let ?g = "EntryGroupIDFromJob L ?job"
  have none: "GetLedgerEntryGroupIDByJobID ?job E u (tx_db st) = NoRows" for u
    using d(3) by (simp add: GetLedgerEntryGroupIDByJobID_NoRows)
  obtain st1 where st1: "run_stmt E (GetLedgerEntryGroupIDByJobID ?job) st = (Inl PgxErrNoRows, st1)" "ready E (9 + k) st1" "tx_db st1 = tx_db st"
    by (rule run_stmt_NoRows [where q = "GetLedgerEntryGroupIDByJobID ?job", OF E(1) _ none, of "9 + k"]) (use E(2) in simp_all)
  have none1: "GetLedgerEntryGroupIDByJobID ?job E u (tx_db st1) = NoRows" for u using none st1(3) by simp
  obtain st2 where st2: "run_stmt E (GetLedgerEntryGroupIDByJobID ?job) st1 = (Inl PgxErrNoRows, st2)" "ready E (8 + k) st2" "tx_db st2 = tx_db st"
    by (rule run_stmt_NoRows [where q = "GetLedgerEntryGroupIDByJobID ?job", OF E(1) _ none1, of "8 + k"]) (use st1(2,3) in simp_all)
  have four: "length ?lines = 4" using b(4,5) by (simp add: buildPostingLines_def Let_def)
  have "taken (tx_db st2) ?g = {}" using d(4) st2(3) by (auto simp: taken_def)
  then have "completes E k (mapE (post_line E ?job ?g) ?lines) st2"
    using posting_lines_ok [OF b(2-6)] d(1,2) st2 four by (intro completes_post_lines [OF E(1)]) auto
  then obtain es st' where es: "mapE (post_line E ?job ?g) ?lines st2 = (Inr es, st')" "ready E k st'" by (rule completesE)
  have "validateBalanced ?lines = Inr ()" using validateBalanced_four [OF b(3,2)] b(4,5) by simp
  moreover have "LedgerRepo_GetEntryGroupID E ?job st = (Inl ErrNotFound, st1)"
    using st1(1) by (simp add: LedgerRepo_GetEntryGroupID_def noRowsAs_def tryE_def failE_def)
  moreover have "LedgerRepo_PostEntries L E ?job ?g ?lines st1 = (Inr es, st')"
    using st2(1) es(1) by (simp add: LedgerRepo_PostEntries_def tryE_def)
  ultimately have "PostSettlement L E input st = (Inr es, st')"
    using b(1) ids by (simp add: PostSettlement_def tryE_def IsNotFound_def Let_def)
  with es(2) show ?thesis by (auto simp: completes_def does_def)
qed

section \<open>The worker\<close>

text \<open>The call the worker will make for a job, and when it pays: the gateway accepts it with a reference nobody has.\<close>

definition next_input :: "db \<Rightarrow> SettlementJob \<Rightarrow> Investment \<Rightarrow> ExecuteInput" where
  "next_input d j v = \<lparr>ei_JobID = sj_ID j, ei_AttemptNumber = next_attempt d (sj_ID j),
     ei_SimulationProfile = inv_SimulationProfile v, ei_NetPayoutCents = sj_NetPayoutCents j\<rparr>"

definition gateway_pays :: "Gateway \<Rightarrow> db \<Rightarrow> SettlementJob \<Rightarrow> Investment \<Rightarrow> bool" where
  "gateway_pays gw d j v \<longleftrightarrow> pr_Err (gw (next_input d j v)) = None
     \<and> (\<forall>k \<in> set (settlement_jobs d). sj_PayoutReference k \<noteq> Some (pr_PayoutReference (gw (next_input d j v))))
     \<and> (\<forall>a \<in> set (payout_attempts d). pa_PayoutReference a \<noteq> Some (pr_PayoutReference (gw (next_input d j v))))"

text \<open>The amounts of a job can be posted: they conserve money, and neither the fee nor the tax is zero.\<close>

definition postable :: "SettlementJob \<Rightarrow> Investment \<Rightarrow> bool" where
  "postable j v \<longleftrightarrow> Breakdown_Validate (job_breakdown j (inv_Currency v)) = Inr ()
     \<and> in_int64 (sj_PrincipalCents j + sj_GrossReturnCents j) \<and> 0 < sj_PlatformFeeCents j \<and> 0 < sj_WithholdingTaxCents j
     \<and> length (inv_Currency v) \<le> 3 \<and> sj_ID j \<noteq> uuid_Nil \<and> inv_InvestorID v \<noteq> uuid_Nil"

text \<open>The tables are ready for the payment of \<open>j\<close>.\<close>

definition due_for_payment :: "golib \<Rightarrow> db \<Rightarrow> SettlementJob \<Rightarrow> Investment \<Rightarrow> bool" where
  "due_for_payment L d j v \<longleftrightarrow> schema_ok d \<and> v \<in> set (investments d) \<and> inv_ID v = sj_InvestmentID j
     \<and> in_int32 (next_attempt d (sj_ID j)) \<and> in_int32 (sj_RetryCount j) \<and> entries_of d (sj_ID j) = []
     \<and> EntryGroupIDFromJob L (sj_ID j) \<noteq> uuid_Nil
     \<and> (\<forall>e \<in> set (ledger_entries d). le_EntryGroupID e \<noteq> EntryGroupIDFromJob L (sj_ID j))
     \<and> (\<exists>m \<in> set (maturity_schedules d). ms_ID m = sj_MaturityScheduleID j \<and> ms_Status m = MaturityStatusPending)"

text \<open>An update of the attempt in flight, which is the last row of its table.\<close>

lemma update_attempt_last:
  assumes "payout_attempts d = as @ [a]" "pa_ID a \<notin> pa_ID ` set as" "pa_Status a = PayoutAttemptStatusStarted"
    "\<forall>b \<in> set as. pa_PayoutReference (f a) = None \<or> pa_PayoutReference b \<noteq> pa_PayoutReference (f a)"
  shows "update_attempt (pa_ID a) f d = Rows (f a) (d\<lparr>payout_attempts := as @ [f a]\<rparr>)"
proof -
  have "find (\<lambda>b. pa_ID b = pa_ID a \<and> pa_Status b = PayoutAttemptStatusStarted) (as @ [a]) = Some a"
    using assms(2,3) by (intro find_uniqueI) (auto simp: image_iff)
  moreover have "map (\<lambda>b. if pa_ID b = pa_ID a then f a else b) as = as"
    using assms(2) by (intro map_if_id) (auto simp: image_iff)
  ultimately show ?thesis using assms(1,4) by (auto simp: update_attempt_def)
qed

lemma does_finish_attempt:
  assumes "healthy E" "ready E (Suc k) st" "payout_attempts (tx_db st) = as @ [a]" "pa_ID a \<notin> pa_ID ` set as"
    "pa_Status a = PayoutAttemptStatusStarted" "\<forall>b \<in> set as. pa_PayoutReference b \<noteq> Some ref"
  shows "does E k (PayoutAttemptRepo_MarkSucceeded E (pa_ID a) ref) st (attempt_succeeded E ref a)
    ((tx_db st)\<lparr>payout_attempts := as @ [attempt_succeeded E ref a]\<rparr>)"
proof -
  have "update_attempt (pa_ID a) (attempt_succeeded E ref) (tx_db st) = Rows (attempt_succeeded E ref a) ((tx_db st)\<lparr>payout_attempts := as @ [attempt_succeeded E ref a]\<rparr>)"
    using assms(6) by (intro update_attempt_last [OF assms(3-5)]) (simp add: attempt_succeeded_def)
  moreover have "row_ids ((tx_db st)\<lparr>payout_attempts := as @ [attempt_succeeded E ref a]\<rparr>) = row_ids (tx_db st)"
    using assms(3) by (simp add: row_ids_def attempt_succeeded_def)
  ultimately show ?thesis unfolding PayoutAttemptRepo_MarkSucceeded_def
    by (intro does_noRowsAs does_stmt [OF assms(1,2)]) (auto simp: FinishPayoutAttemptSuccess_def)
qed

lemma does_fail_attempt:
  assumes "healthy E" "ready E (Suc k) st" "payout_attempts (tx_db st) = as @ [a]" "pa_ID a \<notin> pa_ID ` set as"
    "pa_Status a = PayoutAttemptStatusStarted" "pa_PayoutReference a = None" "error_class_valid c"
  shows "does E k (PayoutAttemptRepo_MarkFailed E (pa_ID a) msg c) st (attempt_failed E msg c a)
    ((tx_db st)\<lparr>payout_attempts := as @ [attempt_failed E msg c a]\<rparr>)"
proof -
  have "update_attempt (pa_ID a) (attempt_failed E msg c) (tx_db st) = Rows (attempt_failed E msg c a) ((tx_db st)\<lparr>payout_attempts := as @ [attempt_failed E msg c a]\<rparr>)"
    using assms(6) by (intro update_attempt_last [OF assms(3-5)]) (simp add: attempt_failed_def)
  moreover have "row_ids ((tx_db st)\<lparr>payout_attempts := as @ [attempt_failed E msg c a]\<rparr>) = row_ids (tx_db st)"
    using assms(3) by (simp add: row_ids_def attempt_failed_def)
  ultimately show ?thesis unfolding PayoutAttemptRepo_MarkFailed_def using assms(7)
    by (intro does_noRowsAs does_stmt [OF assms(1,2)]) (auto simp: FinishPayoutAttemptFailure_def)
qed

text \<open>An update of the job in flight.\<close>

lemma update_job_claimed:
  assumes d': "settlement_jobs d' = settlement_jobs (replace_job (claimed E w j) d)" and j: "jobs_ok d" "j \<in> set (settlement_jobs d)"
    and f: "job_checks (f (claimed E w j))" "in_int32 (sj_RetryCount (f (claimed E w j)))"
      "\<And>k. k \<in> set (settlement_jobs d) \<Longrightarrow> sj_ID k \<noteq> sj_ID j \<Longrightarrow> \<not> job_clash (f (claimed E w j)) k"
  shows "update_job (sj_ID j) SettlementJobStatusProcessing f d' = Rows (f (claimed E w j)) (replace_job (f (claimed E w j)) d')"
proof -
  have id: "sj_ID (claimed E w j) = sj_ID j" by simp
  note set = set_replace_job [OF j(2) id]
  have "find (\<lambda>k. sj_ID k = sj_ID j \<and> sj_Status k = SettlementJobStatusProcessing) (settlement_jobs d') = Some (claimed E w j)"
    unfolding d' by (intro find_uniqueI) (auto simp: set)
  moreover have "\<not> job_clash (f (claimed E w j)) k" if "k \<in> set (settlement_jobs d')" "sj_ID k \<noteq> sj_ID j" for k
    using that f(3) unfolding d' by (auto simp: set)
  ultimately show ?thesis using f(1,2) by (auto simp: update_job_def)
qed

lemma does_mark_succeeded:
  assumes E: "healthy E" "ready E (Suc k) st" and d: "settlement_jobs (tx_db st) = settlement_jobs (replace_job (claimed E w j) d)"
    and j: "jobs_ok d" "j \<in> set (settlement_jobs d)" "in_int32 (sj_RetryCount j)" "\<forall>k \<in> set (settlement_jobs d). sj_PayoutReference k \<noteq> Some ref"
  shows "\<exists>js. does E k (SettlementJobRepo_MarkSucceeded E (sj_ID j) ref) st (job_succeeded E ref (claimed E w j))
    ((tx_db st)\<lparr>settlement_jobs := js\<rparr>)"
proof -
  let ?j' = "job_succeeded E ref (claimed E w j)"
  have "\<not> job_clash ?j' k" if "k \<in> set (settlement_jobs d)" "sj_ID k \<noteq> sj_ID j" for k
  proof -
    have "\<not> job_clash j k" "sj_PayoutReference k \<noteq> Some ref" using that j by (auto simp: jobs_ok_def)
    then show ?thesis by (auto simp: job_clash_def job_succeeded_def claimed_def)
  qed
  then have "update_job (sj_ID j) SettlementJobStatusProcessing (job_succeeded E ref) (tx_db st) = Rows ?j' (replace_job ?j' (tx_db st))"
    using j(1-3) by (intro update_job_claimed [OF d j(1,2)]) (auto simp: jobs_ok_def job_checks_def job_succeeded_def claimed_def)
  then have "does E k (SettlementJobRepo_MarkSucceeded E (sj_ID j) ref) st ?j' (replace_job ?j' (tx_db st))"
    unfolding SettlementJobRepo_MarkSucceeded_def by (intro does_noRowsAs does_stmt [OF E]) (auto simp: MarkJobSucceeded_def)
  then show ?thesis by (auto simp: replace_job_def)
qed

lemma does_mark_failed:
  assumes E: "healthy E" "ready E (Suc k) st" and d: "settlement_jobs (tx_db st) = settlement_jobs (replace_job (claimed E w j) d)"
    and j: "jobs_ok d" "j \<in> set (settlement_jobs d)" "in_int32 (sj_RetryCount j + 1)"
  shows "\<exists>d'. does E k (SettlementJobRepo_MarkFailedRetryable E (sj_ID j) t msg) st (job_failed E (timestamptz t) msg (claimed E w j)) d'"
proof -
  let ?j' = "job_failed E (timestamptz t) msg (claimed E w j)"
  have "\<not> job_clash ?j' k" if "k \<in> set (settlement_jobs d)" "sj_ID k \<noteq> sj_ID j" for k
    using that j(1,2) by (auto simp: jobs_ok_def job_clash_def job_failed_def claimed_def)
  then have "update_job (sj_ID j) SettlementJobStatusProcessing (job_failed E (timestamptz t) msg) (tx_db st) = Rows ?j' (replace_job ?j' (tx_db st))"
    using j by (intro update_job_claimed [OF d j(1,2)]) (auto simp: jobs_ok_def job_checks_def job_failed_def claimed_def)
  then have "does E k (SettlementJobRepo_MarkFailedRetryable E (sj_ID j) t msg) st ?j' (replace_job ?j' (tx_db st))"
    unfolding SettlementJobRepo_MarkFailedRetryable_def by (intro does_noRowsAs does_stmt [OF E]) (auto simp: MarkJobFailedRetryable_def)
  then show ?thesis ..
qed

lemma does_mark_dead:
  assumes E: "healthy E" "ready E (Suc k) st" and d: "settlement_jobs (tx_db st) = settlement_jobs (replace_job (claimed E w j) d)"
    and j: "jobs_ok d" "j \<in> set (settlement_jobs d)" "in_int32 (sj_RetryCount j)" "error_class_valid c"
  shows "\<exists>d'. does E k (SettlementJobRepo_MarkDeadLetter E (sj_ID j) reason msg c) st (job_dead E reason msg c (claimed E w j)) d'"
proof -
  let ?j' = "job_dead E reason msg c (claimed E w j)"
  have "\<not> job_clash ?j' k" if "k \<in> set (settlement_jobs d)" "sj_ID k \<noteq> sj_ID j" for k
    using that j(1,2) by (auto simp: jobs_ok_def job_clash_def job_dead_def claimed_def)
  then have "update_job (sj_ID j) SettlementJobStatusProcessing (job_dead E reason msg c) (tx_db st) = Rows ?j' (replace_job ?j' (tx_db st))"
    using j by (intro update_job_claimed [OF d j(1,2)]) (auto simp: jobs_ok_def job_checks_def job_dead_def claimed_def)
  then have "does E k (SettlementJobRepo_MarkDeadLetter E (sj_ID j) reason msg c) st ?j' (replace_job ?j' (tx_db st))"
    unfolding SettlementJobRepo_MarkDeadLetter_def using j(4) by (intro does_noRowsAs does_stmt [OF E]) (auto simp: MarkJobDeadLetter_def)
  then show ?thesis ..
qed

lemma does_mark_settled:
  assumes "healthy E" "ready E (Suc k) st" "m \<in> set (maturity_schedules (tx_db st))" "ms_ID m = i" "ms_Status m = MaturityStatusPending"
  shows "\<exists>x ms. does E k (MaturityRepo_MarkSettled E i) st x ((tx_db st)\<lparr>maturity_schedules := ms\<rparr>)"
proof -
  have "find (\<lambda>m. ms_ID m = i \<and> (ms_Status m = MaturityStatusPending \<or> ms_Status m = MaturityStatusProcessing))
      (maturity_schedules (tx_db st)) \<noteq> None"
    using assms(3-5) by (auto simp: find_None_iff)
  then obtain x ms where "\<And>u. MarkMaturitySettled i E u (tx_db st) = Rows x ((tx_db st)\<lparr>maturity_schedules := ms\<rparr>)"
    by (auto simp: MarkMaturitySettled_def)
  then have "does E k (MaturityRepo_MarkSettled E i) st x ((tx_db st)\<lparr>maturity_schedules := ms\<rparr>)"
    unfolding MaturityRepo_MarkSettled_def by (intro does_noRowsAs does_stmt [OF assms(1,2)]) auto
  then show ?thesis by blast
qed

lemma completes_transition:
  assumes "healthy E" "ready E (Suc k) st" "i \<noteq> uuid_Nil" "a \<noteq> []"
  shows "completes E k (bindE (PublishJobTransition E i a w det) (\<lambda>_. updProc f)) st"
proof -
  obtain v d where "does E k (PublishJobTransition E i a w det) st v d" using does_PublishJobTransition [OF assms] by blast
  then show ?thesis by (rule completes_bind) (rule does_completes, rule does_updProc)
qed

lemma completes_announced:
  assumes "healthy E" "ready E (Suc (Suc k)) st" "i \<noteq> uuid_Nil" "g \<noteq> uuid_Nil" "a \<noteq> []"
  shows "completes E k (bindE (PublishLedgerPosted L E i g w n) (\<lambda>_. bindE (PublishJobTransition E i a w det) (\<lambda>_. updProc f))) st"
proof -
  obtain v d where "does E (Suc k) (PublishLedgerPosted L E i g w n) st v d" using does_PublishLedgerPosted [OF assms(1,2,4)] by blast
  then show ?thesis by (rule completes_bind) (rule completes_transition [OF assms(1) _ assms(3,5)])
qed

lemma completes_settled:
  assumes "healthy E" "ready E (Suc (Suc (Suc k))) st" "m \<in> set (maturity_schedules (tx_db st))" "ms_ID m = y" "ms_Status m = MaturityStatusPending"
    "i \<noteq> uuid_Nil" "g \<noteq> uuid_Nil" "a \<noteq> []"
  shows "completes E k (bindE (MaturityRepo_MarkSettled E y) (\<lambda>_. bindE (PublishLedgerPosted L E i g w n) (\<lambda>_.
    bindE (PublishJobTransition E i a w det) (\<lambda>_. updProc f)))) st"
proof -
  obtain x ms where "does E (Suc (Suc k)) (MaturityRepo_MarkSettled E y) st x ((tx_db st)\<lparr>maturity_schedules := ms\<rparr>)"
    using does_mark_settled [OF assms(1-5)] by blast
  then show ?thesis by (rule completes_bind) (rule completes_announced [OF assms(1) _ assms(6-8)])
qed

lemma completes_finishSuccess:
  assumes E: "healthy E" "ready E (5 + k) st"
    and d: "settlement_jobs (tx_db st) = settlement_jobs (replace_job (claimed E w j) d)" "payout_attempts (tx_db st) = payout_attempts d @ [a]"
      "maturity_schedules (tx_db st) = maturity_schedules d"
    and f: "flight_ok E d j v a" and p: "due_for_payment (wp_lib P) d j v" "sj_ID j \<noteq> uuid_Nil"
    and ref: "\<forall>k \<in> set (settlement_jobs d). sj_PayoutReference k \<noteq> Some ref" "\<forall>b \<in> set (payout_attempts d). pa_PayoutReference b \<noteq> Some ref"
  shows "completes E k (finishSuccess P E (claimed E w j) a (sj_ID j) ref w es) st"
proof -
  note fd = flight_okD [OF f]
  from p(1) obtain m where m: "m \<in> set (maturity_schedules d)" "ms_ID m = sj_MaturityScheduleID j" "ms_Status m = MaturityStatusPending"
      and g: "EntryGroupIDFromJob (wp_lib P) (sj_ID j) \<noteq> uuid_Nil" and rc: "in_int32 (sj_RetryCount j)" by (auto simp: due_for_payment_def)
  have name: "ActionSettlementJobSucceeded \<noteq> []" by (simp add: audit_names)
  have 1: "does E (4 + k) (PayoutAttemptRepo_MarkSucceeded E (pa_ID a) ref) st (attempt_succeeded E ref a)
      ((tx_db st)\<lparr>payout_attempts := payout_attempts d @ [attempt_succeeded E ref a]\<rparr>)"
    using does_finish_attempt [OF E(1) _ d(2) fd(6,7) ref(2), of "4 + k"] E(2) by simp
  have 2: "\<exists>js. does E (3 + k) (SettlementJobRepo_MarkSucceeded E (sj_ID j) ref) s1 (job_succeeded E ref (claimed E w j)) ((tx_db s1)\<lparr>settlement_jobs := js\<rparr>)"
    if "ready E (4 + k) s1" "tx_db s1 = (tx_db st)\<lparr>payout_attempts := payout_attempts d @ [attempt_succeeded E ref a]\<rparr>" for s1
    by (rule does_mark_succeeded [OF E(1) _ _ fd(1,5) rc ref(1)]) (use that in \<open>simp_all add: d(1)\<close>)
  have rest: "completes E k (bindE (SettlementJobRepo_MarkSucceeded E (sj_ID j) ref) (\<lambda>_. bindE (MaturityRepo_MarkSettled E (sj_MaturityScheduleID j)) (\<lambda>_.
     bindE (PublishLedgerPosted (wp_lib P) E (sj_ID j) (EntryGroupIDFromJob (wp_lib P) (sj_ID j)) w (int (length es))) (\<lambda>_.
     bindE (PublishJobTransition E (sj_ID j) ActionSettlementJobSucceeded w [(''payout_reference'', JStr ref)]) (\<lambda>_. updProc inc_succeeded))))) s1"
    if s1: "ready E (4 + k) s1" "tx_db s1 = (tx_db st)\<lparr>payout_attempts := payout_attempts d @ [attempt_succeeded E ref a]\<rparr>" for s1
  proof -
    obtain js where js: "does E (3 + k) (SettlementJobRepo_MarkSucceeded E (sj_ID j) ref) s1 (job_succeeded E ref (claimed E w j)) ((tx_db s1)\<lparr>settlement_jobs := js\<rparr>)"
      using 2 [OF s1] by blast
    show ?thesis
      by (rule completes_bind [OF js], rule completes_settled [where m = m, OF E(1) _ _ m(2,3) p(2) g name])
         (use m(1) s1(2) d(3) in \<open>simp_all add: numeral_3_eq_3\<close>)
  qed
  show ?thesis unfolding finishSuccess_def Let_def claimed_simps by (rule completes_bind [OF 1], rule rest)
qed

text \<open>Paying: the posting, then the end of the run.\<close>

lemma completes_completeSuccess:
  assumes E: "healthy E" "ready E (15 + k) st" and st: "tx_db st = in_flight E w d j a vs"
    and f: "flight_ok E d j v a" and p: "due_for_payment (wp_lib P) d j v" "postable j v"
    and ref: "\<forall>k \<in> set (settlement_jobs d). sj_PayoutReference k \<noteq> Some ref" "\<forall>b \<in> set (payout_attempts d). pa_PayoutReference b \<noteq> Some ref"
  shows "completes E k (completeSuccess P E (claimed E w j) a (inv_InvestorID v) (sj_ID j) (inv_Currency v) ref w) st"
proof -
  note fd = flight_okD [OF f]
  let ?b = "job_breakdown j (inv_Currency v)"
  let ?in = "\<lparr>ps_JobID = sj_ID j, ps_InvestorID = inv_InvestorID v, ps_Breakdown = ?b\<rparr>"
  have rng: "job_range j" using fd(1,5) by (auto simp: jobs_ok_def)
  have b: "Breakdown_Validate ?b = Inr ()" "in_int64 (bd_PrincipalCents ?b + bd_GrossReturnCents ?b)" "0 < bd_PlatformFeeCents ?b"
      "0 < bd_WithholdingTaxCents ?b" "length (bd_Currency ?b) \<le> 3" and ids: "sj_ID j \<noteq> uuid_Nil" "inv_InvestorID v \<noteq> uuid_Nil"
    using p(2) by (auto simp: postable_def job_breakdown_def)
  have ok: "breakdown_amounts_ok ?b"
    using Breakdown_Validate_iff [of ?b "()"] b(1,2) rng by (simp add: job_range_def job_breakdown_def)
  have "sj_ID ` set (settlement_jobs (replace_job (claimed E w j) d)) = sj_ID ` set (settlement_jobs d)"
    using replace_job_ids [of "claimed E w j" d] by (metis set_map)
  with fd(4) have led: "ledger_ok (tx_db st)" unfolding st ledger_ok_def in_flight_def by simp
  have jobs: "settlement_jobs (tx_db st) = settlement_jobs (replace_job (claimed E w j) d)"
      "payout_attempts (tx_db st) = payout_attempts d @ [a]" "maturity_schedules (tx_db st) = maturity_schedules d"
      "ledger_entries (tx_db st) = ledger_entries d"
    by (simp_all add: st in_flight_def)
  have mem: "sj_ID j \<in> sj_ID ` set (settlement_jobs (tx_db st))"
    unfolding jobs(1) using set_replace_job [OF fd(5), of "claimed E w j"] by force
  have "completes E (5 + k) (PostSettlement (wp_lib P) E ?in) st"
    by (rule completes_PostSettlement [OF E(1) _ led])
       (use E(2) mem p(1) ids b ok in \<open>auto simp: due_for_payment_def entries_of_def jobs(4)\<close>)
  then obtain es st1 where es: "PostSettlement (wp_lib P) E ?in st = (Inr es, st1)" "ready E (5 + k) st1" by (rule completesE)
  from PostSettlement_ok(4) [OF es(1) led] have "settlement_jobs (tx_db st1) = settlement_jobs (tx_db st)"
      "payout_attempts (tx_db st1) = payout_attempts (tx_db st)" "maturity_schedules (tx_db st1) = maturity_schedules (tx_db st)"
    by (auto simp: posting_outcome_def ledger_step_def split: if_splits)
  with jobs have "completes E k (finishSuccess P E (claimed E w j) a (sj_ID j) ref w es) st1"
    by (intro completes_finishSuccess [OF E(1) es(2) _ _ _ f p(1) ids(1) ref]) simp_all
  moreover have "completeSuccess P E (claimed E w j) a (inv_InvestorID v) (sj_ID j) (inv_Currency v) ref w st
      = finishSuccess P E (claimed E w j) a (sj_ID j) ref w es st1"
    using b(1) es(1) by (simp add: completeSuccess_def tryE_def)
  ultimately show ?thesis by (simp add: completes_def does_def)
qed

text \<open>Failing: the attempt is closed, and the job waits for its next attempt or is dead.\<close>

definition failure_class :: "payout_Result \<Rightarrow> ErrorClass" where
  "failure_class r = (if pr_ErrorClass r = ErrorClassRaw [] then ErrorClassTransient else pr_ErrorClass r)"

lemma NextRetryAt_total: "0 \<le> n \<Longrightarrow> \<exists>t. NextRetryAt p seed n now = Some t"
  by (simp add: NextRetryAt_def Let_def)

lemma completes_handleFailure:
  assumes E: "healthy E" "ready E (3 + k) st" and st: "tx_db st = in_flight E w d j a vs"
    and f: "flight_ok E d j v a" and p: "sj_ID j \<noteq> uuid_Nil" "in_int32 (sj_RetryCount j + 1)" "0 \<le> sj_RetryCount j"
    and c: "error_class_valid (failure_class res)"
  shows "completes E k (handleFailure P E (claimed E w j) a (sj_ID j) w err (pr_ErrorClass res)) st"
proof -
  note fd = flight_okD [OF f]
  let ?c = "failure_class res" and ?msg = "error_text err"
  have ref: "pa_PayoutReference a = None" using f by (auto simp: flight_ok_def new_attempt_def)
  have att: "payout_attempts (tx_db st) = payout_attempts d @ [a]" by (simp add: st in_flight_def)
  have "does E (2 + k) (PayoutAttemptRepo_MarkFailed E (pa_ID a) ?msg ?c) st (attempt_failed E ?msg ?c a)
      ((tx_db st)\<lparr>payout_attempts := payout_attempts d @ [attempt_failed E ?msg ?c a]\<rparr>)"
    by (rule does_fail_attempt [OF E(1) _ att fd(6,7) ref c]) (use E(2) in \<open>simp add: numeral_3_eq_3\<close>)
  note 1 = this
  have names: "ActionSettlementJobDeadLetter \<noteq> []" "ActionSettlementJobFailed \<noteq> []" by (simp_all add: audit_names)
  have rc: "in_int32 (sj_RetryCount j)" using p(2,3) by (auto simp: in_int32_def)
  have dead: "completes E k (deadLetter P E (claimed E w j) (sj_ID j) w err ?c) s1"
    if s1: "ready E (2 + k) s1" "settlement_jobs (tx_db s1) = settlement_jobs (replace_job (claimed E w j) d)" for s1
  proof -
    obtain d' where "does E (Suc k) (SettlementJobRepo_MarkDeadLetter E (sj_ID j)
        (if ?c \<noteq> ErrorClassTerminal then ''max retries exceeded'' else ''terminal payout failure'') ?msg ?c) s1
        (job_dead E (if ?c \<noteq> ErrorClassTerminal then ''max retries exceeded'' else ''terminal payout failure'') ?msg ?c (claimed E w j)) d'"
      using does_mark_dead [OF E(1) _ s1(2) fd(1,5) rc c, of "Suc k"] s1(1) by auto
    then show ?thesis unfolding deadLetter_def Let_def claimed_simps
      by (rule completes_bind) (rule completes_transition [OF E(1) _ p(1) names(1)])
  qed
  have retry: "completes E k (scheduleRetry P E (claimed E w j) a (sj_ID j) w err) s1"
    if s1: "ready E (2 + k) s1" "settlement_jobs (tx_db s1) = settlement_jobs (replace_job (claimed E w j) d)" for s1
  proof -
    obtain t where t: "NextRetryAt (wp_retry P) (jitter E) (sj_RetryCount j) (go_now E) = Some t" using NextRetryAt_total [OF p(3)] by blast
    obtain d' where "does E (Suc k) (SettlementJobRepo_MarkFailedRetryable E (sj_ID j) t ?msg) s1
        (job_failed E (timestamptz t) ?msg (claimed E w j)) d'"
      using does_mark_failed [OF E(1) _ s1(2) fd(1,5) p(2), of "Suc k"] s1(1) by auto
    then have "completes E k (bindE (SettlementJobRepo_MarkFailedRetryable E (sj_ID j) t ?msg) (\<lambda>_.
         bindE (PublishJobTransition E (sj_ID j) ActionSettlementJobFailed w
                  [(''retry_count'', JInt (wrap32 (sj_RetryCount j + 1))), (''next_retry_at'', JTime t),
                   (''error'', JStr ?msg), (''attempt_number'', JInt (pa_AttemptNumber a))]) (\<lambda>_. updProc inc_retried))) s1"
      by (rule completes_bind) (rule completes_transition [OF E(1) _ p(1) names(2)])
    then show ?thesis by (simp add: scheduleRetry_def t claimed_def)
  qed
  show ?thesis unfolding handleFailure_def Let_def failure_class_def [symmetric]
    by (rule completes_bind [OF 1]) (use dead retry in \<open>simp add: st in_flight_def\<close>)
qed

text \<open>Claiming: the job is leased, an attempt started and announced.\<close>

lemma does_Claim:
  assumes "healthy E" "ready E (Suc k) st" "claim_candidate E (tx_db st) = Some j"
  shows "does E k (SettlementJobRepo_Claim E w) st (claimed E w j) (replace_job (claimed E w j) (tx_db st))"
  unfolding SettlementJobRepo_Claim_def
  by (intro does_noRowsAs does_stmt [OF assms(1,2)]) (use assms(3) in \<open>auto simp: ClaimSettlementJob_def\<close>)

lemma does_read:
  assumes "healthy E" "ready E (Suc k) st" "\<And>u. q E u (tx_db st) = Rows x (tx_db st)"
  shows "does E k (run_stmt E q) st x (tx_db st)"
  by (rule does_stmt [OF assms(1,2)]) (use assms(3) in auto)

lemma completes_Start:
  assumes E: "healthy E" "ready E (Suc (Suc k)) st" and d: "in_int32 (next_attempt (tx_db st) i)" "i \<in> sj_ID ` set (settlement_jobs (tx_db st))"
    "attempts_ok (tx_db st)"
  shows "completes E k (PayoutAttemptRepo_Start E i) st"
proof -
  let ?n = "next_attempt (tx_db st) i" and ?d = "tx_db st"
  have bound: "pa_AttemptNumber a < ?n" if "a \<in> set (payout_attempts ?d)" "pa_SettlementJobID a = i" for a
  proof -
    let ?ns = "map pa_AttemptNumber (filter (\<lambda>a. pa_SettlementJobID a = i) (payout_attempts ?d))"
    have "fold max ?ns 0 = Max (set (0 # ?ns))" by (simp only: Max.set_eq_fold)
    moreover have "pa_AttemptNumber a \<le> Max (set (0 # ?ns))" using that by (intro Max_ge) auto
    ultimately show ?thesis by (simp add: next_attempt_def)
  qed
  have pos: "0 < ?n"
  proof -
    have "0 \<le> fold max xs (0::int)" for xs :: "int list"
      by (simp add: Max.set_eq_fold [symmetric] del: Max.set_eq_fold) 
    then show ?thesis by (simp add: next_attempt_def add_nonneg_pos)
  qed
  have 1: "does E (Suc k) (wrapE ''get next attempt number'' [] (run_stmt E (GetNextAttemptNumber i))) st ?n ?d"
    by (intro does_wrap does_read [OF E]) (simp add: GetNextAttemptNumber_def d(1))
  have 2: "completes E k (wrapE ''create payout attempt'' [] (run_stmt E (CreatePayoutAttempt i ?n))) st1"
    if st1: "ready E (Suc k) st1" "tx_db st1 = ?d" for st1
  proof -
    let ?u = "gen_uuid E (tx_stmts st1)"
    have "\<forall>a \<in> set (payout_attempts ?d). pa_ID a \<noteq> ?u" using ready_next [OF st1(1)] st1(2) by (force simp: row_ids_def)
    with bound pos d(2) have "CreatePayoutAttempt i ?n E ?u ?d = Rows (new_attempt i ?n E ?u)
        (?d\<lparr>payout_attempts := payout_attempts ?d @ [new_attempt i ?n E ?u]\<rparr>)"
      by (fastforce simp: CreatePayoutAttempt_def)
    then have "does E k (run_stmt E (CreatePayoutAttempt i ?n)) st1 (new_attempt i ?n E ?u)
        (?d\<lparr>payout_attempts := payout_attempts ?d @ [new_attempt i ?n E ?u]\<rparr>)"
      using st1(2) by (intro does_stmt [OF E(1) st1(1)]) (auto simp: row_ids_def new_attempt_def)
    then show ?thesis by (blast intro: does_wrap does_completes)
  qed
  show ?thesis unfolding PayoutAttemptRepo_Start_def by (rule completes_bind [OF 1], rule 2)
qed

text \<open>The claim in front of a payment: the run reaches the gateway with the job in flight.\<close>

lemma attempts_ok_replace:
  assumes "attempts_ok d"
  shows "attempts_ok (replace_job j d)"
proof -
  have "sj_ID ` set (settlement_jobs (replace_job j d)) = sj_ID ` set (settlement_jobs d)"
    using replace_job_ids [of j d] by (metis set_map)
  with assms show ?thesis unfolding attempts_ok_def by simp
qed

lemma reaches_gateway:
  assumes E: "healthy E" "ready E (5 + k) st" and c: "claim_candidate E (tx_db st) = Some j" and ok: "schema_ok (tx_db st)"
    and v: "v \<in> set (investments (tx_db st))" "inv_ID v = sj_InvestmentID j"
    and n: "in_int32 (next_attempt (tx_db st) (sj_ID j))" "sj_ID j \<noteq> uuid_Nil"
  obtains a ev st' where "flight_ok E (tx_db st) j v a" "execute_input j v a = next_input (tx_db st) j v"
    "ready E k st'" "tx_db st' = in_flight E w (tx_db st) j a [ev]"
    "process_body P E w st = execute_payout P E w (claimed E w j) (sj_ID j) v (inv_InvestorID v) a st'"
proof -
  let ?d = "tx_db st" and ?c = "claimed E w j"
  let ?d1 = "replace_job ?c ?d"
  have j: "j \<in> set (settlement_jobs ?d)" by (rule claim_candidate_SomeD(1) [OF c])
  obtain s1 where s1: "SettlementJobRepo_Claim E w st = (Inr ?c, s1)" "ready E (4 + k) s1" "tx_db s1 = ?d1"
    using does_Claim [OF E(1) _ c, of "4 + k"] E(2) by (auto simp: does_def)
  define s2 where "s2 = s1\<lparr>tx_proc := inc_claimed (tx_proc s1)\<rparr>"
  have s2: "ready E (4 + k) s2" "tx_db s2 = ?d1" using s1 by (simp_all add: s2_def ready_def)
  have "find (\<lambda>x. inv_ID x = sj_InvestmentID j) (investments ?d) = Some v"
    using v ok by (intro find_uniqueI) (auto simp: schema_ok_def maturities_ok_def dest: distinct_map_same_key)
  then have "does E (3 + k) (run_stmt E (GetInvestmentByID (sj_InvestmentID j))) s2 v (tx_db s2)"
    by (intro does_read [OF E(1)]) (use s2(1) in \<open>simp_all add: GetInvestmentByID_def s2(2)\<close>)
  then obtain s3 where s3: "run_stmt E (GetInvestmentByID (sj_InvestmentID j)) s2 = (Inr v, s3)" "ready E (3 + k) s3" "tx_db s3 = ?d1"
    using s2(2) by (auto simp: does_def)
  have "completes E (Suc k) (PayoutAttemptRepo_Start E (sj_ID j)) s3"
  proof (rule completes_Start [OF E(1)])
    show "ready E (Suc (Suc (Suc k))) s3" using s3(2) by (simp add: numeral_3_eq_3)
    show "in_int32 (next_attempt (tx_db s3) (sj_ID j))" using n(1) s3(3) by (simp add: next_attempt_def)
    show "sj_ID j \<in> sj_ID ` set (settlement_jobs (tx_db s3))"
      unfolding s3(3) using set_replace_job [OF j, of ?c] by force
    show "attempts_ok (tx_db s3)" unfolding s3(3) using ok by (simp add: attempts_ok_replace schema_ok_def)
  qed
  then obtain a s4 where s4: "PayoutAttemptRepo_Start E (sj_ID j) s3 = (Inr a, s4)" "ready E (Suc k) s4" by (rule completesE)
  obtain u where a: "a = new_attempt (sj_ID j) (next_attempt ?d (sj_ID j)) E u" "u \<notin> pa_ID ` set (payout_attempts ?d)"
      "tx_db s4 = ?d1\<lparr>payout_attempts := payout_attempts ?d @ [a]\<rparr>"
    using Start_ok [OF s4(1)] s3(3) by (auto simp: next_attempt_def)
  have name: "ActionSettlementJobClaimed \<noteq> []" by (simp add: audit_names)
  obtain ev s5 where s5: "PublishJobTransition E (sj_ID j) ActionSettlementJobClaimed w [(''attempt_number'', JInt (pa_AttemptNumber a))] s4
      = (Inr ev, s5)" "ready E k s5" "tx_db s5 = in_flight E w ?d j a [ev]"
    using does_PublishJobTransition [OF E(1) s4(2) n(2) name, of w "[(''attempt_number'', JInt (pa_AttemptNumber a))]"] a(3)
    by (auto simp: does_def in_flight_def)
  have "process_body P E w st = execute_payout P E w ?c (sj_ID j) v (inv_InvestorID v) a s5"
    using s1(1) s3(1) s4(1) s5(1)
    by (simp add: process_body_def bindE_def tryE_def updProc_def returnE_def liftE_def wrapE_def s2_def [symmetric])
  moreover have "flight_ok E ?d j v a" using ok c v a by (auto simp: flight_ok_def new_attempt_def)
  moreover have "execute_input j v a = next_input ?d j v" by (simp add: execute_input_def next_input_def a(1) new_attempt_def)
  ultimately show thesis using s5(2,3) that by blast
qed

lemma completes_process:
  assumes E: "healthy E" "ready E (20 + k) st" and c: "claim_candidate E (tx_db st) = Some j"
    and p: "due_for_payment (wp_lib P) (tx_db st) j v" "postable j v" "gateway_pays (wp_gateway P) (tx_db st) j v"
  shows "completes E k (process_body P E w) st"
proof -
  have pre: "schema_ok (tx_db st)" "v \<in> set (investments (tx_db st))" "inv_ID v = sj_InvestmentID j"
      "in_int32 (next_attempt (tx_db st) (sj_ID j))" "sj_ID j \<noteq> uuid_Nil"
    using p(1,2) by (auto simp: due_for_payment_def postable_def)
  obtain a ev st' where f: "flight_ok E (tx_db st) j v a" "execute_input j v a = next_input (tx_db st) j v"
    and st': "ready E (15 + k) st'" "tx_db st' = in_flight E w (tx_db st) j a [ev]"
    and run: "process_body P E w st = execute_payout P E w (claimed E w j) (sj_ID j) v (inv_InvestorID v) a st'"
    by (rule reaches_gateway [OF E(1) _ c pre, of "15 + k" w P]) (use E(2) in auto)
  let ?i = "execute_input j v a"
  let ?ref = "pr_PayoutReference (wp_gateway P ?i)"
  define st2 where "st2 = st'\<lparr>tx_proc := (tx_proc st')\<lparr>proc_payouts := proc_payouts (tx_proc st') @ [?i]\<rparr>\<rparr>"
  have st2: "ready E (15 + k) st2" "tx_db st2 = in_flight E w (tx_db st) j a [ev]" using st' by (simp_all add: st2_def ready_def)
  have "pr_Err (wp_gateway P ?i) = None" using p(3) f(2) by (simp add: gateway_pays_def)
  then have "process_body P E w st = completeSuccess P E (claimed E w j) a (inv_InvestorID v) (sj_ID j) (inv_Currency v) ?ref w st2"
    unfolding run by (simp add: execute_payout_def call_gateway_def bindE_def tryE_def updProc_def returnE_def st2_def execute_input_def)
  moreover have "completes E k (completeSuccess P E (claimed E w j) a (inv_InvestorID v) (sj_ID j) (inv_Currency v) ?ref w) st2"
    by (rule completes_completeSuccess [OF E(1) st2 f(1) p(1,2)]) (use p(3) f(2) in \<open>simp_all add: gateway_pays_def\<close>)
  ultimately show ?thesis by (simp add: completes_def does_def)
qed

lemma completes_failing:
  assumes E: "healthy E" "ready E (8 + k) st" and c: "claim_candidate E (tx_db st) = Some j" and ok: "schema_ok (tx_db st)"
    and v: "v \<in> set (investments (tx_db st))" "inv_ID v = sj_InvestmentID j"
    and n: "in_int32 (next_attempt (tx_db st) (sj_ID j))" "sj_ID j \<noteq> uuid_Nil" "in_int32 (sj_RetryCount j + 1)"
    and err: "pr_Err (wp_gateway P (next_input (tx_db st) j v)) = Some err" "error_class_valid (failure_class (wp_gateway P (next_input (tx_db st) j v)))"
  shows "completes E k (process_body P E w) st"
proof -
  obtain a ev st' where f: "flight_ok E (tx_db st) j v a" "execute_input j v a = next_input (tx_db st) j v"
    and st': "ready E (3 + k) st'" "tx_db st' = in_flight E w (tx_db st) j a [ev]"
    and run: "process_body P E w st = execute_payout P E w (claimed E w j) (sj_ID j) v (inv_InvestorID v) a st'"
    by (rule reaches_gateway [OF E(1) _ c ok v n(1,2), of "3 + k" w P]) (use E(2) in auto)
  let ?i = "execute_input j v a"
  define st2 where "st2 = st'\<lparr>tx_proc := (tx_proc st')\<lparr>proc_payouts := proc_payouts (tx_proc st') @ [?i]\<rparr>\<rparr>"
  have st2: "ready E (3 + k) st2" "tx_db st2 = in_flight E w (tx_db st) j a [ev]" using st' by (simp_all add: st2_def ready_def)
  have "process_body P E w st = handleFailure P E (claimed E w j) a (sj_ID j) w err (pr_ErrorClass (wp_gateway P ?i)) st2"
    using err(1) f(2) unfolding run
    by (simp add: execute_payout_def call_gateway_def bindE_def tryE_def updProc_def returnE_def st2_def execute_input_def)
  moreover have "0 \<le> sj_RetryCount j" using flight_okD(1,5) [OF f(1)] by (auto simp: jobs_ok_def job_checks_def)
  then have "completes E k (handleFailure P E (claimed E w j) a (sj_ID j) w err (pr_ErrorClass (wp_gateway P ?i))) st2"
    using err(2) f(2) by (intro completes_handleFailure [OF E(1) st2 f(1) n(2,3)]) simp_all
  ultimately show ?thesis by (simp add: completes_def does_def)
qed

text \<open>A body that completes makes a run that returns, and the run has paid the claimed job or recorded the failure.\<close>

lemma ProcessOne_completes:
  assumes "healthy E" "fresh_ids E 0 n (sys_db s)" "claim_candidate E (sys_db s) = Some j" "schema_ok (sys_db s)"
    "v \<in> set (investments (sys_db s))" "inv_ID v = sj_InvestmentID j"
    "\<And>st. ready E n st \<Longrightarrow> tx_db st = sys_db s \<Longrightarrow> completes E 0 (process_body P E w) st"
  obtains s' a where "ProcessOne P E w s = (Inr (), s')" "flight_ok E (sys_db s) j v a" "execute_input j v a = next_input (sys_db s) j v"
    "if pr_Err (wp_gateway P (next_input (sys_db s) j v)) = None then paid P E w (sys_db s) j v a (sys_db s')
     else errored P E w (sys_db s) j v a (sys_db s')"
proof -
  have "completes E 0 (process_body P E w) (begin_tx s)" using assms(2) by (intro assms(7)) (simp_all add: ready_def)
  then obtain st where st: "process_body P E w (begin_tx s) = (Inr (), st)" "ready E 0 st" by (auto elim: completesE)
  then have run: "ProcessOne P E w s = (Inr (), \<lparr>sys_db = tx_db st, sys_proc = tx_proc st\<rparr>)"
    using assms(1) by (simp add: ProcessOne_def WithTx_Inr healthy_def ready_def)
  from process_body_ok [OF st(1), unfolded begin_tx_simps, OF assms(4)] obtain k u a where f: "flight_ok E (sys_db s) k u a"
      and o: "if pr_Err (wp_gateway P (execute_input k u a)) = None then paid P E w (sys_db s) k u a (tx_db st)
              else errored P E w (sys_db s) k u a (tx_db st)" by metis
  have k: "k = j" using f assms(3) by (simp add: flight_ok_def)
  moreover have u: "u = v" using f assms(4-6) k
    by (auto simp: flight_ok_def schema_ok_def maturities_ok_def dest: distinct_map_same_key)
  moreover have i: "execute_input j v a = next_input (sys_db s) j v"
    using f k by (auto simp: flight_ok_def execute_input_def next_input_def new_attempt_def)
  ultimately show thesis using f o run by (intro that [of _ a]) (auto split: if_splits)
qed

lemma ProcessOne_pays:
  assumes "healthy E" "fresh_ids E 0 20 (sys_db s)" "claim_candidate E (sys_db s) = Some j"
    "due_for_payment (wp_lib P) (sys_db s) j v" "postable j v" "gateway_pays (wp_gateway P) (sys_db s) j v"
  obtains s' a where "ProcessOne P E w s = (Inr (), s')" "flight_ok E (sys_db s) j v a" "execute_input j v a = next_input (sys_db s) j v"
    "paid P E w (sys_db s) j v a (sys_db s')"
proof -
  have v: "schema_ok (sys_db s)" "v \<in> set (investments (sys_db s))" "inv_ID v = sj_InvestmentID j"
    using assms(4) by (auto simp: due_for_payment_def)
  have "completes E 0 (process_body P E w) st" if "ready E 20 st" "tx_db st = sys_db s" for st
    using completes_process [OF assms(1), of 0 st j P v w] assms(3-6) that by simp
  from ProcessOne_completes [OF assms(1-3) v this] show thesis using that assms(6) by (metis gateway_pays_def)
qed

text \<open>A job whose payout fails is put back or dead-lettered by one run.\<close>

lemma ProcessOne_fails:
  assumes "healthy E" "fresh_ids E 0 8 (sys_db s)" "claim_candidate E (sys_db s) = Some j" "schema_ok (sys_db s)"
    "v \<in> set (investments (sys_db s))" "inv_ID v = sj_InvestmentID j" "in_int32 (next_attempt (sys_db s) (sj_ID j))" "sj_ID j \<noteq> uuid_Nil"
    "in_int32 (sj_RetryCount j + 1)" "pr_Err (wp_gateway P (next_input (sys_db s) j v)) = Some err"
    "error_class_valid (failure_class (wp_gateway P (next_input (sys_db s) j v)))"
  obtains s' a where "ProcessOne P E w s = (Inr (), s')" "flight_ok E (sys_db s) j v a" "execute_input j v a = next_input (sys_db s) j v"
    "errored P E w (sys_db s) j v a (sys_db s')"
proof -
  have "completes E 0 (process_body P E w) st" if "ready E 8 st" "tx_db st = sys_db s" for st
    using completes_failing [OF assms(1), of 0 st j v P err w] assms(3-) that by simp
  from ProcessOne_completes [OF assms(1-6) this] show thesis using that assms(10) by (metis option.distinct(1))
qed

end
