(* ===== verification/Liveness.thy ===== *)
theory Liveness
  imports Progress
begin

text \<open>
  The runs of \<open>Progress\<close> in the states the engine visits: what a reachable state gives a worker, and from it that one run of
  \<^verbatim>\<open>ProcessOne\<close> settles the next payable job and that a drain of the pool empties the queue.
\<close>

section \<open>What a reachable state provides\<close>

text \<open>
  What is needed of the identifiers: \<^verbatim>\<open>uuid.UUID.String\<close> prints them differently and the name-based
  identifiers of the entry groups do not collide and are not nil, on the jobs of the tables.
\<close>

definition identifies :: "golib \<Rightarrow> db \<Rightarrow> bool" where
  "identifies L d \<longleftrightarrow> inj (uuid_String L) \<and> inj_on (EntryGroupIDFromJob L) (sj_ID ` set (settlement_jobs d))
     \<and> uuid_Nil \<notin> EntryGroupIDFromJob L ` sj_ID ` set (settlement_jobs d)"

text \<open>A job that a run can take up: fee and tax are positive, no identifier is nil, and the currency fits its column.\<close>

definition accepted :: "db \<Rightarrow> SettlementJob \<Rightarrow> bool" where
  "accepted d j \<longleftrightarrow> 0 < sj_PlatformFeeCents j \<and> 0 < sj_WithholdingTaxCents j \<and> sj_ID j \<noteq> uuid_Nil
     \<and> length (attempts_of d (sj_ID j)) < 2 ^ 31 - 1
     \<and> (\<forall>v \<in> set (investments d). inv_ID v = sj_InvestmentID j \<longrightarrow> inv_InvestorID v \<noteq> uuid_Nil \<and> length (inv_Currency v) \<le> 3)"

text \<open>An accepted job whose next attempt the simulator pays: the profile of its investment does not fail the attempt.\<close>

definition payable :: "db \<Rightarrow> SettlementJob \<Rightarrow> bool" where
  "payable d j \<longleftrightarrow> accepted d j \<and> (\<forall>v \<in> set (investments d). inv_ID v = sj_InvestmentID j \<longrightarrow>
          inv_SimulationProfile v \<noteq> Some ''terminal_failure''
          \<and> (inv_SimulationProfile v = Some ''transient_then_success'' \<longrightarrow> 2 \<le> length (attempts_of d (sj_ID j))))"

lemma Breakdown_Validate_currency:
  assumes "Breakdown_Validate (job_breakdown j c) = Inr ()" "length (TrimSpace c') = 3"
  shows "Breakdown_Validate (job_breakdown j c') = Inr ()"
  using assms by (auto simp: Breakdown_Validate_def job_breakdown_def Let_def split: if_splits)

lemma Calculate_postable:
  assumes "Calculate L s (investment_terms v) = Inr (job_breakdown j c)"
  shows "Breakdown_Validate (job_breakdown j (inv_Currency v)) = Inr ()" "in_int64 (sj_PrincipalCents j + sj_GrossReturnCents j)"
proof -
  from assms obtain g where t: "InvestmentTerms_Validate (investment_terms v) = Inr ()"
      and g: "ProratedReturn (it_PrincipalCents (investment_terms v)) (it_AnnualRateBPS (investment_terms v)) (it_TermDays (investment_terms v)) = Inr g"
      and j: "sj_PrincipalCents j = it_PrincipalCents (investment_terms v)" "sj_GrossReturnCents j = g"
      and b: "Breakdown_Validate (job_breakdown j c) = Inr ()"
    by (auto simp: Calculate_def Let_def job_breakdown_def split: sum.splits)
  from t have v: "0 < it_PrincipalCents (investment_terms v)" "it_PrincipalCents (investment_terms v) \<le> 922337203685477"
      "length (TrimSpace (inv_Currency v)) = 3"
    by (auto simp: InvestmentTerms_Validate_iff investment_terms_def)
  from b v(3) show "Breakdown_Validate (job_breakdown j (inv_Currency v)) = Inr ()" by (rule Breakdown_Validate_currency)
  have "0 \<le> sj_GrossReturnCents j" using b by (auto simp: Breakdown_Validate_def job_breakdown_def cents_defs split: if_splits)
  with v(1,2) ProratedReturn_bound [OF g] show "in_int64 (sj_PrincipalCents j + sj_GrossReturnCents j)"
    unfolding j by (auto simp: in_int64_def)
qed

lemma reachable_postable:
  assumes "reachable G s" "j \<in> set (settlement_jobs (sys_db s))" "accepted (sys_db s) j"
  obtains v where "v \<in> set (investments (sys_db s))" "inv_ID v = sj_InvestmentID j" "postable j v"
proof -
  from reachable_records_ok [OF assms(1)] assms(2) have "priced (sc_orchestrator (en_scheduler G)) (sys_db s) j"
    by (simp add: records_ok_def record_ok_def)
  then obtain v where v: "v \<in> set (investments (sys_db s))" "inv_ID v = sj_InvestmentID j"
      "Calculate (or_lib (sc_orchestrator (en_scheduler G))) (or_calc (sc_orchestrator (en_scheduler G))) (investment_terms v)
         = Inr (job_breakdown j (ToUpper (unicode_ToUpper (or_lib (sc_orchestrator (en_scheduler G)))) (TrimSpace (inv_Currency v))))"
    by (auto simp: priced_def)
  from Calculate_postable [OF v(3)] v(1,2) assms(3) show thesis by (intro that [OF v(1,2)]) (auto simp: postable_def accepted_def)
qed

lemma inv_entry_group:
  assumes "engine_inv L d" "e \<in> set (ledger_entries d)"
  obtains k where "k \<in> set (settlement_jobs d)" "le_SettlementJobID e = sj_ID k" "sj_Status k = SettlementJobStatusSucceeded"
    "le_EntryGroupID e = EntryGroupIDFromJob L (sj_ID k)"
  by (rule inv_entry_posted [OF assms]) (auto simp: posted_def intro: that)

lemma reachable_due:
  assumes r: "reachable G s" and L: "identifies (wp_lib (en_processor G)) (sys_db s)"
    and c: "claim_candidate E (sys_db s) = Some j" and p: "accepted (sys_db s) j"
    and v: "v \<in> set (investments (sys_db s))" "inv_ID v = sj_InvestmentID j"
  shows "due_for_payment (wp_lib (en_processor G)) (sys_db s) j v"
proof -
  let ?L = "wp_lib (en_processor G)" and ?d = "sys_db s"
  have inv: "engine_inv ?L ?d" by (rule reachable_inv [OF r])
  have j: "j \<in> set (settlement_jobs ?d)" "sj_Status j \<noteq> SettlementJobStatusSucceeded"
    using claim_candidate_SomeD(1) [OF c] claim_status [OF c] by auto
  from reachable_records_ok [OF r] j(1) have t: "trail j (attempts_of ?d (sj_ID j))" and w: "awaited ?d j"
    by (auto simp: records_ok_def record_ok_def)
  have rc: "sj_RetryCount j \<le> int (length (attempts_of ?d (sj_ID j)))" using t j(2) by (simp add: trail_def)
  have n: "int (length (attempts_of ?d (sj_ID j))) < 2 ^ 31 - 1" using p by (simp add: accepted_def)
  have "0 \<le> sj_RetryCount j" using inv j(1) by (auto simp: engine_inv_def schema_ok_def jobs_ok_def job_checks_def)
  with rc n trail_next_attempt [OF t] have i32: "in_int32 (next_attempt ?d (sj_ID j))" "in_int32 (sj_RetryCount j)"
    by (auto simp: in_int32_def)
  have "le_EntryGroupID e \<noteq> EntryGroupIDFromJob ?L (sj_ID j)" if e: "e \<in> set (ledger_entries ?d)" for e
  proof -
    obtain k where k: "k \<in> set (settlement_jobs ?d)" "sj_Status k = SettlementJobStatusSucceeded"
        "le_EntryGroupID e = EntryGroupIDFromJob ?L (sj_ID k)" by (rule inv_entry_group [OF inv e])
    have "sj_ID k \<noteq> sj_ID j"
      using inv j k(1,2) by (auto simp: engine_inv_def schema_ok_def jobs_ok_def dest: distinct_map_same_key)
    with L j(1) k(1,3) show ?thesis by (auto simp: identifies_def dest!: inj_onD)
  qed
  moreover have "entries_of ?d (sj_ID j) = []" using inv_entries_iff [OF inv j(1)] j(2) by simp
  moreover have "EntryGroupIDFromJob ?L (sj_ID j) \<noteq> uuid_Nil" using L j(1) by (force simp: identifies_def)
  moreover have "schema_ok ?d" using inv by (simp add: engine_inv_def)
  ultimately show ?thesis using i32 v w j(2) unfolding due_for_payment_def awaited_def by blast
qed

lemma simulator_pays:
  assumes r: "reachable G s" and gw: "wp_gateway (en_processor G) = Simulator_Execute L"
    and L: "inj (uuid_String L)" and c: "claim_candidate E (sys_db s) = Some j" and p: "payable (sys_db s) j"
    and v: "v \<in> set (investments (sys_db s))" "inv_ID v = sj_InvestmentID j"
  shows "gateway_pays (wp_gateway (en_processor G)) (sys_db s) j v"
    "pr_PayoutReference (wp_gateway (en_processor G) (next_input (sys_db s) j v)) = PayoutReference L (sj_ID j)"
proof -
  let ?d = "sys_db s"
  have j: "j \<in> set (settlement_jobs ?d)" "sj_Status j \<noteq> SettlementJobStatusSucceeded"
    using claim_candidate_SomeD(1) [OF c] claim_status [OF c] by auto
  note rec = reachable_records_ok [OF r]
  have t: "trail k (attempts_of ?d (sj_ID k))" if "k \<in> set (settlement_jobs ?d)" for k
    using rec that by (auto simp: records_ok_def record_ok_def)
  have "next_attempt ?d (sj_ID j) = int (length (attempts_of ?d (sj_ID j))) + 1" by (rule trail_next_attempt [OF t [OF j(1)]])
  with p v have "pr_Err (Simulator_Execute L (next_input ?d j v)) = None"
    by (auto simp: payable_def Simulator_Execute_def next_input_def Let_def split: option.splits)
  note pays = this
  then show ref: "pr_PayoutReference (wp_gateway (en_processor G) (next_input ?d j v)) = PayoutReference L (sj_ID j)"
    using Simulator_success_ref [of L "next_input ?d j v"] gw by (simp add: next_input_def)
  have "refs_from (PayoutReference L) ?d"
    by (rule reachable_refs [OF r]) (simp add: gw Simulator_success_ref)
  moreover have "sj_ID k = sj_ID j" if "PayoutReference L (sj_ID k) = PayoutReference L (sj_ID j)" for k
    using that L by (simp add: PayoutReference_def inj_eq)
  moreover have "sj_PayoutReference j = None" using t [OF j(1)] j(2) by (simp add: trail_def)
  ultimately have jobs: "sj_PayoutReference k \<noteq> Some (PayoutReference L (sj_ID j))" if "k \<in> set (settlement_jobs ?d)" for k
    using that j(1) reachable_inv [OF r] unfolding refs_from_def
    by (metis distinct_map_same_key engine_inv_def jobs_ok_def option.discI option.inject schema_ok_def)
  have "pa_PayoutReference a \<noteq> Some (PayoutReference L (sj_ID j))" if a: "a \<in> set (payout_attempts ?d)" for a
  proof -
    from a reachable_inv [OF r] obtain k where k: "k \<in> set (settlement_jobs ?d)" "pa_SettlementJobID a = sj_ID k"
      by (auto simp: engine_inv_def schema_ok_def attempts_ok_def)
    then have "a \<in> set (attempts_of ?d (sj_ID k))" using a by (simp add: attempts_of_def)
    with t [OF k(1)] have "pa_PayoutReference a = None \<or> pa_PayoutReference a = sj_PayoutReference k"
      by (auto simp: trail_def failed_attempt_def list_all_iff split: if_splits)
    with jobs [OF k(1)] show ?thesis by auto
  qed
  with pays jobs ref gw show "gateway_pays (wp_gateway (en_processor G)) ?d j v" by (simp add: gateway_pays_def)
qed

text \<open>The tables after a run, as a client sees them: one job is replaced, and only its attempts have changed.\<close>

definition moves :: "SettlementJob \<Rightarrow> SettlementJob \<Rightarrow> db \<Rightarrow> db \<Rightarrow> bool" where
  "moves j j' d d' \<longleftrightarrow> settlement_jobs d' = settlement_jobs (replace_job j' d) \<and> sj_ID j' = sj_ID j \<and> investments d' = investments d
     \<and> (\<forall>i. i \<noteq> sj_ID j \<longrightarrow> attempts_of d' i = attempts_of d i)"

definition settles :: "SettlementJob \<Rightarrow> db \<Rightarrow> db \<Rightarrow> bool" where
  "settles j d d' \<longleftrightarrow> (\<exists>j'. moves j j' d d' \<and> sj_Status j' = SettlementJobStatusSucceeded)"

lemma moves_others:
  assumes "moves j j' d d'" "k \<in> set (settlement_jobs d)" "sj_ID k \<noteq> sj_ID j"
  shows "k \<in> set (settlement_jobs d')"
  using assms by (force simp: moves_def replace_job_def)

lemma moves_in:
  assumes "moves j j' d d'" "j \<in> set (settlement_jobs d)"
  shows "j' \<in> set (settlement_jobs d')"
  using assms set_replace_job [OF assms(2), of j'] by (simp add: moves_def)

lemma settles_step:
  assumes r: "reachable G s" and gw: "wp_gateway (en_processor G) = Simulator_Execute (wp_lib (en_processor G))"
    and L: "identifies (wp_lib (en_processor G)) (sys_db s)"
    and E: "healthy E" "fresh_ids E 0 20 (sys_db s)" and c: "claim_candidate E (sys_db s) = Some j"
    and p: "payable (sys_db s) j"
  obtains s' j' where "ProcessOne (en_processor G) E w s = (Inr (), s')" "settles j (sys_db s) (sys_db s')"
    "j' \<in> set (settlement_jobs (sys_db s'))" "sj_ID j' = sj_ID j" "sj_Status j' = SettlementJobStatusSucceeded"
    "sj_PayoutReference j' = Some (PayoutReference (wp_lib (en_processor G)) (sj_ID j))"
proof -
  let ?P = "en_processor G" and ?d = "sys_db s"
  have j: "j \<in> set (settlement_jobs ?d)" by (rule claim_candidate_SomeD(1) [OF c])
  have acc: "accepted ?d j" using p by (simp add: payable_def)
  have inj: "inj (uuid_String (wp_lib ?P))" using L by (simp add: identifies_def)
  obtain v where v: "v \<in> set (investments ?d)" "inv_ID v = sj_InvestmentID j" "postable j v"
    by (rule reachable_postable [OF r j acc])
  note pay = simulator_pays [OF r gw inj c p v(1,2)]
  obtain s' a where run: "ProcessOne ?P E w s = (Inr (), s')" and f: "flight_ok E ?d j v a"
      and i: "execute_input j v a = next_input ?d j v" and paid: "paid ?P E w ?d j v a (sys_db s')"
    by (rule ProcessOne_pays [OF E c reachable_due [OF r L c acc v(1,2)] v(3) pay(1)])
  let ?ref = "PayoutReference (wp_lib ?P) (sj_ID j)"
  let ?j' = "job_succeeded E ?ref (claimed E w j)"
  have ref: "pr_PayoutReference (wp_gateway ?P (execute_input j v a)) = ?ref" using pay(2) i by simp
  from paid have d': "settlement_jobs (sys_db s') = settlement_jobs (replace_job ?j' ?d)" "investments (sys_db s') = investments ?d"
      "payout_attempts (sys_db s') = payout_attempts ?d @ [attempt_succeeded E ?ref a]"
    unfolding paid_def Let_def ref by auto
  have "pa_SettlementJobID a = sj_ID j" using f by (auto simp: flight_ok_def new_attempt_def)
  then have "attempts_of (sys_db s') i = attempts_of ?d i" if "i \<noteq> sj_ID j" for i
    using that by (simp add: attempts_of_def d'(3) attempt_succeeded_def)
  with d' have "settles j ?d (sys_db s')" unfolding settles_def moves_def by (intro conjI exI [of _ ?j']) simp_all
  moreover have "?j' \<in> set (settlement_jobs (sys_db s'))" unfolding d'(1) using set_replace_job [OF j, of ?j'] by simp
  ultimately show thesis using run by (intro that [of s' ?j']) (simp_all add: job_succeeded_def claimed_def)
qed

section \<open>The queue\<close>

definition waiting :: "SettlementJob \<Rightarrow> bool" where
  "waiting j \<longleftrightarrow> sj_Status j = SettlementJobStatusPending \<or> sj_Status j = SettlementJobStatusFailed"

definition waiting_jobs :: "db \<Rightarrow> SettlementJob list" where
  "waiting_jobs d = filter waiting (settlement_jobs d)"

text \<open>A worker may claim the job at the time and with the locks of the environment.\<close>

definition available :: "tx_env \<Rightarrow> SettlementJob \<Rightarrow> bool" where
  "available E j \<longleftrightarrow> claimable E j \<and> \<not> row_locked E (sj_ID j)"

lemma claim_candidate_available:
  "claim_candidate E d = None \<longleftrightarrow> (\<forall>j \<in> set (settlement_jobs d). \<not> available E j)"
  "claim_candidate E d = Some j \<Longrightarrow> available E j \<and> j \<in> set (settlement_jobs d) \<and> waiting j"
proof -
  let ?xs = "sort_key (claim_order E) (filter (\<lambda>j. claimable E j \<and> \<not> row_locked E (sj_ID j)) (settlement_jobs d))"
  have set: "set ?xs = {j \<in> set (settlement_jobs d). available E j}" by (auto simp: available_def)
  show "claim_candidate E d = None \<longleftrightarrow> (\<forall>j \<in> set (settlement_jobs d). \<not> available E j)"
    using set by (cases ?xs) (auto simp: claim_candidate_def)
  show "claim_candidate E d = Some j \<Longrightarrow> available E j \<and> j \<in> set (settlement_jobs d) \<and> waiting j"
    using claim_candidate_SomeD [of E d j] by (auto simp: available_def claimable_def waiting_def)
qed

lemma moves_away:
  assumes "moves j j' d d'" "\<not> waiting j'"
  shows "waiting_jobs d' = filter (\<lambda>k. sj_ID k \<noteq> sj_ID j) (waiting_jobs d)"
proof -
  have "filter waiting (map (\<lambda>k. if sj_ID k = sj_ID j then j' else k) ks) = filter (\<lambda>k. sj_ID k \<noteq> sj_ID j) (filter waiting ks)" for ks
    using assms(2) by (induction ks) auto
  with assms(1) show ?thesis by (simp add: moves_def waiting_jobs_def replace_job_def)
qed

lemma settles_waiting:
  assumes "settles j d d'"
  shows "waiting_jobs d' = filter (\<lambda>k. sj_ID k \<noteq> sj_ID j) (waiting_jobs d)"
  using assms moves_away [of j _ d d'] by (auto simp: settles_def waiting_def)

lemma settles_payable:
  assumes "settles j d d'" "payable d k" "sj_ID k \<noteq> sj_ID j"
  shows "payable d' k"
  using assms by (auto simp: settles_def moves_def payable_def accepted_def)

lemma moves_identifies:
  assumes "moves j j' d d'" "identifies L d"
  shows "identifies L d'"
proof -
  from assms(1) have "sj_ID ` set (settlement_jobs d') = sj_ID ` set (settlement_jobs d)"
    by (metis moves_def replace_job_ids set_map)
  with assms(2) show ?thesis by (simp add: identifies_def)
qed

lemma settles_identifies: "settles j d d' \<Longrightarrow> identifies L d \<Longrightarrow> identifies L d'"
  by (auto simp: settles_def intro: moves_identifies)

lemma claim_none_stops:
  assumes "healthy E" "claim_candidate E (sys_db s) = None"
  obtains e s' where "ProcessOne P E w s = (Inl e, s')" "sys_db s' = sys_db s"
proof -
  have "\<exists>e st. process_body P E w (begin_tx s) = (Inl e, st)"
    using assms by (simp add: process_body_def bindE_def tryE_def SettlementJobRepo_Claim_def noRowsAs_def run_stmt_def
        ClaimSettlementJob_def failE_def healthy_def)
  then show thesis using assms(1) that by (auto simp: ProcessOne_def WithTx_def healthy_def)
qed

text \<open>What the environments of a drain must give: nothing fails and the identifiers are new to the tables they meet.\<close>

definition sustains :: "Processor \<Rightarrow> string \<Rightarrow> (nat \<Rightarrow> tx_env) \<Rightarrow> nat \<Rightarrow> sys \<Rightarrow> bool" where
  "sustains P w Es n s \<longleftrightarrow> (\<forall>i < n. healthy (Es i) \<and> fresh_ids (Es i) 0 20 (sys_db (drain_loop P w Es i s)))"

lemma sustains_Suc:
  assumes "sustains P w Es (Suc n) s" "ProcessOne P (Es 0) w s = (Inr (), s')"
  shows "sustains P w (\<lambda>i. Es (Suc i)) n s'"
  unfolding sustains_def
proof (intro allI impI)
  fix i assume "i < n"
  then have "healthy (Es (Suc i)) \<and> fresh_ids (Es (Suc i)) 0 20 (sys_db (drain_loop P w Es (Suc i) s))"
    using assms(1) unfolding sustains_def by blast
  with assms(2) show "healthy (Es (Suc i)) \<and> fresh_ids (Es (Suc i)) 0 20 (sys_db (drain_loop P w (\<lambda>i. Es (Suc i)) i s'))"
    by simp
qed

lemma drain_keeps_succeeded:
  assumes "reachable G s" "j \<in> set (settlement_jobs (sys_db s))" "sj_Status j = SettlementJobStatusSucceeded"
  shows "j \<in> set (settlement_jobs (sys_db (drain_loop P w Es n s)))"
proof -
  have "schema_ok (sys_db s)" using reachable_inv [OF assms(1)] by (simp add: engine_inv_def)
  with schema.drain_loop_keeps [of s P w Es n] have "jobs_evolve (sys_db s) (sys_db (drain_loop P w Es n s))"
    by (simp add: schema_step_def)
  with assms(2,3) show ?thesis unfolding jobs_evolve_def job_evolves_def by metis
qed

lemma drain_loop_settles:
  assumes "reachable G s" "wp_gateway (en_processor G) = Simulator_Execute (wp_lib (en_processor G))"
    "identifies (wp_lib (en_processor G)) (sys_db s)" "sustains (en_processor G) w Es n s"
    "length (waiting_jobs (sys_db s)) \<le> n"
    "\<And>j i. j \<in> set (waiting_jobs (sys_db s)) \<Longrightarrow> i < n \<Longrightarrow> payable (sys_db s) j \<and> available (Es i) j"
  shows "waiting_jobs (sys_db (drain_loop (en_processor G) w Es n s)) = []
    \<and> (\<forall>j \<in> set (waiting_jobs (sys_db s)). \<exists>j' \<in> set (settlement_jobs (sys_db (drain_loop (en_processor G) w Es n s))).
         sj_ID j' = sj_ID j \<and> sj_Status j' = SettlementJobStatusSucceeded)"
  using assms(1,3-)
proof (induction n arbitrary: s Es)
  case (Suc n)
  note h = Suc.prems
  have E: "healthy (Es 0)" "fresh_ids (Es 0) 0 20 (sys_db s)" using h(3) by (auto simp: sustains_def)
  show ?case
  proof (cases "claim_candidate (Es 0) (sys_db s)")
    case None
    then have "waiting_jobs (sys_db s) = []"
      using h(5) [of _ 0] by (auto simp: claim_candidate_available(1) waiting_jobs_def filter_empty_conv)
    moreover obtain e s' where "ProcessOne (en_processor G) (Es 0) w s = (Inl e, s')" "sys_db s' = sys_db s"
      by (rule claim_none_stops [OF E(1) None])
    ultimately show ?thesis by simp
  next
    case (Some j)
    note c = claim_candidate_available(2) [OF Some]
    then have j: "j \<in> set (waiting_jobs (sys_db s))" by (simp add: waiting_jobs_def)
    obtain s' j' where run: "ProcessOne (en_processor G) (Es 0) w s = (Inr (), s')" and st: "settles j (sys_db s) (sys_db s')"
        and j': "j' \<in> set (settlement_jobs (sys_db s'))" "sj_ID j' = sj_ID j" "sj_Status j' = SettlementJobStatusSucceeded"
      by (rule settles_step [OF h(1) assms(2) h(2) E Some]) (use h(5) [OF j, of 0] in auto)
    let ?fin = "drain_loop (en_processor G) w (\<lambda>i. Es (Suc i)) n s'"
    note w = settles_waiting [OF st] c
    have r: "reachable G s'" using reachable.step [OF h(1) engine_step.work, of "Es 0" w] run by simp
    have "length (waiting_jobs (sys_db s')) < length (waiting_jobs (sys_db s))"
      using w j by (auto intro!: length_filter_less)
    moreover have "payable (sys_db s') k \<and> available (Es (Suc i)) k" if "k \<in> set (waiting_jobs (sys_db s'))" "i < n" for k i
      using that w h(5) [of k "Suc i"] settles_payable [OF st, of k] by auto
    ultimately have IH: "waiting_jobs (sys_db ?fin) = [] \<and> (\<forall>k \<in> set (waiting_jobs (sys_db s')).
        \<exists>k' \<in> set (settlement_jobs (sys_db ?fin)). sj_ID k' = sj_ID k \<and> sj_Status k' = SettlementJobStatusSucceeded)"
      using h(4) by (intro Suc.IH r settles_identifies [OF st h(2)] sustains_Suc [OF h(3) run]) auto
    have "j' \<in> set (settlement_jobs (sys_db ?fin))" by (rule drain_keeps_succeeded [OF r j'(1,3)])
    moreover have "k \<in> set (waiting_jobs (sys_db s'))" if "k \<in> set (waiting_jobs (sys_db s))" "sj_ID k \<noteq> sj_ID j" for k
      using that w by simp
    ultimately have "\<exists>k' \<in> set (settlement_jobs (sys_db ?fin)). sj_ID k' = sj_ID k \<and> sj_Status k' = SettlementJobStatusSucceeded"
      if "k \<in> set (waiting_jobs (sys_db s))" for k
      using that IH j'(2,3) by (cases "sj_ID k = sj_ID j") auto
    with IH run show ?thesis by simp
  qed
qed simp

section \<open>One run pays, and a queue is emptied\<close>

text \<open>
  A worker makes progress: in a reachable state, when no statement fails, the twenty identifiers the server gives are new, and the next
  claimable job can be paid, \<^verbatim>\<open>ProcessOne\<close> returns without an error and has settled that job: it is succeeded with the
  reference of the simulator, the ledger has its four entries and its maturity is settled; every other job is as before.
\<close>

theorem ProcessOne_settles:
  assumes "reachable G s" "wp_gateway (en_processor G) = Simulator_Execute (wp_lib (en_processor G))"
    "identifies (wp_lib (en_processor G)) (sys_db s)" "healthy E" "fresh_ids E 0 20 (sys_db s)"
    "claim_candidate E (sys_db s) = Some j" "payable (sys_db s) j"
  shows "\<exists>s' j'. ProcessOne (en_processor G) E w s = (Inr (), s') \<and> j' \<in> set (settlement_jobs (sys_db s'))
    \<and> sj_ID j' = sj_ID j \<and> sj_Status j' = SettlementJobStatusSucceeded
    \<and> sj_PayoutReference j' = Some (PayoutReference (wp_lib (en_processor G)) (sj_ID j))
    \<and> length (entries_of (sys_db s') (sj_ID j)) = 4
    \<and> (\<exists>m \<in> set (maturity_schedules (sys_db s')). ms_ID m = sj_MaturityScheduleID j' \<and> ms_Status m = MaturityStatusSettled)
    \<and> (\<forall>k \<in> set (settlement_jobs (sys_db s)). sj_ID k \<noteq> sj_ID j \<longrightarrow> k \<in> set (settlement_jobs (sys_db s')))"
proof -
  obtain s' j' where run: "ProcessOne (en_processor G) E w s = (Inr (), s')" and st: "settles j (sys_db s) (sys_db s')"
    and j': "j' \<in> set (settlement_jobs (sys_db s'))" "sj_ID j' = sj_ID j" "sj_Status j' = SettlementJobStatusSucceeded"
      "sj_PayoutReference j' = Some (PayoutReference (wp_lib (en_processor G)) (sj_ID j))"
    by (rule settles_step [OF assms])
  have r: "reachable G s'" using reachable.step [OF assms(1) engine_step.work, of E w] run by simp
  note inv = reachable_inv [OF r]
  have "job_inv (wp_lib (en_processor G)) (sys_db s') j'" using inv j'(1) by (simp add: engine_inv_def)
  with j'(3) have "settled (wp_lib (en_processor G)) (sys_db s') j'" by (simp add: job_inv_def)
  with settled_amounts [OF inv j'(1)] j'(2,3) have "length (entries_of (sys_db s') (sj_ID j)) = 4"
      "\<exists>m \<in> set (maturity_schedules (sys_db s')). ms_ID m = sj_MaturityScheduleID j' \<and> ms_Status m = MaturityStatusSettled"
    by (auto simp: settled_def)
  moreover have "k \<in> set (settlement_jobs (sys_db s'))" if "k \<in> set (settlement_jobs (sys_db s))" "sj_ID k \<noteq> sj_ID j" for k
    using st that by (auto simp: settles_def intro: moves_others)
  ultimately show ?thesis using run j' by blast
qed

lemma demo_identifies: "identifies scenario_lib (sys_db (demo_sys1 p))"
proof -
  have "inj (uuid_String scenario_lib)"
  proof (rule injI)
    fix u v assume "uuid_String scenario_lib u = uuid_String scenario_lib v"
    then have "\<forall>i < 128. bit u i = bit v i"
      by (auto simp: scenario_lib_def demo_lib_def map_eq_conv split: if_splits simp del: upt_rec_numeral)
    then show "u = v" by (intro bit_word_eqI) simp
  qed
  then show ?thesis by (simp add: identifies_def demo_sys1_def EntryGroupIDFromJob_def scenario_lib_def)
qed

lemma demo_ready:
  "healthy (demo_env 1)" "fresh_ids (demo_env 1) 0 20 (sys_db (demo_sys1 p))" "payable (sys_db (demo_sys1 None)) demo_job"
  "available (demo_env 1) demo_job" "waiting_jobs (sys_db (demo_sys1 p)) = [demo_job]"
  "claim_candidate (demo_env 1) (sys_db (demo_sys1 p)) = Some demo_job"
proof -
  show "healthy (demo_env 1)" by (simp add: healthy_def)
  have "inj_on (\<lambda>k. of_nat (100 * 1 + k + 100) :: uuid) {0..<20}"
    by (rule inj_onI) (simp add: word_of_nat_eq_iff take_bit_nat_eq_self)
  moreover have "(103 :: uuid) \<noteq> of_nat (100 * 1 + k + 100)" if "k < 20" for k
  proof
    assume "(103 :: uuid) = of_nat (100 * 1 + k + 100)"
    then have "of_nat 103 = (of_nat (100 * 1 + k + 100) :: uuid)" by simp
    then have "103 = 100 * 1 + k + 100"
      unfolding word_of_nat_eq_iff using that by (simp add: take_bit_nat_eq_self del: of_nat_add)
    then show False by simp
  qed
  then have "(\<lambda>k. of_nat (100 * 1 + k + 100)) ` {0..<20} \<inter> {103 :: uuid} = {}" by auto
  ultimately show "fresh_ids (demo_env 1) 0 20 (sys_db (demo_sys1 p))"
    unfolding fresh_ids_def row_ids_def demo_env_def demo_sys1_def demo_db_def demo_created_def by simp
  show av: "available (demo_env 1) demo_job" by (simp add: available_def claimable_def demo_job_def)
  show "payable (sys_db (demo_sys1 None)) demo_job"
    by (simp add: payable_def accepted_def demo_rows attempts_of_def)
  show "waiting_jobs (sys_db (demo_sys1 p)) = [demo_job]" by (simp add: waiting_jobs_def waiting_def demo_sys1_def demo_job_def)
  show "claim_candidate (demo_env 1) (sys_db (demo_sys1 p)) = Some demo_job"
    using av by (simp add: claim_candidate_def demo_sys1_def available_def)
qed

theorem ProcessOne_settles_witness:
  "\<exists>s' j'. ProcessOne (en_processor demo_engine) (demo_env 1) ''w'' (demo_sys1 None) = (Inr (), s')
     \<and> j' \<in> set (settlement_jobs (sys_db s')) \<and> sj_Status j' = SettlementJobStatusSucceeded \<and> length (entries_of (sys_db s') 102) = 4"
  using ProcessOne_settles [OF demo_reachable(2) _ _ demo_ready(1,2,6,3), of "''w''"] demo_identifies
  by (auto simp: demo_job_def)

text \<open>
  The queue drains: from a reachable state, when nothing fails during the drain and every waiting job can be claimed and paid,
  one drain of a worker whose batch is at least as large as the queue leaves no job waiting, and every job that waited is succeeded.
\<close>

theorem queue_drains:
  assumes "reachable G s" "pl_processor p = en_processor G"
    "wp_gateway (en_processor G) = Simulator_Execute (wp_lib (en_processor G))"
    "identifies (wp_lib (en_processor G)) (sys_db s)" "sustains (en_processor G) w Es (nat (BatchSize (pl_cfg p))) s"
    "int (length (waiting_jobs (sys_db s))) \<le> BatchSize (pl_cfg p)"
    "\<forall>j \<in> set (waiting_jobs (sys_db s)). payable (sys_db s) j \<and> (\<forall>i < nat (BatchSize (pl_cfg p)). available (Es i) j)"
  shows "waiting_jobs (sys_db (drain p w Es s)) = []
    \<and> (\<forall>j \<in> set (waiting_jobs (sys_db s)). \<exists>j' \<in> set (settlement_jobs (sys_db (drain p w Es s))).
         sj_ID j' = sj_ID j \<and> sj_Status j' = SettlementJobStatusSucceeded)"
  unfolding drain_def assms(2)
  by (rule drain_loop_settles [OF assms(1,3,4,5)]) (use assms(6,7) in auto)

theorem queue_drains_witness:
  "waiting_jobs (sys_db (demo_sys1 None)) = [demo_job]
   \<and> waiting_jobs (sys_db (drain \<lparr>pl_cfg = \<lparr>WorkerCount = 1, PollInterval = Second, BatchSize = 1\<rparr>,
       pl_processor = en_processor demo_engine, pl_instance = ''arrakin''\<rparr> ''w'' (\<lambda>_. demo_env 1) (demo_sys1 None))) = []"
proof -
  have "sustains (en_processor demo_engine) ''w'' (\<lambda>_. demo_env 1) 1 (demo_sys1 None)"
    using demo_ready(1,2) by (simp add: sustains_def)
  then show ?thesis
    using queue_drains [OF demo_reachable(2), of "\<lparr>pl_cfg = \<lparr>WorkerCount = 1, PollInterval = Second, BatchSize = 1\<rparr>,
        pl_processor = en_processor demo_engine, pl_instance = ''arrakin''\<rparr>" None "''w''" "\<lambda>_. demo_env 1"]
      demo_identifies demo_ready(3-5) by simp
qed

end
