(* ===== verification/Conn_Pool.thy ===== *)
theory Conn_Pool
  imports Platform Idempotency
begin

text \<open>
  The connections that concurrent tasks take from the pool of \<^verbatim>\<open>db.NewPool\<close>. Every transaction of the engine and of the API takes one
  connection, with one exception: \<^verbatim>\<open>runIdempotent\<close> keeps the transaction of a new key open while the handler opens another
  one on the same pool. What is used of pgxpool is that \<^verbatim>\<open>Begin\<close> waits until fewer than \<^verbatim>\<open>MaxConns\<close> connections are taken or its
  context is done, and of PostgreSQL that the insertion of a key waits for an open transaction that has inserted the same key.
\<close>

section \<open>Which requests need two connections\<close>

text \<open>The request has a key and reserves it, so that \<^verbatim>\<open>Execute\<close> calls its handler inside the transaction of the key.\<close>

definition runs_handler :: "idem_Service \<Rightarrow> tx_env \<Rightarrow> string \<Rightarrow> string \<Rightarrow> sys \<Rightarrow> bool" where
  "runs_handler S E scope key s \<longleftrightarrow> key \<noteq> [] \<and> \<not> begin_fault E
     \<and> (case lookupState E scope key (begin_tx s) of
          (Inr (StateNotFound, _), st) \<Rightarrow> (case Reserve S E scope key [] st of (Inr _, _) \<Rightarrow> True | (Inl _, _) \<Rightarrow> False)
        | _ \<Rightarrow> False)"

text \<open>Otherwise a request with a key does not use its handler at all; and the error of a handler is the error of the request.\<close>

lemma handler_unused:
  assumes "\<not> runs_handler S E scope key s" "key \<noteq> []"
  shows "runIdempotent S E key scope fn s = runIdempotent S E key scope fn' s"
proof -
  obtain r st where look: "lookupState E scope key (begin_tx s) = (r, st)" by fastforce
  obtain q st' where res: "Reserve S E scope key [] st = (q, st')" by fastforce
  have "begin_fault E \<or> Execute S E scope key [] fn (begin_tx s, s) = Execute S E scope key [] fn' (begin_tx s, s)"
    using assms by (cases r; cases q) (auto simp: runs_handler_def Execute_def look res split: key_state.splits)
  then show ?thesis using assms(2) by (auto simp: runIdempotent_def)
qed

lemma handler_fails:
  assumes "runs_handler S E scope key s" "fn s = (Inl err, s')"
  shows "runIdempotent S E key scope fn s = (Inl err, s')"
  using assms
  by (auto simp: runs_handler_def runIdempotent_def Execute_def split: prod.splits sum.splits key_state.splits)

section \<open>Tasks\<close>

text \<open>
  A task asks for a connection. A request that runs its handler under a key reserves the key with it, has the transaction of the key
  \<open>Open\<close>, runs its handler with a second connection (\<open>Nested\<close>), and is \<open>Closing\<close> when only the last commit or rollback is left. Every
  other transaction (a run of a worker, a scan, a query, a request without a key or with one that is completed) is \<open>Closing\<close> as soon as
  it has its connection.
\<close>

datatype phase = Asking | Reserving | Open | Nested | Closing | Done

datatype conn_task = Task (key_of: "(string \<times> string) option") (phase: phase)

definition request_task :: "idem_Service \<Rightarrow> sys \<Rightarrow> tx_env \<times> string \<times> string \<Rightarrow> conn_task" where
  "request_task S s = (\<lambda>(E, scope, key). Task (if runs_handler S E scope key s then Some (scope, key) else None) Asking)"

primrec held :: "phase \<Rightarrow> nat" where
  "held Asking = 0"
| "held Reserving = 1"
| "held Open = 1"
| "held Nested = 2"
| "held Closing = 1"
| "held Done = 0"

definition in_use :: "conn_task list \<Rightarrow> nat" where
  "in_use ts = sum_list (map (held \<circ> phase) ts)"

text \<open>The key is in a transaction that is still open.\<close>

definition key_held :: "string \<times> string \<Rightarrow> conn_task list \<Rightarrow> bool" where
  "key_held k ts \<longleftrightarrow> (\<exists>t \<in> set ts. key_of t = Some k \<and> phase t \<in> {Open, Nested, Closing})"

text \<open>
  The steps of the tasks. A reservation is refused when the statements of \<^verbatim>\<open>Execute\<close> fail or find the response of another request. A
  handler ends with a response or an error.
\<close>

inductive conn_step :: "nat \<Rightarrow> conn_task list \<Rightarrow> conn_task list \<Rightarrow> bool" for maxConns :: nat where
  begin_single: "i < length ts \<Longrightarrow> ts ! i = Task None Asking \<Longrightarrow> in_use ts < maxConns \<Longrightarrow> conn_step maxConns ts (ts[i := Task None Closing])"
| begin_key: "i < length ts \<Longrightarrow> ts ! i = Task (Some k) Asking \<Longrightarrow> in_use ts < maxConns \<Longrightarrow> conn_step maxConns ts (ts[i := Task (Some k) Reserving])"
| reserve: "i < length ts \<Longrightarrow> ts ! i = Task (Some k) Reserving \<Longrightarrow> \<not> key_held k ts \<Longrightarrow> conn_step maxConns ts (ts[i := Task (Some k) Open])"
| refused: "i < length ts \<Longrightarrow> ts ! i = Task (Some k) Reserving \<Longrightarrow> \<not> key_held k ts \<Longrightarrow> conn_step maxConns ts (ts[i := Task (Some k) Closing])"
| begin_handler: "i < length ts \<Longrightarrow> ts ! i = Task (Some k) Open \<Longrightarrow> in_use ts < maxConns \<Longrightarrow> conn_step maxConns ts (ts[i := Task (Some k) Nested])"
| handler_done: "i < length ts \<Longrightarrow> ts ! i = Task q Nested \<Longrightarrow> conn_step maxConns ts (ts[i := Task q Closing])"
| commit: "i < length ts \<Longrightarrow> ts ! i = Task q Closing \<Longrightarrow> conn_step maxConns ts (ts[i := Task q Done])"

text \<open>
  The context of a waiting task is done: the client of a request has gone, the engine is shut down, or the three seconds of
  \<^verbatim>\<open>Ready\<close> are over. \<^verbatim>\<open>Begin\<close> returns the error of the context, and with it the task, rolling back the transaction it has.
\<close>

inductive leave_step :: "nat \<Rightarrow> conn_task list \<Rightarrow> conn_task list \<Rightarrow> bool" for i :: nat where
  leave: "i < length ts \<Longrightarrow> ts ! i = Task q ph \<Longrightarrow> ph \<in> {Asking, Reserving, Open} \<Longrightarrow> leave_step i ts (ts[i := Task q Done])"

section \<open>Every run is short\<close>

primrec rank :: "phase \<Rightarrow> nat" where
  "rank Asking = 5"
| "rank Reserving = 4"
| "rank Open = 3"
| "rank Nested = 2"
| "rank Closing = 1"
| "rank Done = 0"

definition todo :: "conn_task list \<Rightarrow> nat" where
  "todo ts = sum_list (map (rank \<circ> phase) ts)"

abbreviation pool_event :: "nat \<Rightarrow> conn_task list \<Rightarrow> conn_task list \<Rightarrow> bool" where
  "pool_event m ts us \<equiv> conn_step m ts us \<or> (\<exists>i. leave_step i ts us)"

text \<open>Every event moves one task forward and keeps its key; a task without a key reserves nothing.\<close>

definition shape_ok :: "conn_task list \<Rightarrow> bool" where
  "shape_ok ts \<longleftrightarrow> (\<forall>t \<in> set ts. phase t \<in> {Reserving, Open, Nested} \<longrightarrow> key_of t \<noteq> None)"

lemma pool_event_moves:
  assumes "pool_event m ts us"
  shows "\<exists>i t. i < length ts \<and> us = ts[i := t] \<and> rank (phase t) < rank (phase (ts ! i)) \<and> key_of t = key_of (ts ! i)
    \<and> (phase t \<in> {Reserving, Open, Nested} \<longrightarrow> key_of t \<noteq> None)"
proof -
  consider "conn_step m ts us" | i where "leave_step i ts us" using assms by blast
  then show ?thesis
  proof cases
    case 1
    then show ?thesis by (induction rule: conn_step.induct) (intro exI conjI, assumption, rule refl, simp_all)+
  next
    case 2
    then show ?thesis by (induction rule: leave_step.induct) (intro exI conjI, assumption, rule refl, auto)
  qed
qed

lemma sum_list_replace:
  fixes f :: "'a \<Rightarrow> nat"
  assumes "i < length xs"
  shows "sum_list (map f (xs[i := y])) + f (xs ! i) = sum_list (map f xs) + f y"
  using assms
proof (induction xs arbitrary: i)
  case (Cons x xs)
  then show ?case by (cases i) auto
qed simp

lemma pool_event_keeps:
  assumes "pool_event m ts us"
  shows "todo us < todo ts" "map key_of us = map key_of ts" "shape_ok ts \<Longrightarrow> shape_ok us"
proof -
  obtain i t where i: "i < length ts" "us = ts[i := t]" "rank (phase t) < rank (phase (ts ! i))" "key_of t = key_of (ts ! i)"
      "phase t \<in> {Reserving, Open, Nested} \<longrightarrow> key_of t \<noteq> None"
    using pool_event_moves [OF assms] by blast
  show "todo us < todo ts" using sum_list_replace [OF i(1), of "rank \<circ> phase" t] i(2,3) by (simp add: todo_def)
  show "map key_of us = map key_of ts" using i by (simp add: map_update) (metis length_map list_update_id nth_map)
  show "shape_ok ts \<Longrightarrow> shape_ok us" using i(2,5) by (auto simp: shape_ok_def dest!: subsetD [OF set_update_subset_insert])
qed

lemma pool_events_bound: "(pool_event m ^^ n) ts us \<Longrightarrow> n + todo us \<le> todo ts"
proof (induction n arbitrary: us)
  case (Suc n)
  then obtain vs where "(pool_event m ^^ n) ts vs" "pool_event m vs us" by (auto elim!: relpowp_Suc_E)
  with Suc.IH [of vs] pool_event_keeps(1) [of m vs us] show ?case by simp
qed simp

lemma pool_events_keep: "(pool_event m)\<^sup>*\<^sup>* ts us \<Longrightarrow> shape_ok ts \<Longrightarrow> shape_ok us \<and> map key_of us = map key_of ts"
proof (induction rule: rtranclp_induct)
  case (step vs us)
  with pool_event_keeps(2,3) [of m vs us] show ?case by simp
qed simp

lemma todo_bound: "todo ts \<le> 5 * length ts"
proof -
  have "rank p \<le> 5" for p by (cases p) simp_all
  then show ?thesis by (induction ts) (auto simp: todo_def add_le_mono)
qed

section \<open>When a run can go on\<close>

text \<open>When nothing can be given back, only requests with keys hold connections, and only one each.\<close>

lemma stuck_in_use:
  assumes "\<And>us. \<not> conn_step m ts us" "shape_ok ts"
  shows "in_use ts \<le> length (filter (\<lambda>t. key_of t \<noteq> None) ts)"
proof -
  have "phase t \<noteq> Nested \<and> phase t \<noteq> Closing" if "t \<in> set ts" for t
    using assms(1) that conn_step.handler_done [of _ ts "key_of t" m] conn_step.commit [of _ ts "key_of t" m]
    by (metis conn_task.collapse in_set_conv_nth)
  then have "held (phase t) \<le> (if key_of t \<noteq> None then 1 else 0)" if "t \<in> set ts" for t
    using that assms(2) by (cases "phase t") (auto simp: shape_ok_def)
  then have "in_use ts \<le> sum_list (map (\<lambda>t. if key_of t \<noteq> None then 1 else 0) ts)" unfolding in_use_def by (intro sum_list_mono) simp
  also have "\<dots> = length (filter (\<lambda>t. key_of t \<noteq> None) ts)" by (induction ts) simp_all
  finally show ?thesis .
qed

lemma can_go_on:
  assumes "in_use ts < m" "shape_ok ts" "t \<in> set ts" "phase t \<noteq> Done"
  shows "\<exists>us. conn_step m ts us"
proof -
  have go: "\<exists>us. conn_step m ts us" if u: "u \<in> set ts" "phase u \<in> {Asking, Open, Nested, Closing}" for u
  proof -
    obtain i where i: "i < length ts" "ts ! i = u" using u(1) by (auto simp: in_set_conv_nth)
    have "phase u = Open \<longrightarrow> key_of u \<noteq> None" using assms(2) u(1) by (auto simp: shape_ok_def)
    with i u(2) assms(1) show ?thesis
      by (cases u; cases "key_of u"; cases "phase u") (auto intro: conn_step.intros)
  qed
  show ?thesis
  proof (cases "phase t = Reserving")
    case True
    obtain i where i: "i < length ts" "ts ! i = t" using assms(3) by (auto simp: in_set_conv_nth)
    obtain k where k: "t = Task (Some k) Reserving" using assms(2,3) True by (cases t) (auto simp: shape_ok_def)
    show ?thesis
    proof (cases "key_held k ts")
      case True
      then show ?thesis using go by (auto simp: key_held_def)
    next
      case False
      with i k show ?thesis by (blast intro: conn_step.reserve)
    qed
  next
    case False
    with assms(4) have "phase t \<in> {Asking, Open, Nested, Closing}" by (cases "phase t") auto
    with go assms(3) show ?thesis by blast
  qed
qed

lemma few_keys:
  assumes "length (filter (\<lambda>t. key_of t \<noteq> None) us) < m" "(pool_event m ^^ n) us ts" "shape_ok us"
  shows "n \<le> 5 * length us" "(\<forall>t \<in> set ts. phase t = Done) \<or> (\<exists>vs. conn_step m ts vs)"
proof -
  show "n \<le> 5 * length us" using pool_events_bound [OF assms(2)] todo_bound [of us] by simp
  note ok = pool_events_keep [OF relpowp_imp_rtranclp [OF assms(2)] assms(3)]
  have "length (filter (\<lambda>q. q \<noteq> None) (map key_of ts)) = length (filter (\<lambda>q. q \<noteq> None) (map key_of us))" using ok by simp
  then have less: "length (filter (\<lambda>t. key_of t \<noteq> None) ts) < m" using assms(1) by (simp add: filter_map comp_def)
  show "(\<forall>t \<in> set ts. phase t = Done) \<or> (\<exists>vs. conn_step m ts vs)"
  proof (rule ccontr)
    assume "\<not> ?thesis"
    then obtain t where t: "t \<in> set ts" "phase t \<noteq> Done" and stuck: "\<And>vs. \<not> conn_step m ts vs" by blast
    have "in_use ts < m" using stuck_in_use [OF stuck] ok less by simp
    with can_go_on [OF _ _ t] ok stuck show False by blast
  qed
qed

section \<open>The lock-up\<close>

abbreviation asking :: "(string \<times> string) list \<Rightarrow> conn_task list" where
  "asking ks \<equiv> map (\<lambda>k. Task (Some k) Asking) ks"

abbreviation opened :: "(string \<times> string) list \<Rightarrow> conn_task list" where
  "opened ks \<equiv> map (\<lambda>k. Task (Some k) Open) ks"

lemma in_use_opened:
  assumes "\<forall>t \<in> set us. phase t \<in> {Asking, Done}"
  shows "in_use (opened ks @ us) = length ks"
proof -
  have "map (held \<circ> phase) us = map (\<lambda>_. 0) us" using assms by auto
  then show ?thesis by (simp add: in_use_def comp_def sum_list_triv)
qed

text \<open>One after the other the requests reserve their keys.\<close>

lemma key_opens:
  assumes "k \<notin> set ks" "length ks < m" "\<forall>t \<in> set us. phase t \<in> {Asking, Done}"
  shows "(conn_step m)\<^sup>*\<^sup>* (opened ks @ Task (Some k) Asking # us) (opened ks @ Task (Some k) Open # us)"
proof -
  let ?ts = "\<lambda>ph. opened ks @ Task (Some k) ph # us"
  have "in_use (?ts Asking) = length ks" using assms(3) by (intro in_use_opened) simp
  then have "conn_step m (?ts Asking) ((?ts Asking)[length ks := Task (Some k) Reserving])"
    using assms(2) by (intro conn_step.begin_key) (simp_all add: nth_append)
  moreover have "\<not> key_held k (?ts Reserving)" using assms(1,3) by (auto simp: key_held_def)
  then have "conn_step m (?ts Reserving) ((?ts Reserving)[length ks := Task (Some k) Open])"
    by (intro conn_step.reserve) (simp_all add: nth_append)
  ultimately have "conn_step m (?ts Asking) (?ts Reserving)" "conn_step m (?ts Reserving) (?ts Open)" by (simp_all add: list_update_append)
  then show ?thesis by (rule rtranclp.rtrancl_into_rtrancl [OF r_into_rtranclp])
qed

lemma keys_open:
  assumes "distinct (ks @ ks')" "length (ks @ ks') \<le> m" "\<forall>t \<in> set us. phase t \<in> {Asking, Done}"
  shows "(conn_step m)\<^sup>*\<^sup>* (opened ks @ asking ks' @ us) (opened (ks @ ks') @ us)"
  using assms(1,2)
proof (induction ks' arbitrary: ks)
  case (Cons k ks')
  have "(conn_step m)\<^sup>*\<^sup>* (opened ks @ Task (Some k) Asking # asking ks' @ us) (opened ks @ Task (Some k) Open # asking ks' @ us)"
    using Cons.prems assms(3) by (intro key_opens) auto
  moreover have "(conn_step m)\<^sup>*\<^sup>* (opened (ks @ [k]) @ asking ks' @ us) (opened ((ks @ [k]) @ ks') @ us)"
    using Cons.prems by (intro Cons.IH) auto
  ultimately show ?case by simp
qed simp

text \<open>With all connections in the open transactions of keys, nobody takes a step; others may only give up waiting.\<close>

definition locked :: "(string \<times> string) list \<Rightarrow> conn_task list \<Rightarrow> bool" where
  "locked ks ts \<longleftrightarrow> (\<exists>us. ts = opened ks @ us \<and> (\<forall>t \<in> set us. phase t \<in> {Asking, Done}))"

lemma locked_no_step:
  assumes "locked ks ts"
  shows "\<not> conn_step (length ks) ts vs"
proof
  assume step: "conn_step (length ks) ts vs"
  obtain us where us: "ts = opened ks @ us" "\<forall>t \<in> set us. phase t \<in> {Asking, Done}" using assms by (auto simp: locked_def)
  then have full: "in_use ts = length ks" by (simp add: in_use_opened)
  have "phase (ts ! i) \<in> {Open, Asking, Done}" if "i < length ts" for i
    using us nth_mem [OF that] by auto
  with step full show False by (cases rule: conn_step.cases) (metis less_irrefl conn_task.sel(2) phase.distinct insertE emptyE)+
qed

lemma locked_leave:
  assumes "locked ks ts" "leave_step i ts vs" "length ks \<le> i"
  shows "locked ks vs"
  using assms(2)
proof (cases rule: leave_step.cases)
  case (leave q ph)
  obtain us where us: "ts = opened ks @ us" "\<forall>t \<in> set us. phase t \<in> {Asking, Done}" using assms(1) by (auto simp: locked_def)
  have "vs = opened ks @ us[i - length ks := Task q Done]" using leave(1) us(1) assms(3) by (simp add: list_update_append)
  moreover have "\<forall>t \<in> set (us[i - length ks := Task q Done]). phase t \<in> {Asking, Done}"
    using us(2) by (auto dest!: subsetD [OF set_update_subset_insert])
  ultimately show ?thesis by (auto simp: locked_def)
qed

lemma locked_stays:
  assumes "(\<lambda>ts us. conn_step (length ks) ts us \<or> (\<exists>i \<ge> length ks. leave_step i ts us))\<^sup>*\<^sup>* ts vs" "locked ks ts"
  shows "locked ks vs"
  using assms by (induction rule: rtranclp_induct) (auto dest: locked_no_step locked_leave)

text \<open>
  C15. Requests with idempotency keys can lock up the pool: when as many of them as the pool has connections (twenty), each with a
  key of its own that it is about to reserve, begin at the same time, they can all come to have the transaction of their key open; and from then on, as
  long as none of the twenty clients goes away, no task whatever gets a connection, even if others give up. A request whose handler
  gets none fails and changes nothing. With fewer requests that reserve a key some task can always go on
  until all are done, whoever gives up, and all are done after at most five events each.
\<close>

theorem keyed_requests_deadlock:
  assumes "fst (db_NewPool X url h) = Inr pool" "\<forall>t \<in> set us. phase t = Asking"
    and "length rs = 20" "distinct (map snd rs)" "\<forall>(E, scope, key) \<in> set rs. runs_handler S E scope key s"
  defines "m \<equiv> nat (pg_MaxConns pool)"
  shows "(\<exists>ts. (conn_step m)\<^sup>*\<^sup>* (map (request_task S s) rs @ us) ts \<and> map phase ts = replicate 20 Open @ map phase us
        \<and> (\<forall>vs. (\<lambda>ts us. conn_step m ts us \<or> (\<exists>i \<ge> 20. leave_step i ts us))\<^sup>*\<^sup>* ts vs \<longrightarrow>
             map phase (take 20 vs) = replicate 20 Open \<and> (\<forall>t \<in> set (drop 20 vs). phase t \<in> {Asking, Done})))
    \<and> (\<forall>(E, scope, key) \<in> set rs. \<forall>fn err. fn s = (Inl err, s) \<longrightarrow> runIdempotent S E key scope fn s = (Inl err, s))
    \<and> (length (filter (\<lambda>t. key_of t \<noteq> None) us) < 20 \<longrightarrow>
        (\<forall>n ts. ((\<lambda>ts us. conn_step m ts us \<or> (\<exists>i. leave_step i ts us)) ^^ n) us ts \<longrightarrow> n \<le> 5 * length us
        \<and> ((\<forall>t \<in> set ts. phase t = Done) \<or> (\<exists>vs. conn_step m ts vs))))"
proof -
  let ?ks = "map snd rs"
  have m: "m = 20" using db_NewPool_cases [of X url h] assms(1) by (metis m_def fst_conv Inl_Inr_False Inr_inject nat_numeral)
  have tasks: "map (request_task S s) rs = asking ?ks" using assms(5) by (auto simp: request_task_def)
  have wait: "\<forall>t \<in> set us. phase t \<in> {Asking, Done}" using assms(2) by simp
  have reach: "(conn_step m)\<^sup>*\<^sup>* (map (request_task S s) rs @ us) (opened ?ks @ us)"
    using keys_open [of "[]" ?ks m us] assms(3,4) wait by (simp add: m tasks)
  have "locked ?ks (opened ?ks @ us)" using wait by (auto simp: locked_def)
  then have "locked ?ks vs" if "(\<lambda>ts us. conn_step m ts us \<or> (\<exists>i \<ge> 20. leave_step i ts us))\<^sup>*\<^sup>* (opened ?ks @ us) vs" for vs
    using locked_stays [of ?ks "opened ?ks @ us" vs] that assms(3) by (simp add: m)
  then have stays: "map phase (take 20 vs) = replicate 20 Open \<and> (\<forall>t \<in> set (drop 20 vs). phase t \<in> {Asking, Done})"
    if "(\<lambda>ts us. conn_step m ts us \<or> (\<exists>i \<ge> 20. leave_step i ts us))\<^sup>*\<^sup>* (opened ?ks @ us) vs" for vs
    using that assms(3) by (fastforce simp: locked_def map_replicate_const comp_def)
  have few: "n \<le> 5 * length us \<and> ((\<forall>t \<in> set ts. phase t = Done) \<or> (\<exists>vs. conn_step m ts vs))"
    if "length (filter (\<lambda>t. key_of t \<noteq> None) us) < 20" "(pool_event m ^^ n) us ts" for n ts
    using few_keys [OF _ that(2)] that(1) assms(2) by (auto simp: m shape_ok_def)
  have "map phase (opened ?ks @ us) = replicate 20 Open @ map phase us" using assms(3) by (simp add: map_replicate_const comp_def)
  then show ?thesis using reach stays few assms(5) handler_fails [of S _ _ _ s] by (intro conjI exI [of _ "opened ?ks @ us"] allI impI) blast+
qed

lemma fresh_key_runs: "key \<noteq> [] \<Longrightarrow> runs_handler (NewIdemService 0) (demo_env 0) scope key empty_sys"
proof -
  assume "key \<noteq> []"
  have ok: "ops_ok (tx_db (begin_tx empty_sys))" "key_row (tx_db (begin_tx empty_sys)) scope key = None"
    by (simp_all add: empty_sys_def empty_db_def ops_ok_def key_row_def begin_tx_def)
  let ?st = "(begin_tx empty_sys)\<lparr>tx_stmts := Suc (tx_stmts (begin_tx empty_sys))\<rparr>"
  have "lookupState (demo_env 0) scope key (begin_tx empty_sys) = (Inr (StateNotFound, no_response), ?st)"
    using lookupState_run [of "begin_tx empty_sys" "demo_env 0" scope key] ok by (simp add: begin_tx_def)
  moreover obtain st' where "Reserve (NewIdemService 0) (demo_env 0) scope key [] ?st = (Inr (), st')"
    by (rule Reserve_fresh [of ?st "demo_env 0" scope key "NewIdemService 0"]) (use ok in \<open>simp_all add: begin_tx_def empty_sys_def empty_db_def\<close>)
  ultimately show ?thesis using \<open>key \<noteq> []\<close> by (simp add: runs_handler_def)
qed

text \<open>Twenty requests with keys of their own, and a worker that waits behind them.\<close>

theorem keyed_requests_deadlock_witness:
  "\<exists>rs ts. length rs = 20 \<and> (conn_step 20)\<^sup>*\<^sup>* (map (request_task (NewIdemService 0) empty_sys) rs @ [Task None Asking]) ts
     \<and> map phase ts = replicate 20 Open @ [Asking]
     \<and> (\<forall>vs. (\<lambda>ts us. conn_step 20 ts us \<or> (\<exists>i \<ge> 20. leave_step i ts us))\<^sup>*\<^sup>* ts vs \<longrightarrow> map phase (take 20 vs) = replicate 20 Open)"
proof -
  obtain pool where pool: "fst (db_NewPool demo_pgx ''postgres'' \<lparr>h_pools = [], h_clients = []\<rparr>) = Inr pool" "pg_MaxConns pool = 20"
    using demo_pool by blast
  let ?rs = "map (\<lambda>i. (demo_env 0, ''replay'', replicate (Suc i) (CHR ''k''))) [0..<20]"
  have "inj_on (\<lambda>i. (''replay'', replicate (Suc i) (CHR ''k''))) {0..<20}" by (auto simp: inj_on_def)
  then have "distinct (map snd ?rs)" by (simp add: comp_def distinct_map)
  moreover have "\<forall>(E, scope, key) \<in> set ?rs. runs_handler (NewIdemService 0) E scope key empty_sys" by (auto intro: fresh_key_runs)
  ultimately show ?thesis
    using keyed_requests_deadlock [OF pool(1), of "[Task None Asking]" ?rs "NewIdemService 0" empty_sys] pool(2)
    by (intro exI [of _ ?rs]) (auto simp del: map_map)
qed

end
