(* ===== verification/Sql_Enums.thy ===== *)
theory Sql_Enums
  imports Dto
begin

text \<open>
  The methods of the six enumerations of \<^verbatim>\<open>internal/store/sqlc/models.go\<close>: \<^verbatim>\<open>Scan\<close>, by which a column is
  decoded, and the nullable wrappers with \<^verbatim>\<open>Scan\<close> and \<^verbatim>\<open>Value\<close>. In Go an enumeration is a string type, so here its
  values are strings; the datatypes of \<open>Sql_Model\<close> are the named constants, and the texts of these are the labels of the types in
  \<^verbatim>\<open>migrations/000001_init_schema.up.sql\<close>. A method with a pointer receiver returns the new value next to its error.
\<close>

section \<open>Driver values\<close>

text \<open>What \<^verbatim>\<open>driver.Value\<close> may hold, and what the verb \<^verbatim>\<open>%T\<close> prints of it.\<close>

datatype driver_value = DNil | DBytes string | DString string | DInt64 int | DFloat64 "64 word" | DBool bool | DTime gotime

primrec type_name :: "driver_value \<Rightarrow> string" where
  "type_name DNil = ''<nil>''"
| "type_name (DBytes s) = ''[]uint8''"
| "type_name (DString s) = ''string''"
| "type_name (DInt64 i) = ''int64''"
| "type_name (DFloat64 f) = ''float64''"
| "type_name (DBool b) = ''bool''"
| "type_name (DTime t) = ''time.Time''"

section \<open>The enumerations\<close>

definition AuditActorType_Scan :: "string \<Rightarrow> driver_value \<Rightarrow> string \<times> go_error option" where
  "AuditActorType_Scan e src =
     (case src of
        DBytes s \<Rightarrow> (s, None)
      | DString s \<Rightarrow> (s, None)
      | _ \<Rightarrow> (e, Some (Errorf ''unsupported scan type for AuditActorType: %T'' [ArgStr (type_name src)])))"

record NullAuditActorType =
  naa_AuditActorType :: string
  naa_Valid :: bool

definition NullAuditActorType_Scan :: "NullAuditActorType \<Rightarrow> driver_value \<Rightarrow> NullAuditActorType \<times> go_error option" where
  "NullAuditActorType_Scan ns value =
     (if value = DNil then (ns\<lparr>naa_AuditActorType := [], naa_Valid := False\<rparr>, None)
      else (let ns = ns\<lparr>naa_Valid := True\<rparr>
            in (case AuditActorType_Scan (naa_AuditActorType ns) value of (e, err) \<Rightarrow> (ns\<lparr>naa_AuditActorType := e\<rparr>, err))))"

definition NullAuditActorType_Value :: "NullAuditActorType \<Rightarrow> go_error + driver_value" where
  "NullAuditActorType_Value ns = (if \<not> naa_Valid ns then Inr DNil else Inr (DString (naa_AuditActorType ns)))"

definition ErrorClass_Scan :: "string \<Rightarrow> driver_value \<Rightarrow> string \<times> go_error option" where
  "ErrorClass_Scan e src =
     (case src of
        DBytes s \<Rightarrow> (s, None)
      | DString s \<Rightarrow> (s, None)
      | _ \<Rightarrow> (e, Some (Errorf ''unsupported scan type for ErrorClass: %T'' [ArgStr (type_name src)])))"

record NullErrorClass =
  nec_ErrorClass :: string
  nec_Valid :: bool

definition NullErrorClass_Scan :: "NullErrorClass \<Rightarrow> driver_value \<Rightarrow> NullErrorClass \<times> go_error option" where
  "NullErrorClass_Scan ns value =
     (if value = DNil then (ns\<lparr>nec_ErrorClass := [], nec_Valid := False\<rparr>, None)
      else (let ns = ns\<lparr>nec_Valid := True\<rparr>
            in (case ErrorClass_Scan (nec_ErrorClass ns) value of (e, err) \<Rightarrow> (ns\<lparr>nec_ErrorClass := e\<rparr>, err))))"

definition NullErrorClass_Value :: "NullErrorClass \<Rightarrow> go_error + driver_value" where
  "NullErrorClass_Value ns = (if \<not> nec_Valid ns then Inr DNil else Inr (DString (nec_ErrorClass ns)))"

definition InvestmentStatus_Scan :: "string \<Rightarrow> driver_value \<Rightarrow> string \<times> go_error option" where
  "InvestmentStatus_Scan e src =
     (case src of
        DBytes s \<Rightarrow> (s, None)
      | DString s \<Rightarrow> (s, None)
      | _ \<Rightarrow> (e, Some (Errorf ''unsupported scan type for InvestmentStatus: %T'' [ArgStr (type_name src)])))"

record NullInvestmentStatus =
  nis_InvestmentStatus :: string
  nis_Valid :: bool

definition NullInvestmentStatus_Scan :: "NullInvestmentStatus \<Rightarrow> driver_value \<Rightarrow> NullInvestmentStatus \<times> go_error option" where
  "NullInvestmentStatus_Scan ns value =
     (if value = DNil then (ns\<lparr>nis_InvestmentStatus := [], nis_Valid := False\<rparr>, None)
      else (let ns = ns\<lparr>nis_Valid := True\<rparr>
            in (case InvestmentStatus_Scan (nis_InvestmentStatus ns) value of (e, err) \<Rightarrow> (ns\<lparr>nis_InvestmentStatus := e\<rparr>, err))))"

definition NullInvestmentStatus_Value :: "NullInvestmentStatus \<Rightarrow> go_error + driver_value" where
  "NullInvestmentStatus_Value ns = (if \<not> nis_Valid ns then Inr DNil else Inr (DString (nis_InvestmentStatus ns)))"

definition MaturityStatus_Scan :: "string \<Rightarrow> driver_value \<Rightarrow> string \<times> go_error option" where
  "MaturityStatus_Scan e src =
     (case src of
        DBytes s \<Rightarrow> (s, None)
      | DString s \<Rightarrow> (s, None)
      | _ \<Rightarrow> (e, Some (Errorf ''unsupported scan type for MaturityStatus: %T'' [ArgStr (type_name src)])))"

record NullMaturityStatus =
  nms_MaturityStatus :: string
  nms_Valid :: bool

definition NullMaturityStatus_Scan :: "NullMaturityStatus \<Rightarrow> driver_value \<Rightarrow> NullMaturityStatus \<times> go_error option" where
  "NullMaturityStatus_Scan ns value =
     (if value = DNil then (ns\<lparr>nms_MaturityStatus := [], nms_Valid := False\<rparr>, None)
      else (let ns = ns\<lparr>nms_Valid := True\<rparr>
            in (case MaturityStatus_Scan (nms_MaturityStatus ns) value of (e, err) \<Rightarrow> (ns\<lparr>nms_MaturityStatus := e\<rparr>, err))))"

definition NullMaturityStatus_Value :: "NullMaturityStatus \<Rightarrow> go_error + driver_value" where
  "NullMaturityStatus_Value ns = (if \<not> nms_Valid ns then Inr DNil else Inr (DString (nms_MaturityStatus ns)))"

definition PayoutAttemptStatus_Scan :: "string \<Rightarrow> driver_value \<Rightarrow> string \<times> go_error option" where
  "PayoutAttemptStatus_Scan e src =
     (case src of
        DBytes s \<Rightarrow> (s, None)
      | DString s \<Rightarrow> (s, None)
      | _ \<Rightarrow> (e, Some (Errorf ''unsupported scan type for PayoutAttemptStatus: %T'' [ArgStr (type_name src)])))"

record NullPayoutAttemptStatus =
  nps_PayoutAttemptStatus :: string
  nps_Valid :: bool

definition NullPayoutAttemptStatus_Scan :: "NullPayoutAttemptStatus \<Rightarrow> driver_value \<Rightarrow> NullPayoutAttemptStatus \<times> go_error option" where
  "NullPayoutAttemptStatus_Scan ns value =
     (if value = DNil then (ns\<lparr>nps_PayoutAttemptStatus := [], nps_Valid := False\<rparr>, None)
      else (let ns = ns\<lparr>nps_Valid := True\<rparr>
            in (case PayoutAttemptStatus_Scan (nps_PayoutAttemptStatus ns) value of (e, err) \<Rightarrow> (ns\<lparr>nps_PayoutAttemptStatus := e\<rparr>, err))))"

definition NullPayoutAttemptStatus_Value :: "NullPayoutAttemptStatus \<Rightarrow> go_error + driver_value" where
  "NullPayoutAttemptStatus_Value ns = (if \<not> nps_Valid ns then Inr DNil else Inr (DString (nps_PayoutAttemptStatus ns)))"

definition SettlementJobStatus_Scan :: "string \<Rightarrow> driver_value \<Rightarrow> string \<times> go_error option" where
  "SettlementJobStatus_Scan e src =
     (case src of
        DBytes s \<Rightarrow> (s, None)
      | DString s \<Rightarrow> (s, None)
      | _ \<Rightarrow> (e, Some (Errorf ''unsupported scan type for SettlementJobStatus: %T'' [ArgStr (type_name src)])))"

record NullSettlementJobStatus =
  njs_SettlementJobStatus :: string
  njs_Valid :: bool

definition NullSettlementJobStatus_Scan :: "NullSettlementJobStatus \<Rightarrow> driver_value \<Rightarrow> NullSettlementJobStatus \<times> go_error option" where
  "NullSettlementJobStatus_Scan ns value =
     (if value = DNil then (ns\<lparr>njs_SettlementJobStatus := [], njs_Valid := False\<rparr>, None)
      else (let ns = ns\<lparr>njs_Valid := True\<rparr>
            in (case SettlementJobStatus_Scan (njs_SettlementJobStatus ns) value of (e, err) \<Rightarrow> (ns\<lparr>njs_SettlementJobStatus := e\<rparr>, err))))"

definition NullSettlementJobStatus_Value :: "NullSettlementJobStatus \<Rightarrow> go_error + driver_value" where
  "NullSettlementJobStatus_Value ns = (if \<not> njs_Valid ns then Inr DNil else Inr (DString (njs_SettlementJobStatus ns)))"

section \<open>What the six have in common\<close>

text \<open>
  A nullable enumeration: how it decodes a null, a text and anything else, and how it encodes itself. The value of the driver is
  stored as it is, without a check against the constants.
\<close>

locale nullable_enum =
  fixes scan :: "'n \<Rightarrow> driver_value \<Rightarrow> 'n \<times> go_error option"
    and encode :: "'n \<Rightarrow> go_error + driver_value"
    and content :: "'n \<Rightarrow> string"
    and valid :: "'n \<Rightarrow> bool"
  assumes scan_nil: "snd (scan n DNil) = None" "\<not> valid (fst (scan n DNil))" "content (fst (scan n DNil)) = []"
    and scan_text: "v = DBytes s \<or> v = DString s \<Longrightarrow> snd (scan n v) = None \<and> valid (fst (scan n v)) \<and> content (fst (scan n v)) = s"
    and scan_other: "v \<noteq> DNil \<Longrightarrow> \<forall>s. v \<noteq> DBytes s \<and> v \<noteq> DString s \<Longrightarrow>
      snd (scan n v) \<noteq> None \<and> valid (fst (scan n v)) \<and> content (fst (scan n v)) = content n"
    and encode_eq: "encode n = Inr (if valid n then DString (content n) else DNil)"
begin

lemma encode_scan:
  obtains v where "encode n = Inr v" "snd (scan m v) = None" "valid (fst (scan m v)) = valid n"
    "content (fst (scan m v)) = (if valid n then content n else [])"
  using scan_nil scan_text [of "DString (content n)" "content n" m] by (intro that [of "if valid n then DString (content n) else DNil"]) (auto simp: encode_eq)

lemma scan_fails_iff: "snd (scan n v) \<noteq> None \<longleftrightarrow> (\<exists>i f b t. v = DInt64 i \<or> v = DFloat64 f \<or> v = DBool b \<or> v = DTime t)"
  using scan_nil(1) [of n] scan_text [of v _ n] scan_other [of v n] by (cases v) auto

lemma scan_encode: "snd (scan n v) = None \<Longrightarrow> encode (fst (scan n v)) = Inr (case v of DBytes s \<Rightarrow> DString s | _ \<Rightarrow> v)"
  using scan_fails_iff [of n v] scan_nil [of n] scan_text [of v _ n] by (cases v) (auto simp: encode_eq)

text \<open>A scan that fails leaves the old text, now marked as valid.\<close>

lemma scan_fails_valid: "snd (scan n v) \<noteq> None \<Longrightarrow> encode (fst (scan n v)) = Inr (DString (content n))"
  using scan_fails_iff [of n v] scan_other [of v n] by (auto simp: encode_eq)

end

interpretation naa: nullable_enum NullAuditActorType_Scan NullAuditActorType_Value naa_AuditActorType naa_Valid
  by unfold_locales (auto simp: NullAuditActorType_Scan_def NullAuditActorType_Value_def AuditActorType_Scan_def Let_def split: driver_value.splits)

interpretation nec: nullable_enum NullErrorClass_Scan NullErrorClass_Value nec_ErrorClass nec_Valid
  by unfold_locales (auto simp: NullErrorClass_Scan_def NullErrorClass_Value_def ErrorClass_Scan_def Let_def split: driver_value.splits)

interpretation nis: nullable_enum NullInvestmentStatus_Scan NullInvestmentStatus_Value nis_InvestmentStatus nis_Valid
  by unfold_locales (auto simp: NullInvestmentStatus_Scan_def NullInvestmentStatus_Value_def InvestmentStatus_Scan_def Let_def split: driver_value.splits)

interpretation nms: nullable_enum NullMaturityStatus_Scan NullMaturityStatus_Value nms_MaturityStatus nms_Valid
  by unfold_locales (auto simp: NullMaturityStatus_Scan_def NullMaturityStatus_Value_def MaturityStatus_Scan_def Let_def split: driver_value.splits)

interpretation nps: nullable_enum NullPayoutAttemptStatus_Scan NullPayoutAttemptStatus_Value nps_PayoutAttemptStatus nps_Valid
  by unfold_locales (auto simp: NullPayoutAttemptStatus_Scan_def NullPayoutAttemptStatus_Value_def PayoutAttemptStatus_Scan_def Let_def split: driver_value.splits)

interpretation njs: nullable_enum NullSettlementJobStatus_Scan NullSettlementJobStatus_Value njs_SettlementJobStatus njs_Valid
  by unfold_locales (auto simp: NullSettlementJobStatus_Scan_def NullSettlementJobStatus_Value_def SettlementJobStatus_Scan_def Let_def split: driver_value.splits)

text \<open>Encoding a value and decoding it into any variable gives it back, null as the invalid empty value.\<close>

definition scans_back :: "('n \<Rightarrow> driver_value \<Rightarrow> 'n \<times> go_error option) \<Rightarrow> ('n \<Rightarrow> go_error + driver_value) \<Rightarrow> ('n \<Rightarrow> string) \<Rightarrow> ('n \<Rightarrow> bool) \<Rightarrow> bool" where
  "scans_back scan encode content valid \<longleftrightarrow>
     (\<forall>n m. \<exists>v m'. encode n = Inr v \<and> scan m v = (m', None) \<and> valid m' = valid n \<and> content m' = (if valid n then content n else []))"

context nullable_enum
begin

lemma scans_back_holds: "scans_back scan encode content valid"
  unfolding scans_back_def by (metis encode_scan prod.collapse)

end

text \<open>
  Every nullable enumeration survives the trip through the driver: \<^verbatim>\<open>Value\<close> never fails, and \<^verbatim>\<open>Scan\<close> of what it
  returned, into any variable, succeeds and gives the same value, whatever text it holds, or the null.
\<close>

theorem enums_scan_back:
  "scans_back NullAuditActorType_Scan NullAuditActorType_Value naa_AuditActorType naa_Valid
   \<and> scans_back NullErrorClass_Scan NullErrorClass_Value nec_ErrorClass nec_Valid
   \<and> scans_back NullInvestmentStatus_Scan NullInvestmentStatus_Value nis_InvestmentStatus nis_Valid
   \<and> scans_back NullMaturityStatus_Scan NullMaturityStatus_Value nms_MaturityStatus nms_Valid
   \<and> scans_back NullPayoutAttemptStatus_Scan NullPayoutAttemptStatus_Value nps_PayoutAttemptStatus nps_Valid
   \<and> scans_back NullSettlementJobStatus_Scan NullSettlementJobStatus_Value njs_SettlementJobStatus njs_Valid"
  by (intro conjI naa.scans_back_holds nec.scans_back_holds nis.scans_back_holds nms.scans_back_holds nps.scans_back_holds njs.scans_back_holds)

section \<open>The labels of the schema\<close>

text \<open>The texts of the constants that no response prints.\<close>

primrec investment_status_text :: "InvestmentStatus \<Rightarrow> string" where
  "investment_status_text InvestmentStatusActive = ''active''"
| "investment_status_text InvestmentStatusMatured = ''matured''"
| "investment_status_text InvestmentStatusSettled = ''settled''"
| "investment_status_text InvestmentStatusCancelled = ''cancelled''"

primrec maturity_status_text :: "MaturityStatus \<Rightarrow> string" where
  "maturity_status_text MaturityStatusPending = ''pending''"
| "maturity_status_text MaturityStatusProcessing = ''processing''"
| "maturity_status_text MaturityStatusSettled = ''settled''"
| "maturity_status_text MaturityStatusSkipped = ''skipped''"

text \<open>The labels of the enumerated types of the database.\<close>

definition enum_labels :: "(string \<times> string list) list" where
  "enum_labels = [(''investment_status'', [''active'', ''matured'', ''settled'', ''cancelled'']),
     (''maturity_status'', [''pending'', ''processing'', ''settled'', ''skipped'']),
     (''settlement_job_status'', [''pending'', ''processing'', ''succeeded'', ''failed'', ''dead_letter'']),
     (''payout_attempt_status'', [''started'', ''succeeded'', ''failed'']),
     (''error_class'', [''transient'', ''terminal'']),
     (''audit_actor_type'', [''system'', ''admin'', ''api''])]"

text \<open>A column of the type, decoded: every label gives the text of exactly one constant.\<close>

definition decodes :: "string \<Rightarrow> (string \<Rightarrow> driver_value \<Rightarrow> string \<times> go_error option) \<Rightarrow> ('e \<Rightarrow> string) \<Rightarrow> 'e set \<Rightarrow> bool" where
  "decodes ty scan text cs \<longleftrightarrow> (\<exists>ls. map_of enum_labels ty = Some ls \<and> text ` cs = set ls \<and> inj_on text cs
     \<and> (\<forall>l \<in> set ls. \<forall>e. \<exists>!c. c \<in> cs \<and> scan e (DBytes l) = (text c, None) \<and> scan e (DString l) = (text c, None)))"

lemma decodesI:
  assumes "map_of enum_labels ty = Some ls" "text ` cs = set ls" "inj_on text cs" "\<And>e s. scan e (DBytes s) = (s, None)" "\<And>e s. scan e (DString s) = (s, None)"
  shows "decodes ty scan text cs"
proof -
  have "\<exists>!c. c \<in> cs \<and> l = text c" if "l \<in> set ls" for l
    using that assms(3) unfolding assms(2) [symmetric] by (auto dest: inj_onD)
  with assms show ?thesis unfolding decodes_def by simp
qed

lemma constants:
  "(UNIV :: InvestmentStatus set) = {InvestmentStatusActive, InvestmentStatusMatured, InvestmentStatusSettled, InvestmentStatusCancelled}"
  "(UNIV :: MaturityStatus set) = {MaturityStatusPending, MaturityStatusProcessing, MaturityStatusSettled, MaturityStatusSkipped}"
  "(UNIV :: PayoutAttemptStatus set) = {PayoutAttemptStatusStarted, PayoutAttemptStatusSucceeded, PayoutAttemptStatusFailed}"
  "(UNIV :: SettlementJobStatus set) = {SettlementJobStatusPending, SettlementJobStatusProcessing, SettlementJobStatusSucceeded, SettlementJobStatusFailed, SettlementJobStatusDeadLetter}"
  "(UNIV :: AuditActorType set) = {AuditActorTypeSystem, AuditActorTypeAdmin, AuditActorTypeApi}"
  "{c. error_class_valid c} = {ErrorClassTransient, ErrorClassTerminal}"
proof -
  show "(UNIV :: InvestmentStatus set) = {InvestmentStatusActive, InvestmentStatusMatured, InvestmentStatusSettled, InvestmentStatusCancelled}"
    using InvestmentStatus.exhaust by (intro equalityI subsetI) (blast, simp)
  show "(UNIV :: MaturityStatus set) = {MaturityStatusPending, MaturityStatusProcessing, MaturityStatusSettled, MaturityStatusSkipped}"
    using MaturityStatus.exhaust by (intro equalityI subsetI) (blast, simp)
  show "(UNIV :: PayoutAttemptStatus set) = {PayoutAttemptStatusStarted, PayoutAttemptStatusSucceeded, PayoutAttemptStatusFailed}"
    using PayoutAttemptStatus.exhaust by (intro equalityI subsetI) (blast, simp)
  show "(UNIV :: SettlementJobStatus set) = {SettlementJobStatusPending, SettlementJobStatusProcessing, SettlementJobStatusSucceeded, SettlementJobStatusFailed, SettlementJobStatusDeadLetter}"
    using SettlementJobStatus.exhaust by (intro equalityI subsetI) (blast, simp)
  show "(UNIV :: AuditActorType set) = {AuditActorTypeSystem, AuditActorTypeAdmin, AuditActorTypeApi}"
    using AuditActorType.exhaust by (intro equalityI subsetI) (blast, simp)
  show "{c. error_class_valid c} = {ErrorClassTransient, ErrorClassTerminal}"
    using ErrorClass.exhaust error_class_valid.simps by blast
qed

text \<open>
  Columns are well typed: for each of the six enumerated types of the schema, decoding a label of the type, as bytes or
  as text, succeeds and gives one of the Go constants; different labels give different constants, and every constant is the label of one.
\<close>

theorem enum_columns_typed:
  "decodes ''investment_status'' InvestmentStatus_Scan investment_status_text UNIV
   \<and> decodes ''maturity_status'' MaturityStatus_Scan maturity_status_text UNIV
   \<and> decodes ''settlement_job_status'' SettlementJobStatus_Scan status_text UNIV
   \<and> decodes ''payout_attempt_status'' PayoutAttemptStatus_Scan attempt_status_text UNIV
   \<and> decodes ''error_class'' ErrorClass_Scan error_class_text {c. error_class_valid c}
   \<and> decodes ''audit_actor_type'' AuditActorType_Scan actor_type_text UNIV"
  by (intro conjI decodesI) (auto simp: constants enum_labels_def InvestmentStatus_Scan_def MaturityStatus_Scan_def
      SettlementJobStatus_Scan_def PayoutAttemptStatus_Scan_def ErrorClass_Scan_def AuditActorType_Scan_def)

end
