(* ===== verification/Verdicts.thy ===== *)
theory Verdicts
  imports Liveness
begin

text \<open>
  What becomes of a job: the profile of its investment, the attempts it has had and the retries it has left decide whether the simulator and
  the worker end it as succeeded or dead, and after how many runs. Every healthy run brings one waiting job one run closer to that
  verdict, so that a bounded number of runs leaves no job waiting, whatever the profiles are.
\<close>

section \<open>The verdict on a job\<close>

definition profile_of :: "db \<Rightarrow> SettlementJob \<Rightarrow> string" where
  "profile_of d j = (case find (\<lambda>v. inv_ID v = sj_InvestmentID j) (investments d) of
      None \<Rightarrow> []
    | Some v \<Rightarrow> (case inv_SimulationProfile v of None \<Rightarrow> [] | Some p \<Rightarrow> p))"

text \<open>The transient failures the simulator has still in store for the job.\<close>

definition failures_left :: "db \<Rightarrow> SettlementJob \<Rightarrow> nat" where
  "failures_left d j = (if profile_of d j = ''transient_then_success'' then 2 - length (attempts_of d (sj_ID j)) else 0)"

text \<open>The failures use up the retries of the job before the simulator pays.\<close>

definition gives_up :: "db \<Rightarrow> SettlementJob \<Rightarrow> bool" where
  "gives_up d j \<longleftrightarrow> 0 < failures_left d j \<and> sj_MaxRetries j \<le> sj_RetryCount j + int (failures_left d j)"

definition verdict :: "db \<Rightarrow> SettlementJob \<Rightarrow> SettlementJobStatus" where
  "verdict d j = (if profile_of d j = ''terminal_failure'' \<or> gives_up d j then SettlementJobStatusDeadLetter
     else SettlementJobStatusSucceeded)"

definition runs_needed :: "db \<Rightarrow> SettlementJob \<Rightarrow> nat" where
  "runs_needed d j = (if profile_of d j = ''terminal_failure'' then 1
     else if gives_up d j then max 1 (nat (sj_MaxRetries j - sj_RetryCount j)) else Suc (failures_left d j))"

definition processable :: "db \<Rightarrow> SettlementJob \<Rightarrow> bool" where
  "processable d j \<longleftrightarrow> accepted d j \<and> length (attempts_of d (sj_ID j)) + runs_needed d j < 2 ^ 31"

lemma runs_needed_pos: "0 < runs_needed d j"
  by (auto simp: runs_needed_def max_def)

lemma verdict_final: "verdict d j = SettlementJobStatusSucceeded \<or> verdict d j = SettlementJobStatusDeadLetter"
  by (simp add: verdict_def)

lemma profile_of_investment:
  assumes "schema_ok d" "v \<in> set (investments d)" "inv_ID v = sj_InvestmentID j"
  shows "profile_of d j = (case inv_SimulationProfile v of None \<Rightarrow> [] | Some p \<Rightarrow> p)"
proof -
  have "find (\<lambda>x. inv_ID x = sj_InvestmentID j) (investments d) = Some v"
    using assms by (intro find_uniqueI) (auto simp: schema_ok_def maturities_ok_def dest: distinct_map_same_key)
  then show ?thesis by (simp add: profile_of_def)
qed

text \<open>A move of one job leaves what is decided about the others.\<close>

lemma moves_verdict:
  assumes "moves j j' d d'" "sj_ID k \<noteq> sj_ID j"
  shows "verdict d' k = verdict d k" "runs_needed d' k = runs_needed d k" "processable d' k = processable d k"
proof -
  have "failures_left d' k = failures_left d k" "profile_of d' k = profile_of d k"
    using assms by (simp_all add: moves_def failures_left_def profile_of_def)
  then show "verdict d' k = verdict d k" "runs_needed d' k = runs_needed d k"
    by (simp_all add: verdict_def runs_needed_def gives_up_def)
  then show "processable d' k = processable d k" using assms by (simp add: moves_def processable_def accepted_def)
qed

text \<open>A failure that is retried brings the job one run closer to its verdict.\<close>

definition retried :: "SettlementJob \<Rightarrow> SettlementJob \<Rightarrow> db \<Rightarrow> db \<Rightarrow> bool" where
  "retried j j' d d' \<longleftrightarrow> moves j j' d d' \<and> sj_Status j' = SettlementJobStatusFailed \<and> sj_RetryCount j' = sj_RetryCount j + 1
     \<and> sj_MaxRetries j' = sj_MaxRetries j \<and> sj_InvestmentID j' = sj_InvestmentID j
     \<and> sj_PlatformFeeCents j' = sj_PlatformFeeCents j \<and> sj_WithholdingTaxCents j' = sj_WithholdingTaxCents j
     \<and> length (attempts_of d' (sj_ID j)) = Suc (length (attempts_of d (sj_ID j)))
     \<and> sj_RetryCount j + 1 < sj_MaxRetries j \<and> 0 < failures_left d j"

lemma retried_verdict:
  assumes "retried j j' d d'"
  shows "verdict d' j' = verdict d j" "runs_needed d j = Suc (runs_needed d' j')" "processable d j \<Longrightarrow> processable d' j'"
proof -
  from assms have p: "profile_of d j = ''transient_then_success''" "profile_of d' j' = profile_of d j" "sj_ID j' = sj_ID j"
      "Suc (failures_left d' j') = failures_left d j" "0 < failures_left d j"
    by (auto simp: retried_def moves_def failures_left_def profile_of_def split: if_splits)
  from assms have r: "sj_RetryCount j' = sj_RetryCount j + 1" "sj_MaxRetries j' = sj_MaxRetries j" "sj_RetryCount j + 1 < sj_MaxRetries j"
    by (auto simp: retried_def)
  have g: "gives_up d' j' = gives_up d j" using p(4,5) r by (auto simp: gives_up_def)
  show "verdict d' j' = verdict d j" by (simp add: verdict_def g p)
  show n: "runs_needed d j = Suc (runs_needed d' j')" using r p by (auto simp: runs_needed_def g)
  show "processable d' j'" if "processable d j"
    using that assms n runs_needed_pos [of d' j'] unfolding processable_def accepted_def retried_def moves_def by auto
qed

section \<open>One run\<close>

text \<open>A run on a job whose attempt fails.\<close>

lemma simulator_fails:
  assumes "profile_of d j = (case inv_SimulationProfile v of None \<Rightarrow> [] | Some p \<Rightarrow> p)"
    "next_attempt d (sj_ID j) = int (length (attempts_of d (sj_ID j))) + 1"
    "profile_of d j = ''terminal_failure'' \<or> 0 < failures_left d j"
  shows "\<exists>err. pr_Err (Simulator_Execute L (next_input d j v)) = Some err"
    "failure_class (Simulator_Execute L (next_input d j v)) = (if profile_of d j = ''terminal_failure'' then ErrorClassTerminal else ErrorClassTransient)"
  using assms by (auto simp: Simulator_Execute_def next_input_def failures_left_def failure_class_def Let_def split: if_splits)

lemma errored_row:
  assumes "errored P E w d j v a d'" "in_int32 (sj_RetryCount j + 1)"
  defines "res \<equiv> wp_gateway P (execute_input j v a)"
  shows "\<exists>j' vs. d' = (replace_job j' d)\<lparr>payout_attempts := payout_attempts d @ [attempt_failed E (error_text (the (pr_Err res))) (failure_class res) a],
        audit_events := audit_events d @ vs\<rparr>
     \<and> (if failure_class res = ErrorClassTerminal \<or> sj_MaxRetries j \<le> sj_RetryCount j + 1
        then j' = job_dead E (if failure_class res \<noteq> ErrorClassTerminal then ''max retries exceeded'' else ''terminal payout failure'')
                 (error_text (the (pr_Err res))) (failure_class res) (claimed E w j)
        else \<exists>t. j' = job_failed E t (error_text (the (pr_Err res))) (claimed E w j))"
proof -
  have w: "wrap32 (sj_RetryCount j + 1) = sj_RetryCount j + 1" using assms(2) by (rule wrap32_id)
  show ?thesis using assms(1) unfolding errored_def Let_def res_def [symmetric] failure_class_def [symmetric] w
    by (elim exE conjE) (intro exI conjI, assumption, simp split: if_splits, blast)
qed

lemma failing_step:
  assumes r: "reachable G s" and gw: "wp_gateway (en_processor G) = Simulator_Execute (wp_lib (en_processor G))"
    and L: "identifies (wp_lib (en_processor G)) (sys_db s)"
    and E: "healthy E" "fresh_ids E 0 20 (sys_db s)" and c: "claim_candidate E (sys_db s) = Some j" and p: "accepted (sys_db s) j"
    and f: "profile_of (sys_db s) j = ''terminal_failure'' \<or> 0 < failures_left (sys_db s) j"
  obtains s' j' where "ProcessOne (en_processor G) E w s = (Inr (), s')" "moves j j' (sys_db s) (sys_db s')"
    "if verdict (sys_db s) j = SettlementJobStatusDeadLetter \<and> runs_needed (sys_db s) j = 1
     then sj_Status j' = SettlementJobStatusDeadLetter else retried j j' (sys_db s) (sys_db s')"
proof -
  let ?P = "en_processor G" and ?d = "sys_db s"
  have ok: "schema_ok ?d" using reachable_inv [OF r] by (simp add: engine_inv_def)
  have j: "j \<in> set (settlement_jobs ?d)" by (rule claim_candidate_SomeD(1) [OF c])
  obtain v where v: "v \<in> set (investments ?d)" "inv_ID v = sj_InvestmentID j" by (rule reachable_postable [OF r j p])
  note due = reachable_due [OF r L c p v]
  have t: "trail j (attempts_of ?d (sj_ID j))" using reachable_records_ok [OF r] j by (auto simp: records_ok_def record_ok_def)
  have st: "sj_Status j \<noteq> SettlementJobStatusSucceeded" using claim_status [OF c] by auto
  have rc: "0 \<le> sj_RetryCount j" using ok j by (auto simp: schema_ok_def jobs_ok_def job_checks_def)
  have "sj_RetryCount j \<le> int (length (attempts_of ?d (sj_ID j)))" using t st by (simp add: trail_def)
  with p rc have i32: "in_int32 (sj_RetryCount j + 1)" by (auto simp: accepted_def in_int32_def)
  note sim = simulator_fails [OF profile_of_investment [OF ok v] trail_next_attempt [OF t] f, of "wp_lib ?P"]
  obtain err where err: "pr_Err (wp_gateway ?P (next_input ?d j v)) = Some err" using sim(1) gw by auto
  have cls: "error_class_valid (failure_class (wp_gateway ?P (next_input ?d j v)))" by (simp add: gw sim(2) error_class_valid_def)
  have n: "in_int32 (next_attempt ?d (sj_ID j))" "sj_ID j \<noteq> uuid_Nil" using due p by (auto simp: due_for_payment_def accepted_def)
  have E8: "fresh_ids E 0 8 ?d" using E(2) by (force simp: fresh_ids_def intro: inj_on_subset)
  obtain s' a where run: "ProcessOne ?P E w s = (Inr (), s')" and fl: "flight_ok E ?d j v a"
      and i: "execute_input j v a = next_input ?d j v" and e: "errored ?P E w ?d j v a (sys_db s')"
    by (rule ProcessOne_fails [OF E(1) E8 c ok v n i32 err cls])
  let ?c = "failure_class (wp_gateway ?P (next_input ?d j v))"
  define dead where "dead \<longleftrightarrow> ?c = ErrorClassTerminal \<or> sj_MaxRetries j \<le> sj_RetryCount j + 1"
  obtain j' vs where d': "sys_db s' = (replace_job j' ?d)\<lparr>payout_attempts := payout_attempts ?d @ [attempt_failed E (error_text err) ?c a],
        audit_events := audit_events ?d @ vs\<rparr>"
      and j': "if dead then j' = job_dead E (if ?c \<noteq> ErrorClassTerminal then ''max retries exceeded'' else ''terminal payout failure'')
                 (error_text err) ?c (claimed E w j) else \<exists>t. j' = job_failed E t (error_text err) (claimed E w j)"
    using errored_row [OF e i32] unfolding i err option.sel dead_def by blast
  have a: "pa_SettlementJobID a = sj_ID j" using fl by (auto simp: flight_ok_def new_attempt_def)
  have id: "sj_ID j' = sj_ID j" using j' by (auto split: if_splits)
  have at: "attempts_of (sys_db s') k = attempts_of ?d k @ (if k = sj_ID j then [attempt_failed E (error_text err) ?c a] else [])" for k
    by (simp add: d' attempts_of_def a attempt_failed_def)
  have m: "moves j j' ?d (sys_db s')" using id at d' unfolding moves_def by simp
  have dead: "dead \<longleftrightarrow> verdict ?d j = SettlementJobStatusDeadLetter \<and> runs_needed ?d j = 1"
    using f unfolding dead_def gw sim(2) verdict_def runs_needed_def gives_up_def by (auto simp: max_def)
  show thesis
  proof (rule that [OF run m], cases dead)
    case False
    moreover from this have "0 < failures_left ?d j" "sj_RetryCount j + 1 < sj_MaxRetries j" using f by (auto simp: dead_def gw sim(2))
    ultimately show "if verdict ?d j = SettlementJobStatusDeadLetter \<and> runs_needed ?d j = 1
     then sj_Status j' = SettlementJobStatusDeadLetter else retried j j' ?d (sys_db s')"
      using j' m at dead by (auto simp: retried_def job_failed_def claimed_def)
  qed (use j' dead in simp)
qed

text \<open>One run on a waiting job: it reaches its verdict when one run was needed, and comes one run closer otherwise.\<close>

definition progresses :: "SettlementJob \<Rightarrow> SettlementJob \<Rightarrow> db \<Rightarrow> db \<Rightarrow> bool" where
  "progresses j j' d d' \<longleftrightarrow> (if runs_needed d j = 1 then moves j j' d d' \<and> sj_Status j' = verdict d j else retried j j' d d')"

lemma progresses_moves: "progresses j j' d d' \<Longrightarrow> moves j j' d d'"
  by (auto simp: progresses_def retried_def split: if_splits)

lemma progress_step:
  assumes r: "reachable G s" and gw: "wp_gateway (en_processor G) = Simulator_Execute (wp_lib (en_processor G))"
    and L: "identifies (wp_lib (en_processor G)) (sys_db s)"
    and E: "healthy E" "fresh_ids E 0 20 (sys_db s)" and c: "claim_candidate E (sys_db s) = Some j" and p: "accepted (sys_db s) j"
  obtains s' j' where "ProcessOne (en_processor G) E w s = (Inr (), s')" "progresses j j' (sys_db s) (sys_db s')"
proof (cases "profile_of (sys_db s) j = ''terminal_failure'' \<or> 0 < failures_left (sys_db s) j")
  case True
  obtain s' j' where run: "ProcessOne (en_processor G) E w s = (Inr (), s')" "moves j j' (sys_db s) (sys_db s')"
    "if verdict (sys_db s) j = SettlementJobStatusDeadLetter \<and> runs_needed (sys_db s) j = 1
     then sj_Status j' = SettlementJobStatusDeadLetter else retried j j' (sys_db s) (sys_db s')"
    by (rule failing_step [OF r gw L E c p True])
  moreover have "verdict (sys_db s) j = SettlementJobStatusDeadLetter" if "runs_needed (sys_db s) j = 1"
    using that True by (auto simp: verdict_def runs_needed_def split: if_splits)
  ultimately show thesis by (intro that [of s' j']) (auto simp: progresses_def)
next
  case False
  have ok: "schema_ok (sys_db s)" using reachable_inv [OF r] by (simp add: engine_inv_def)
  have "payable (sys_db s) j"
    using p False profile_of_investment [OF ok] by (fastforce simp: payable_def failures_left_def split: if_splits)
  then obtain s' where run: "ProcessOne (en_processor G) E w s = (Inr (), s')" "settles j (sys_db s) (sys_db s')"
    by (rule settles_step [OF r gw L E c])
  moreover have "verdict (sys_db s) j = SettlementJobStatusSucceeded" "runs_needed (sys_db s) j = 1"
    using False by (auto simp: verdict_def runs_needed_def gives_up_def)
  ultimately show thesis using that by (auto simp: progresses_def settles_def)
qed

section \<open>The queue\<close>

text \<open>A sequence of runs, of any workers, each in its own environment.\<close>

primrec work_runs :: "Processor \<Rightarrow> (nat \<Rightarrow> string) \<Rightarrow> (nat \<Rightarrow> tx_env) \<Rightarrow> nat \<Rightarrow> sys \<Rightarrow> sys" where
  "work_runs P ws Es 0 s = s"
| "work_runs P ws Es (Suc n) s = work_runs P (\<lambda>i. ws (Suc i)) (\<lambda>i. Es (Suc i)) n (snd (ProcessOne P (Es 0) (ws 0) s))"

text \<open>
  What the runs are given: as long as a job waits, no statement of the next run fails, the identifiers it draws are new, and one of the
  waiting jobs may be claimed.
\<close>

definition serves :: "Processor \<Rightarrow> (nat \<Rightarrow> string) \<Rightarrow> (nat \<Rightarrow> tx_env) \<Rightarrow> nat \<Rightarrow> sys \<Rightarrow> bool" where
  "serves P ws Es n s \<longleftrightarrow> (\<forall>i < n. let d = sys_db (work_runs P ws Es i s) in waiting_jobs d \<noteq> [] \<longrightarrow>
     healthy (Es i) \<and> fresh_ids (Es i) 0 20 d \<and> list_ex (available (Es i)) (waiting_jobs d))"

lemma serves_Suc:
  assumes "serves P ws Es (Suc n) s"
  shows "serves P (\<lambda>i. ws (Suc i)) (\<lambda>i. Es (Suc i)) n (snd (ProcessOne P (Es 0) (ws 0) s))"
  unfolding serves_def
proof (intro allI impI)
  fix i assume "i < n"
  then show "let d = sys_db (work_runs P (\<lambda>i. ws (Suc i)) (\<lambda>i. Es (Suc i)) i (snd (ProcessOne P (Es 0) (ws 0) s))) in waiting_jobs d \<noteq> [] \<longrightarrow>
     healthy (Es (Suc i)) \<and> fresh_ids (Es (Suc i)) 0 20 d \<and> list_ex (available (Es (Suc i))) (waiting_jobs d)"
    using assms [unfolded serves_def, rule_format, of "Suc i"] by simp
qed

lemma idle_run:
  assumes "waiting_jobs (sys_db s) = []"
  shows "sys_db (snd (ProcessOne P E w s)) = sys_db s"
proof -
  have "claim_candidate E (sys_db s) = None"
    using assms claim_candidate_available(2) [of E "sys_db s"] by (cases "claim_candidate E (sys_db s)") (auto simp: waiting_jobs_def filter_empty_conv)
  then have "\<exists>e st. process_body P E w (begin_tx s) = (Inl e, st)"
    by (simp add: process_body_def bindE_def tryE_def SettlementJobRepo_Claim_def noRowsAs_def run_stmt_def
        ClaimSettlementJob_def failE_def)
  then show ?thesis by (auto simp: ProcessOne_def WithTx_def)
qed

lemma idle_runs:
  "waiting_jobs (sys_db s) = [] \<Longrightarrow> sys_db (work_runs P ws Es n s) = sys_db s"
  by (induction n arbitrary: s ws Es) (simp_all add: idle_run)

text \<open>The runs that the waiting jobs still need.\<close>

definition pending_runs :: "db \<Rightarrow> nat" where
  "pending_runs d = sum_list (map (runs_needed d) (waiting_jobs d))"

lemma pending_runs_zero: "pending_runs d = 0 \<longleftrightarrow> waiting_jobs d = []"
  using runs_needed_pos [of d] by (cases "waiting_jobs d") (simp_all add: pending_runs_def)

lemma moves_stays:
  assumes "moves j j' d d'" "waiting j'" "j \<in> set (waiting_jobs d)" "distinct (map sj_ID (settlement_jobs d))"
  shows "waiting_jobs d' = map (\<lambda>k. if sj_ID k = sj_ID j then j' else k) (waiting_jobs d)"
proof -
  have "filter waiting (map (\<lambda>k. if sj_ID k = sj_ID j then j' else k) ks) = map (\<lambda>k. if sj_ID k = sj_ID j then j' else k) (filter waiting ks)"
    if "\<forall>k \<in> set ks. sj_ID k = sj_ID j \<longrightarrow> waiting k" for ks
    using that assms(2) by (induction ks) auto
  moreover have "waiting k" if "k \<in> set (settlement_jobs d)" "sj_ID k = sj_ID j" for k
    using that assms(3,4) distinct_map_same_key [of sj_ID "settlement_jobs d" k j] by (auto simp: waiting_jobs_def)
  ultimately show ?thesis using assms(1) by (simp add: moves_def waiting_jobs_def replace_job_def)
qed

lemma sum_list_change:
  assumes "distinct (map key xs)" "x \<in> set xs" "\<And>y. y \<in> set xs \<Longrightarrow> key y \<noteq> key x \<Longrightarrow> g y = (f y :: nat)"
  shows "sum_list (map g (filter (\<lambda>y. key y \<noteq> key x) xs)) + f x = sum_list (map f xs)"
    "sum_list (map g (map (\<lambda>y. if key y = key x then x' else y) xs)) + f x = sum_list (map f xs) + g x'"
proof -
  have other: "sum_list (map g (filter (\<lambda>y. key y \<noteq> key x) ys)) = sum_list (map f ys)"
    "sum_list (map g (map (\<lambda>y. if key y = key x then x' else y) ys)) = sum_list (map f ys)"
    if "key x \<notin> key ` set ys" "set ys \<subseteq> set xs" for ys
    using that assms(3) by (induction ys) auto
  obtain ys zs where xs: "xs = ys @ x # zs" using split_list [OF assms(2)] by blast
  with assms(1) have "key x \<notin> key ` set ys" "key x \<notin> key ` set zs" by auto
  then have "sum_list (map g (filter (\<lambda>y. key y \<noteq> key x) l)) = sum_list (map f l)"
      "sum_list (map g (map (\<lambda>y. if key y = key x then x' else y) l)) = sum_list (map f l)" if "l = ys \<or> l = zs" for l
    using other [of l] that xs by auto
  from this [of ys] this [of zs] xs show "sum_list (map g (filter (\<lambda>y. key y \<noteq> key x) xs)) + f x = sum_list (map f xs)"
    "sum_list (map g (map (\<lambda>y. if key y = key x then x' else y) xs)) + f x = sum_list (map f xs) + g x'"
    by simp_all
qed

lemma progresses_pending:
  assumes "progresses j j' d d'" "j \<in> set (waiting_jobs d)" "distinct (map sj_ID (settlement_jobs d))"
  shows "Suc (pending_runs d') = pending_runs d"
proof -
  note m = progresses_moves [OF assms(1)]
  have dist: "distinct (map sj_ID (waiting_jobs d))" using assms(3) by (simp add: waiting_jobs_def distinct_map_filter)
  have same: "runs_needed d' k = runs_needed d k" if "sj_ID k \<noteq> sj_ID j" for k by (rule moves_verdict(2) [OF m that])
  note sums = sum_list_change [of sj_ID "waiting_jobs d" j "runs_needed d'" "runs_needed d", OF dist assms(2) same]
  show ?thesis
  proof (cases "runs_needed d j = 1")
    case True
    with assms(1) have "\<not> waiting j'" using verdict_final [of d j] by (auto simp: progresses_def waiting_def)
    with sums(1) moves_away [OF m] True show ?thesis by (simp add: pending_runs_def)
  next
    case False
    with assms(1) have r: "retried j j' d d'" by (simp add: progresses_def)
    then have "waiting j'" by (simp add: retried_def waiting_def)
    with sums(2) [of j'] moves_stays [OF m _ assms(2,3)] retried_verdict(2) [OF r] show ?thesis by (simp add: pending_runs_def)
  qed
qed

text \<open>What a step of progress keeps of the queue: the jobs that still wait are processable and have the verdict they had.\<close>

lemma progresses_processable:
  assumes "progresses j j' d d'" "j \<in> set (waiting_jobs d)" "distinct (map sj_ID (settlement_jobs d))"
    "\<forall>k \<in> set (waiting_jobs d). processable d k" "k \<in> set (waiting_jobs d')"
  shows "processable d' k"
proof (cases "sj_ID k = sj_ID j")
  case False
  note m = progresses_moves [OF assms(1)]
  have "k \<in> set (waiting_jobs d)" using assms(5) m False by (auto simp: waiting_jobs_def moves_def replace_job_def split: if_splits)
  then show ?thesis using assms(4) moves_verdict(3) [OF m False] by simp
next
  case True
  note m = progresses_moves [OF assms(1)]
  have "k = j'" "waiting j'" using assms(5) m True by (auto simp: waiting_jobs_def moves_def replace_job_def split: if_splits)
  moreover from this have "retried j j' d d'" using assms(1) verdict_final [of d j] by (auto simp: progresses_def waiting_def split: if_splits)
  ultimately show ?thesis using assms(2,4) retried_verdict(3) by blast
qed

lemma progresses_verdict:
  assumes "progresses j j' d d'" "j \<in> set (settlement_jobs d)"
    "k \<in> set (waiting_jobs d)" "distinct (map sj_ID (settlement_jobs d))"
  shows "\<exists>k' \<in> set (settlement_jobs d'). sj_ID k' = sj_ID k \<and> (if waiting k' then verdict d' k' = verdict d k else sj_Status k' = verdict d k)"
proof (cases "sj_ID k = sj_ID j")
  case False
  note m = progresses_moves [OF assms(1)]
  have "k \<in> set (settlement_jobs d')" "waiting k" using assms(3) False by (auto simp: waiting_jobs_def intro: moves_others [OF m])
  then show ?thesis using moves_verdict(1) [OF m False] by auto
next
  case True
  then have "k = j" using assms(2-4) distinct_map_same_key [of sj_ID "settlement_jobs d" k j] by (auto simp: waiting_jobs_def)
  moreover have "sj_ID j' = sj_ID j" "j' \<in> set (settlement_jobs d')"
    using moves_in [OF progresses_moves [OF assms(1)] assms(2)] progresses_moves [OF assms(1)] by (auto simp: moves_def)
  moreover have "if waiting j' then verdict d' j' = verdict d j else sj_Status j' = verdict d j"
  proof (cases "runs_needed d j = 1")
    case True
    then show ?thesis using assms(1) verdict_final [of d j] by (auto simp: progresses_def waiting_def)
  next
    case False
    with assms(1) have r: "retried j j' d d'" by (simp add: progresses_def)
    then have "waiting j'" by (simp add: retried_def waiting_def)
    with retried_verdict(1) [OF r] show ?thesis by simp
  qed
  ultimately show ?thesis by blast
qed

text \<open>The outcome of the queue: none waits, each has its verdict, and the others are as they were.\<close>

definition concluded :: "db \<Rightarrow> db \<Rightarrow> bool" where
  "concluded d d' \<longleftrightarrow> waiting_jobs d' = []
     \<and> (\<forall>j \<in> set (waiting_jobs d). \<exists>j' \<in> set (settlement_jobs d'). sj_ID j' = sj_ID j \<and> sj_Status j' = verdict d j)
     \<and> (\<forall>k \<in> set (settlement_jobs d). \<not> waiting k \<longrightarrow> k \<in> set (settlement_jobs d'))"

lemma progresses_concluded:
  assumes p: "progresses j j' d d'" and j: "j \<in> set (waiting_jobs d)" and dist: "distinct (map sj_ID (settlement_jobs d))"
    and fin: "concluded d' d''"
  shows "concluded d d''"
proof -
  have jd: "j \<in> set (settlement_jobs d)" "waiting j" using j by (simp_all add: waiting_jobs_def)
  have "\<exists>k' \<in> set (settlement_jobs d''). sj_ID k' = sj_ID k \<and> sj_Status k' = verdict d k" if k: "k \<in> set (waiting_jobs d)" for k
  proof -
    obtain k1 where k1: "k1 \<in> set (settlement_jobs d')" "sj_ID k1 = sj_ID k"
        "if waiting k1 then verdict d' k1 = verdict d k else sj_Status k1 = verdict d k"
      using progresses_verdict [OF p jd(1) k dist] by blast
    show ?thesis
    proof (cases "waiting k1")
      case True
      with k1(1) have "k1 \<in> set (waiting_jobs d')" by (simp add: waiting_jobs_def)
      with fin have "\<exists>k' \<in> set (settlement_jobs d''). sj_ID k' = sj_ID k1 \<and> sj_Status k' = verdict d' k1" by (simp add: concluded_def)
      with k1(2,3) True show ?thesis by simp
    next
      case False
      with k1 fin show ?thesis unfolding concluded_def by auto
    qed
  qed
  moreover have "k \<in> set (settlement_jobs d'')" if "k \<in> set (settlement_jobs d)" "\<not> waiting k" for k
  proof -
    have "sj_ID k \<noteq> sj_ID j" using that jd dist distinct_map_same_key [of sj_ID "settlement_jobs d" k j] by auto
    with that fin moves_others [OF progresses_moves [OF p]] show ?thesis by (simp add: concluded_def)
  qed
  ultimately show ?thesis using fin by (simp add: concluded_def)
qed

lemma runs_finish:
  assumes "reachable G s" "wp_gateway (en_processor G) = Simulator_Execute (wp_lib (en_processor G))"
    "identifies (wp_lib (en_processor G)) (sys_db s)" "serves (en_processor G) ws Es n s"
    "\<forall>j \<in> set (waiting_jobs (sys_db s)). processable (sys_db s) j" "pending_runs (sys_db s) \<le> n"
  shows "concluded (sys_db s) (sys_db (work_runs (en_processor G) ws Es n s))"
  using assms(1,3-)
proof (induction n arbitrary: s ws Es)
  case 0
  then show ?case using pending_runs_zero [of "sys_db s"] by (simp add: concluded_def)
next
  case (Suc n)
  note h = Suc.prems
  let ?d = "sys_db s"
  show ?case
  proof (cases "waiting_jobs ?d = []")
    case True
    then show ?thesis using idle_runs [OF True, of "en_processor G" ws Es "Suc n"] by (simp add: concluded_def)
  next
    case False
    with h(3) have E: "healthy (Es 0)" "fresh_ids (Es 0) 0 20 ?d" "list_ex (available (Es 0)) (waiting_jobs ?d)"
      unfolding serves_def by (fastforce simp: Let_def dest: spec [where x = 0])+
    then obtain j where c: "claim_candidate (Es 0) ?d = Some j"
      using claim_candidate_available(1) [of "Es 0" ?d] by (cases "claim_candidate (Es 0) ?d") (auto simp: list_ex_iff waiting_jobs_def)
    then have j: "j \<in> set (waiting_jobs ?d)" using claim_candidate_available(2) [OF c] by (simp add: waiting_jobs_def)
    obtain s' j' where run: "ProcessOne (en_processor G) (Es 0) (ws 0) s = (Inr (), s')" and p: "progresses j j' ?d (sys_db s')"
      by (rule progress_step [OF h(1) assms(2) h(2) E(1,2) c]) (use h(4) j in \<open>auto simp: processable_def\<close>)
    have dist: "distinct (map sj_ID (settlement_jobs ?d))"
      using reachable_inv [OF h(1)] by (simp add: engine_inv_def schema_ok_def jobs_ok_def)
    have "concluded (sys_db s') (sys_db (work_runs (en_processor G) (\<lambda>i. ws (Suc i)) (\<lambda>i. Es (Suc i)) n s'))"
    proof (rule Suc.IH)
      show "reachable G s'" using reachable.step [OF h(1) engine_step.work, of "Es 0" "ws 0"] run by simp
      show "identifies (wp_lib (en_processor G)) (sys_db s')" by (rule moves_identifies [OF progresses_moves [OF p] h(2)])
      show "serves (en_processor G) (\<lambda>i. ws (Suc i)) (\<lambda>i. Es (Suc i)) n s'" using serves_Suc [OF h(3)] run by simp
      show "\<forall>k \<in> set (waiting_jobs (sys_db s')). processable (sys_db s') k"
        using progresses_processable [OF p j dist h(4)] by blast
      show "pending_runs (sys_db s') \<le> n" using progresses_pending [OF p j dist] h(5) by simp
    qed
    from progresses_concluded [OF p j dist this] run show ?thesis by simp
  qed
qed

section \<open>Every job reaches its verdict\<close>

text \<open>
  C6. The engine finishes: let \<open>n\<close> be at least the number of runs the waiting jobs of a reachable state need, by the profiles of their
  investments, their attempts and their retries. When, as long as a job waits, the next run meets no failing statement, draws new
  identifiers and may claim some waiting job, then after \<open>n\<close> runs of any workers no job waits, each that waited has its verdict - succeeded,
  or dead when its failures are terminal or outlast its retries - and every other job is as it was.
\<close>

theorem queue_finishes:
  assumes "reachable G s" "wp_gateway (en_processor G) = Simulator_Execute (wp_lib (en_processor G))"
    "identifies (wp_lib (en_processor G)) (sys_db s)" "serves (en_processor G) ws Es n s"
    "\<forall>j \<in> set (waiting_jobs (sys_db s)). processable (sys_db s) j" "pending_runs (sys_db s) \<le> n"
  shows "waiting_jobs (sys_db (work_runs (en_processor G) ws Es n s)) = []
    \<and> (\<forall>j \<in> set (waiting_jobs (sys_db s)). \<exists>j' \<in> set (settlement_jobs (sys_db (work_runs (en_processor G) ws Es n s))).
         sj_ID j' = sj_ID j \<and> sj_Status j' = verdict (sys_db s) j)
    \<and> (\<forall>k \<in> set (settlement_jobs (sys_db s)). \<not> waiting k \<longrightarrow> k \<in> set (settlement_jobs (sys_db (work_runs (en_processor G) ws Es n s))))"
  using runs_finish [OF assms] unfolding concluded_def .

lemma demo_verdict:
  "verdict (sys_db (demo_sys1 (Some ''terminal_failure''))) demo_job = SettlementJobStatusDeadLetter"
  "processable (sys_db (demo_sys1 (Some ''terminal_failure''))) demo_job"
  "pending_runs (sys_db (demo_sys1 (Some ''terminal_failure''))) = 1"
  using demo_ready(5) [of "Some ''terminal_failure''"]
  by (simp_all add: verdict_def processable_def accepted_def runs_needed_def pending_runs_def profile_of_def demo_rows attempts_of_def)

theorem queue_finishes_witness:
  "waiting_jobs (sys_db (demo_sys1 (Some ''terminal_failure''))) = [demo_job]
   \<and> (\<exists>j' \<in> set (settlement_jobs (sys_db (work_runs (en_processor demo_engine) (\<lambda>_. ''w'') (\<lambda>_. demo_env 1) 1 (demo_sys1 (Some ''terminal_failure''))))).
        sj_ID j' = 102 \<and> sj_Status j' = SettlementJobStatusDeadLetter)"
proof -
  have "serves (en_processor demo_engine) (\<lambda>_. ''w'') (\<lambda>_. demo_env 1) 1 (demo_sys1 (Some ''terminal_failure''))"
    using demo_ready by (simp add: serves_def)
  then show ?thesis
    using queue_finishes [OF demo_reachable(2), of "Some ''terminal_failure''" "\<lambda>_. ''w''" "\<lambda>_. demo_env 1" 1]
      demo_identifies [of "Some ''terminal_failure''"] demo_verdict demo_ready(5) [of "Some ''terminal_failure''"] by (auto simp: demo_job_def)
qed

end
