(* ===== verification/Swagger.thy ===== *)
theory Swagger
  imports Router
begin

text \<open>
  \<^verbatim>\<open>docs/docs.go\<close>: the API description that the process serves under \<^verbatim>\<open>/swagger\<close>, as data. A path item is the
  list of its methods with their operations; a schema is what the \<^verbatim>\<open>definitions\<close> of the document are written with.
  What a schema says of a JSON value is \<open>conforms\<close>; the theory \<open>Api_Contract\<close> relates the document to the router and the handlers.
\<close>

section \<open>The language of the document\<close>

text \<open>\<open>SMap\<close> is an object with \<^verbatim>\<open>additionalProperties\<close>; \<open>SAny\<close> is the empty schema, which the document does not use.\<close>

datatype schema = SRef string | SString | SInteger | SBoolean | SArray schema | SObject "(string \<times> schema) list" | SMap schema | SAny

record swag_param =
  sp_type :: string
  sp_description :: string
  sp_name :: string
  sp_in :: string
  sp_required :: bool

record swag_operation =
  so_produces :: "string list"
  so_tags :: "string list"
  so_summary :: string
  so_parameters :: "swag_param list"
  so_responses :: "(string \<times> (string \<times> schema)) list"

type_synonym path_item = "(string \<times> swag_operation) list"

text \<open>The names of the definitions, after \<^verbatim>\<open>#/definitions/\<close> in a reference.\<close>

definition dto :: "string \<Rightarrow> string" where
  "dto name = ''github_com_vamshiganesh_arrakin_internal_api_dto.'' @ name"

lemma dto_eq [simp]: "dto a = dto b \<longleftrightarrow> a = b"
  by (simp add: dto_def)

section \<open>The paths\<close>

definition doc_admin_scheduler_tick :: path_item where
  "doc_admin_scheduler_tick =
    [(''post'', \<lparr>so_produces = [''application/json''], so_tags = [''admin''], so_summary = ''Manually trigger scheduler maturity scan'',
      so_parameters = [\<lparr>sp_type = ''string'', sp_description = ''Idempotency key'', sp_name = ''Idempotency-Key'', sp_in = ''header'', sp_required = False\<rparr>],
      so_responses = [(''200'', (''OK'', SRef (dto ''SchedulerTickResponse'')))]\<rparr>)]"

definition doc_audit_events :: path_item where
  "doc_audit_events =
    [(''get'', \<lparr>so_produces = [''application/json''], so_tags = [''audit''], so_summary = ''List audit events'',
      so_parameters = [\<lparr>sp_type = ''string'', sp_description = ''Entity type filter'', sp_name = ''entity_type'', sp_in = ''query'', sp_required = False\<rparr>,
         \<lparr>sp_type = ''string'', sp_description = ''Entity UUID filter'', sp_name = ''entity_id'', sp_in = ''query'', sp_required = False\<rparr>,
         \<lparr>sp_type = ''string'', sp_description = ''Action filter'', sp_name = ''action'', sp_in = ''query'', sp_required = False\<rparr>,
         \<lparr>sp_type = ''integer'', sp_description = ''Page size'', sp_name = ''limit'', sp_in = ''query'', sp_required = False\<rparr>,
         \<lparr>sp_type = ''string'', sp_description = ''Pagination cursor'', sp_name = ''cursor'', sp_in = ''query'', sp_required = False\<rparr>],
      so_responses = [(''200'', (''OK'', SRef (dto ''AuditEventListResponse'')))]\<rparr>)]"

definition doc_ledger_accounts :: path_item where
  "doc_ledger_accounts =
    [(''get'', \<lparr>so_produces = [''application/json''], so_tags = [''ledger''], so_summary = ''List ledger accounts'',
      so_parameters = [],
      so_responses = [(''200'', (''OK'', SRef (dto ''LedgerAccountListResponse'')))]\<rparr>)]"

definition doc_ledger_entries :: path_item where
  "doc_ledger_entries =
    [(''get'', \<lparr>so_produces = [''application/json''], so_tags = [''ledger''], so_summary = ''List ledger entries'',
      so_parameters = [\<lparr>sp_type = ''string'', sp_description = ''Settlement job UUID'', sp_name = ''settlement_job_id'', sp_in = ''query'', sp_required = False\<rparr>,
         \<lparr>sp_type = ''string'', sp_description = ''Ledger account code'', sp_name = ''account_code'', sp_in = ''query'', sp_required = False\<rparr>,
         \<lparr>sp_type = ''string'', sp_description = ''Posted at from (RFC3339)'', sp_name = ''from'', sp_in = ''query'', sp_required = False\<rparr>,
         \<lparr>sp_type = ''string'', sp_description = ''Posted at to (RFC3339)'', sp_name = ''to'', sp_in = ''query'', sp_required = False\<rparr>,
         \<lparr>sp_type = ''integer'', sp_description = ''Page size'', sp_name = ''limit'', sp_in = ''query'', sp_required = False\<rparr>,
         \<lparr>sp_type = ''string'', sp_description = ''Pagination cursor'', sp_name = ''cursor'', sp_in = ''query'', sp_required = False\<rparr>],
      so_responses = [(''200'', (''OK'', SRef (dto ''LedgerEntryListResponse'')))]\<rparr>)]"

definition doc_reconciliation_latest :: path_item where
  "doc_reconciliation_latest =
    [(''get'', \<lparr>so_produces = [''application/json''], so_tags = [''reconciliation''], so_summary = ''Get latest reconciliation snapshot'',
      so_parameters = [],
      so_responses = [(''200'', (''OK'', SRef (dto ''ReconciliationResponse'')))]\<rparr>)]"

definition doc_reconciliation_run :: path_item where
  "doc_reconciliation_run =
    [(''post'', \<lparr>so_produces = [''application/json''], so_tags = [''reconciliation''], so_summary = ''Run reconciliation snapshot now'',
      so_parameters = [\<lparr>sp_type = ''string'', sp_description = ''Idempotency key'', sp_name = ''Idempotency-Key'', sp_in = ''header'', sp_required = False\<rparr>],
      so_responses = [(''200'', (''OK'', SRef (dto ''ReconciliationResponse'')))]\<rparr>)]"

definition doc_reconciliation_snapshots :: path_item where
  "doc_reconciliation_snapshots =
    [(''get'', \<lparr>so_produces = [''application/json''], so_tags = [''reconciliation''], so_summary = ''List reconciliation snapshots'',
      so_parameters = [\<lparr>sp_type = ''integer'', sp_description = ''Page size'', sp_name = ''limit'', sp_in = ''query'', sp_required = False\<rparr>,
         \<lparr>sp_type = ''string'', sp_description = ''Pagination cursor'', sp_name = ''cursor'', sp_in = ''query'', sp_required = False\<rparr>],
      so_responses = [(''200'', (''OK'', SRef (dto ''ReconciliationListResponse'')))]\<rparr>)]"

definition doc_settlement_jobs :: path_item where
  "doc_settlement_jobs =
    [(''get'', \<lparr>so_produces = [''application/json''], so_tags = [''settlement-jobs''], so_summary = ''List settlement jobs'',
      so_parameters = [\<lparr>sp_type = ''string'', sp_description = ''Job status filter'', sp_name = ''status'', sp_in = ''query'', sp_required = False\<rparr>,
         \<lparr>sp_type = ''string'', sp_description = ''Investment UUID filter'', sp_name = ''investment_id'', sp_in = ''query'', sp_required = False\<rparr>,
         \<lparr>sp_type = ''integer'', sp_description = ''Page size (max 200)'', sp_name = ''limit'', sp_in = ''query'', sp_required = False\<rparr>,
         \<lparr>sp_type = ''string'', sp_description = ''Pagination cursor'', sp_name = ''cursor'', sp_in = ''query'', sp_required = False\<rparr>],
      so_responses = [(''200'', (''OK'', SRef (dto ''SettlementJobListResponse'')))]\<rparr>)]"

definition doc_settlement_jobs_id :: path_item where
  "doc_settlement_jobs_id =
    [(''get'', \<lparr>so_produces = [''application/json''], so_tags = [''settlement-jobs''], so_summary = ''Get settlement job by ID'',
      so_parameters = [\<lparr>sp_type = ''string'', sp_description = ''Job UUID'', sp_name = ''id'', sp_in = ''path'', sp_required = True\<rparr>],
      so_responses = [(''200'', (''OK'', SRef (dto ''SettlementJobResponse'')))]\<rparr>)]"

definition doc_settlement_jobs_id_attempts :: path_item where
  "doc_settlement_jobs_id_attempts =
    [(''get'', \<lparr>so_produces = [''application/json''], so_tags = [''settlement-jobs''], so_summary = ''List payout attempts for a job'',
      so_parameters = [\<lparr>sp_type = ''string'', sp_description = ''Job UUID'', sp_name = ''id'', sp_in = ''path'', sp_required = True\<rparr>],
      so_responses = [(''200'', (''OK'', SRef (dto ''PayoutAttemptListResponse'')))]\<rparr>)]"

definition doc_settlement_jobs_id_replay :: path_item where
  "doc_settlement_jobs_id_replay =
    [(''post'', \<lparr>so_produces = [''application/json''], so_tags = [''settlement-jobs''], so_summary = ''Replay a dead-letter settlement job'',
      so_parameters = [\<lparr>sp_type = ''string'', sp_description = ''Job UUID'', sp_name = ''id'', sp_in = ''path'', sp_required = True\<rparr>,
         \<lparr>sp_type = ''string'', sp_description = ''Idempotency key'', sp_name = ''Idempotency-Key'', sp_in = ''header'', sp_required = False\<rparr>],
      so_responses = [(''200'', (''OK'', SRef (dto ''JobActionResponse'')))]\<rparr>)]"

definition doc_settlement_jobs_id_requeue :: path_item where
  "doc_settlement_jobs_id_requeue =
    [(''post'', \<lparr>so_produces = [''application/json''], so_tags = [''settlement-jobs''], so_summary = ''Requeue a failed settlement job for immediate retry'',
      so_parameters = [\<lparr>sp_type = ''string'', sp_description = ''Job UUID'', sp_name = ''id'', sp_in = ''path'', sp_required = True\<rparr>,
         \<lparr>sp_type = ''string'', sp_description = ''Idempotency key'', sp_name = ''Idempotency-Key'', sp_in = ''header'', sp_required = False\<rparr>],
      so_responses = [(''200'', (''OK'', SRef (dto ''JobActionResponse'')))]\<rparr>)]"

definition swag_paths :: "(string \<times> path_item) list" where
  "swag_paths =
    [(''/admin/scheduler/tick'', doc_admin_scheduler_tick),
     (''/audit/events'', doc_audit_events),
     (''/ledger/accounts'', doc_ledger_accounts),
     (''/ledger/entries'', doc_ledger_entries),
     (''/reconciliation/latest'', doc_reconciliation_latest),
     (''/reconciliation/run'', doc_reconciliation_run),
     (''/reconciliation/snapshots'', doc_reconciliation_snapshots),
     (''/settlement-jobs'', doc_settlement_jobs),
     (''/settlement-jobs/{id}'', doc_settlement_jobs_id),
     (''/settlement-jobs/{id}/attempts'', doc_settlement_jobs_id_attempts),
     (''/settlement-jobs/{id}/replay'', doc_settlement_jobs_id_replay),
     (''/settlement-jobs/{id}/requeue'', doc_settlement_jobs_id_requeue)]"

section \<open>The definitions\<close>

definition doc_AuditEventListResponse :: schema where
  "doc_AuditEventListResponse = SObject
    [(''items'', SArray (SRef (dto ''AuditEventResponse''))), (''page'', SRef (dto ''PageMeta''))]"

definition doc_AuditEventResponse :: schema where
  "doc_AuditEventResponse = SObject
    [(''action'', SString), (''actor_id'', SString), (''actor_type'', SString), (''correlation_id'', SString),
     (''entity_id'', SString), (''entity_type'', SString), (''id'', SString), (''occurred_at'', SString),
     (''payload'', SArray SInteger)]"

definition doc_JobActionResponse :: schema where
  "doc_JobActionResponse = SObject
    [(''job'', SRef (dto ''SettlementJobResponse''))]"

definition doc_LedgerAccountListResponse :: schema where
  "doc_LedgerAccountListResponse = SObject
    [(''items'', SArray (SRef (dto ''LedgerAccountResponse'')))]"

definition doc_LedgerAccountResponse :: schema where
  "doc_LedgerAccountResponse = SObject
    [(''account_type'', SString), (''code'', SString), (''created_at'', SString), (''id'', SString), (''name'', SString)]"

definition doc_LedgerEntryListResponse :: schema where
  "doc_LedgerEntryListResponse = SObject
    [(''items'', SArray (SRef (dto ''LedgerEntryResponse''))), (''page'', SRef (dto ''PageMeta''))]"

definition doc_LedgerEntryResponse :: schema where
  "doc_LedgerEntryResponse = SObject
    [(''account_id'', SString), (''amount_cents'', SInteger), (''currency'', SString), (''description'', SString),
     (''entry_group_id'', SString), (''id'', SString), (''metadata'', SArray SInteger), (''posted_at'', SString),
     (''settlement_job_id'', SString), (''side'', SString)]"

definition doc_PageMeta :: schema where
  "doc_PageMeta = SObject
    [(''has_more'', SBoolean), (''limit'', SInteger), (''next_cursor'', SString)]"

definition doc_PayoutAttemptListResponse :: schema where
  "doc_PayoutAttemptListResponse = SObject
    [(''items'', SArray (SRef (dto ''PayoutAttemptResponse'')))]"

definition doc_PayoutAttemptResponse :: schema where
  "doc_PayoutAttemptResponse = SObject
    [(''attempt_number'', SInteger), (''error_class'', SString), (''error_message'', SString), (''finished_at'', SString),
     (''id'', SString), (''payout_reference'', SString), (''settlement_job_id'', SString), (''started_at'', SString),
     (''status'', SString)]"

definition doc_ReconciliationListResponse :: schema where
  "doc_ReconciliationListResponse = SObject
    [(''items'', SArray (SRef (dto ''ReconciliationResponse''))), (''page'', SRef (dto ''PageMeta''))]"

definition doc_ReconciliationResponse :: schema where
  "doc_ReconciliationResponse = SObject
    [(''flags'', SArray SString), (''id'', SString), (''snapshot_at'', SString),
     (''summary'', SRef (dto ''ReconciliationSummary''))]"

definition doc_ReconciliationSummary :: schema where
  "doc_ReconciliationSummary = SObject
    [(''by_status'', SMap SInteger), (''discrepancy_cents'', SInteger), (''expected_total_cents'', SInteger),
     (''succeeded_total_cents'', SInteger)]"

definition doc_SchedulerTickResponse :: schema where
  "doc_SchedulerTickResponse = SObject
    [(''jobs_created'', SInteger)]"

definition doc_SettlementJobListResponse :: schema where
  "doc_SettlementJobListResponse = SObject
    [(''items'', SArray (SRef (dto ''SettlementJobResponse''))), (''page'', SRef (dto ''PageMeta''))]"

definition doc_SettlementJobResponse :: schema where
  "doc_SettlementJobResponse = SObject
    [(''completed_at'', SString), (''created_at'', SString), (''dead_letter_reason'', SString), (''error_class'', SString),
     (''gross_return_cents'', SInteger), (''id'', SString), (''idempotency_key'', SString), (''investment_id'', SString),
     (''last_error'', SString), (''maturity_schedule_id'', SString), (''max_retries'', SInteger),
     (''net_payout_cents'', SInteger), (''next_retry_at'', SString), (''payout_reference'', SString),
     (''platform_fee_cents'', SInteger), (''principal_cents'', SInteger), (''processing_owner'', SString),
     (''retry_count'', SInteger), (''status'', SString), (''updated_at'', SString), (''withholding_tax_cents'', SInteger)]"

definition swag_definitions :: "(string \<times> schema) list" where
  "swag_definitions =
    [(dto ''AuditEventListResponse'', doc_AuditEventListResponse),
     (dto ''AuditEventResponse'', doc_AuditEventResponse),
     (dto ''JobActionResponse'', doc_JobActionResponse),
     (dto ''LedgerAccountListResponse'', doc_LedgerAccountListResponse),
     (dto ''LedgerAccountResponse'', doc_LedgerAccountResponse),
     (dto ''LedgerEntryListResponse'', doc_LedgerEntryListResponse),
     (dto ''LedgerEntryResponse'', doc_LedgerEntryResponse),
     (dto ''PageMeta'', doc_PageMeta),
     (dto ''PayoutAttemptListResponse'', doc_PayoutAttemptListResponse),
     (dto ''PayoutAttemptResponse'', doc_PayoutAttemptResponse),
     (dto ''ReconciliationListResponse'', doc_ReconciliationListResponse),
     (dto ''ReconciliationResponse'', doc_ReconciliationResponse),
     (dto ''ReconciliationSummary'', doc_ReconciliationSummary),
     (dto ''SchedulerTickResponse'', doc_SchedulerTickResponse),
     (dto ''SettlementJobListResponse'', doc_SettlementJobListResponse),
     (dto ''SettlementJobResponse'', doc_SettlementJobResponse)]"

section \<open>The document\<close>

record swag_Spec =
  sw_Version :: string
  sw_Host :: string
  sw_BasePath :: string
  sw_Schemes :: "string list"
  sw_Title :: string
  sw_Description :: string
  sw_InfoInstanceName :: string
  sw_LeftDelim :: string
  sw_RightDelim :: string

definition SwaggerInfo :: swag_Spec where
  "SwaggerInfo = \<lparr>sw_Version = ''1.0'', sw_Host = ''localhost:8080'', sw_BasePath = ''/api/v1'', sw_Schemes = [],
     sw_Title = ''Arrakin API'', sw_Description = ''Settlement, ledger, and payout engine HTTP API'',
     sw_InfoInstanceName = ''swagger'', sw_LeftDelim = ''{{'', sw_RightDelim = ''}}''\<rparr>"

record swag_security =
  ss_type :: string
  ss_name :: string
  ss_in :: string

record swag_document =
  sd_schemes :: "string list"
  sd_swagger :: string
  sd_description :: string
  sd_title :: string
  sd_version :: string
  sd_host :: string
  sd_basePath :: string
  sd_paths :: "(string \<times> path_item) list"
  sd_definitions :: "(string \<times> schema) list"
  sd_securityDefinitions :: "(string \<times> swag_security) list"

definition swag_securityDefinitions :: "(string \<times> swag_security) list" where
  "swag_securityDefinitions = [(''ApiKeyAuth'', \<lparr>ss_type = ''apiKey'', ss_name = ''X-API-Key'', ss_in = ''header''\<rparr>)]"

text \<open>The template with the fields of a \<^verbatim>\<open>swag.Spec\<close> in the places of its actions.\<close>

definition docTemplate :: "swag_Spec \<Rightarrow> swag_document" where
  "docTemplate spec = \<lparr>sd_schemes = sw_Schemes spec, sd_swagger = ''2.0'', sd_description = sw_Description spec, sd_title = sw_Title spec,
     sd_version = sw_Version spec, sd_host = sw_Host spec, sd_basePath = sw_BasePath spec, sd_paths = swag_paths,
     sd_definitions = swag_definitions,
     sd_securityDefinitions = swag_securityDefinitions\<rparr>"

section \<open>Values and schemas\<close>

text \<open>A reference stands for the definition of its name; no definition of the document is itself a reference.\<close>

definition resolve :: "(string \<times> schema) list \<Rightarrow> schema \<Rightarrow> schema" where
  "resolve D t = (case t of SRef n \<Rightarrow> (case map_of D n of None \<Rightarrow> t | Some u \<Rightarrow> u) | _ \<Rightarrow> t)"

text \<open>
  A value conforms to a schema. Objects are read strictly: a property of the value must be one of the schema. No property of the
  document is required.
\<close>

fun conforms :: "(string \<times> schema) list \<Rightarrow> schema \<Rightarrow> json \<Rightarrow> bool" where
  "conforms D t JNull = (resolve D t = SAny)"
| "conforms D t (JBool b) = (resolve D t \<in> {SBoolean, SAny})"
| "conforms D t (JStr s) = (resolve D t \<in> {SString, SAny})"
| "conforms D t (JTime x) = (resolve D t \<in> {SString, SAny})"
| "conforms D t (JInt n) = (resolve D t \<in> {SInteger, SAny})"
| "conforms D t (JArr vs) = (case resolve D t of SArray u \<Rightarrow> list_all (conforms D u) vs | SAny \<Rightarrow> True | _ \<Rightarrow> False)"
| "conforms D t (JObj kvs) = (case resolve D t of
     SObject ps \<Rightarrow> list_all (\<lambda>(k, v). case map_of ps k of None \<Rightarrow> False | Some u \<Rightarrow> conforms D u v) kvs
   | SMap u \<Rightarrow> list_all (\<lambda>(k, v). conforms D u v) kvs
   | SAny \<Rightarrow> True
   | _ \<Rightarrow> False)"

end
