(* ===== verification/Api_Contract.thy ===== *)
theory Api_Contract
  imports Swagger Process_Life
begin

text \<open>
  The API against its description: what the document says of an operation bounds what a request can do, a handler reads nothing of a request
  that the document does not name, and a response has the documented form, also when it is replayed from an idempotency key.
\<close>

section \<open>Operations and routes\<close>

text \<open>A documented path as a pattern of gin: \<^verbatim>\<open>{id}\<close> is \<^verbatim>\<open>:id\<close>.\<close>

definition gin_pattern :: "string \<Rightarrow> string" where
  "gin_pattern p = concat (map (\<lambda>c. if c = CHR ''{'' then '':'' else if c = CHR ''}'' then [] else [c]) p)"

definition http_method :: "string \<Rightarrow> string" where
  "http_method m = (if m = ''get'' then ''GET'' else if m = ''post'' then ''POST'' else m)"

definition operations :: "swag_document \<Rightarrow> ((string \<times> string) \<times> swag_operation) list" where
  "operations doc = concat (map (\<lambda>(p, item). map (\<lambda>(m, op). ((http_method m, sd_basePath doc @ gin_pattern p), op)) item) (sd_paths doc))"

definition api_doc :: swag_document where
  "api_doc = docTemplate SwaggerInfo"

text \<open>The operations of the document, evaluated.\<close>

lemmas doc_path_defs = doc_admin_scheduler_tick_def doc_audit_events_def doc_ledger_accounts_def doc_ledger_entries_def
  doc_reconciliation_latest_def doc_reconciliation_run_def doc_reconciliation_snapshots_def doc_settlement_jobs_def
  doc_settlement_jobs_id_def doc_settlement_jobs_id_attempts_def doc_settlement_jobs_id_replay_def doc_settlement_jobs_id_requeue_def

definition parameter_names :: "string \<Rightarrow> swag_operation \<Rightarrow> string list" where
  "parameter_names place op = map sp_name (filter (\<lambda>q. sp_in q = place) (so_parameters op))"

text \<open>The definition named by the answer 200 of an operation.\<close>

definition ok_schema :: "swag_operation \<Rightarrow> schema" where
  "ok_schema op = (case map_of (so_responses op) ''200'' of None \<Rightarrow> SAny | Some (description, t) \<Rightarrow> t)"

text \<open>What the document says of each endpoint: the query, path and header parameters it names, and the definition of its answer.\<close>

primrec described :: "endpoint \<Rightarrow> (string list \<times> string list \<times> string list \<times> string) option" where
  "described EpLive = None"
| "described EpReady = None"
| "described EpSwagger = None"
| "described EpListJobs = Some ([''status'', ''investment_id'', ''limit'', ''cursor''], [], [], ''SettlementJobListResponse'')"
| "described EpGetJob = Some ([], [''id''], [], ''SettlementJobResponse'')"
| "described EpListAttempts = Some ([], [''id''], [], ''PayoutAttemptListResponse'')"
| "described EpReplayJob = Some ([], [''id''], [''Idempotency-Key''], ''JobActionResponse'')"
| "described EpRequeueJob = Some ([], [''id''], [''Idempotency-Key''], ''JobActionResponse'')"
| "described EpListEntries = Some ([''settlement_job_id'', ''account_code'', ''from'', ''to'', ''limit'', ''cursor''], [], [],
     ''LedgerEntryListResponse'')"
| "described EpListAccounts = Some ([], [], [], ''LedgerAccountListResponse'')"
| "described EpGetLatest = Some ([], [], [], ''ReconciliationResponse'')"
| "described EpListSnapshots = Some ([''limit'', ''cursor''], [], [], ''ReconciliationListResponse'')"
| "described EpRun = Some ([], [], [''Idempotency-Key''], ''ReconciliationResponse'')"
| "described EpListEvents = Some ([''entity_type'', ''entity_id'', ''action'', ''limit'', ''cursor''], [], [], ''AuditEventListResponse'')"
| "described EpSchedulerTick = Some ([], [], [''Idempotency-Key''], ''SchedulerTickResponse'')"

text \<open>The document and the route table, side by side: a route is described exactly when it has an operation.\<close>

definition route_op :: "(string \<times> string) \<times> (bool \<times> endpoint) \<Rightarrow> swag_operation option" where
  "route_op r = map_of (operations api_doc) (fst r)"

definition op_matches :: "endpoint \<Rightarrow> swag_operation option \<Rightarrow> bool" where
  "op_matches ep op = (case (described ep, op) of
     (None, None) \<Rightarrow> True
   | (Some (qs, ps, hs, name), Some x) \<Rightarrow> parameter_names ''query'' x = qs \<and> parameter_names ''path'' x = ps
       \<and> parameter_names ''header'' x = hs \<and> so_responses x = [(''200'', (''OK'', SRef (dto name)))]
   | _ \<Rightarrow> False)"

lemma routes_described: "list_all (\<lambda>r. op_matches (snd (snd r)) (route_op r)) routes"
  by code_simp

lemma op_of_route:
  assumes "map_of (operations api_doc) r = Some op"
  obtains guarded ep qs ps hs name where "map_of routes r = Some (guarded, ep)" "described ep = Some (qs, ps, hs, name)"
    "parameter_names ''query'' op = qs" "parameter_names ''path'' op = ps" "parameter_names ''header'' op = hs"
    "ok_schema op = SRef (dto name)"
proof -
  have "list_all (\<lambda>r. map_of routes r \<noteq> None) (map fst (operations api_doc))" by code_simp
  moreover have "r \<in> set (map fst (operations api_doc))" using assms by (force dest: map_of_SomeD)
  ultimately have "map_of routes r \<noteq> None" unfolding list_all_iff by blast
  then obtain guarded ep where route: "map_of routes r = Some (guarded, ep)" by fastforce
  then have "(r, guarded, ep) \<in> set routes" by (rule map_of_SomeD)
  then have "op_matches ep (Some op)" using routes_described assms by (force simp: list_all_iff route_op_def)
  then show thesis using that [OF route] by (auto simp: op_matches_def ok_schema_def split: option.splits prod.splits)
qed

text \<open>The routes under the base path are documented, and an operation documents an idempotency key exactly when its route is guarded.\<close>

definition in_base :: "string \<Rightarrow> bool" where
  "in_base path \<longleftrightarrow> take (length (sd_basePath api_doc)) path = sd_basePath api_doc"

lemma base_routes_documented: "list_all (\<lambda>(r, guarded, ep). in_base (snd r) \<longrightarrow> map_of (operations api_doc) r \<noteq> None) routes"
  by code_simp

lemma guarded_routes_keyed:
  "list_all (\<lambda>(r, guarded, ep). case described ep of None \<Rightarrow> True | Some (qs, ps, hs, name) \<Rightarrow> (''Idempotency-Key'' \<in> set hs) = guarded) routes"
  by code_simp

lemma undocumented:
  assumes "in_base (snd r)" "map_of (operations api_doc) r = None"
  shows "map_of routes r = None"
proof (cases "map_of routes r")
  case (Some x)
  with base_routes_documented have "in_base (snd r) \<longrightarrow> map_of (operations api_doc) r \<noteq> None"
    by (cases x) (auto simp: list_all_iff dest!: map_of_SomeD)
  with assms show ?thesis by simp
qed

lemma keyed_iff_guarded:
  assumes "map_of routes r = Some (guarded, ep)" "described ep = Some (qs, ps, hs, name)"
  shows "''Idempotency-Key'' \<in> set hs \<longleftrightarrow> guarded"
  using guarded_routes_keyed map_of_SomeD [OF assms(1)] assms(2) by (fastforce simp: list_all_iff)

lemma malformed_id:
  assumes "parseUUIDParam (dp_Lib D) c ''id'' = Inl err" "described ep = Some (qs, ps, hs, name)" "''id'' \<in> set ps"
  shows "handle ep D V rid c s = (error_response 400 ''validation failed'' ''validation_error'' (error_text ErrValidation), s)"
proof -
  have err: "err = ErrValidation" using assms(1) by (simp add: parseUUIDParam_def split: option.splits)
  have "WriteError ErrValidation = error_response 400 ''validation failed'' ''validation_error'' (error_text ErrValidation)"
    by (simp add: WriteError_def IsNotFound_def)
  with assms err show ?thesis by (cases ep) (auto simp: GetJob_def ListAttempts_def ReplayJob_def RequeueJob_def)
qed

text \<open>
  C27. The description bounds what a request can do, whatever its method, path and parameters. Under the base path, a request
  that matches no documented operation is answered as an unknown route and changes nothing. A documented operation changes the system only
  if it documents an \<^verbatim>\<open>Idempotency-Key\<close> and the request passes the API key; if it documents one and the key is refused, the answer is 401;
  and if it documents the path parameter \<^verbatim>\<open>id\<close>, a request that is let through with a malformed identifier is answered with 400 and changes nothing.
\<close>

theorem effects_documented:
  assumes "in_base (rq_FullPath c)"
  shows "case map_of (operations api_doc) (rq_Method c, rq_FullPath c) of
      None \<Rightarrow> ServeHTTP D V c s = ((dp_NoRoute D)\<lparr>hr_Header := (''X-Request-ID'', RequestID (ce_NewString V) c) # hr_Header (dp_NoRoute D)\<rparr>, s)
    | Some op \<Rightarrow> let denied = ''Idempotency-Key'' \<in> set (parameter_names ''header'' op) \<and> APIKey (api_key_config (dp_Config D)) c \<noteq> None
        in (snd (ServeHTTP D V c s) \<noteq> s \<longrightarrow> ''Idempotency-Key'' \<in> set (parameter_names ''header'' op) \<and> \<not> denied)
         \<and> (denied \<longrightarrow> hr_Status (fst (ServeHTTP D V c s)) = 401)
         \<and> (''id'' \<in> set (parameter_names ''path'' op) \<and> \<not> denied \<and> uuid_Parse (dp_Lib D) (rq_Param c ''id'') = None \<longrightarrow>
              hr_Status (fst (ServeHTTP D V c s)) = 400 \<and> snd (ServeHTTP D V c s) = s)"
proof (cases "map_of (operations api_doc) (rq_Method c, rq_FullPath c)")
  case None
  with undocumented [of "(rq_Method c, rq_FullPath c)"] assms have "map_of routes (rq_Method c, rq_FullPath c) = None" by simp
  with None show ?thesis by (simp add: ServeHTTP_def dispatch_def Let_def)
next
  case (Some op)
  then obtain guarded ep qs ps hs name where route: "map_of routes (rq_Method c, rq_FullPath c) = Some (guarded, ep)"
      and d: "described ep = Some (qs, ps, hs, name)" "parameter_names ''path'' op = ps" "parameter_names ''header'' op = hs"
    by (rule op_of_route)
  note keyed = keyed_iff_guarded [OF route d(1)]
  show ?thesis
  proof (cases "guarded \<and> APIKey (api_key_config (dp_Config D)) c \<noteq> None")
    case True
    then obtain r where r: "APIKey (api_key_config (dp_Config D)) c = Some r" by blast
    then have "hr_Status r = 401" by (auto simp: APIKey_def Let_def error_response_def c_JSON_def split: if_splits)
    with Some True r route d(2,3) keyed show ?thesis by (simp add: ServeHTTP_def dispatch_def Let_def)
  next
    case False
    then have pass: "dispatch D V rid c s = handle ep D V rid c s" for rid using route by (auto simp: dispatch_def)
    let ?rid = "RequestID (ce_NewString V) c"
    have "snd (handle ep D V ?rid c s) \<noteq> s \<longrightarrow> guarded" using handle_unguarded [of "rq_Method c" "rq_FullPath c" ep] route by (cases guarded) auto
    moreover have "handle ep D V ?rid c s = (error_response 400 ''validation failed'' ''validation_error'' (error_text ErrValidation), s)"
      if "''id'' \<in> set ps" "uuid_Parse (dp_Lib D) (rq_Param c ''id'') = None"
      using that d(1) by (intro malformed_id [where err = ErrValidation]) (simp_all add: parseUUIDParam_def)
    moreover have "ServeHTTP D V c s = (case handle ep D V ?rid c s of (r, s') \<Rightarrow> (r\<lparr>hr_Header := (''X-Request-ID'', ?rid) # hr_Header r\<rparr>, s'))"
      by (simp add: ServeHTTP_def pass Let_def)
    ultimately show ?thesis using Some False d(2,3) keyed
      by (auto simp: Let_def error_response_def c_JSON_def split: prod.splits)
  qed
qed

text \<open>A method the API does not have, and an operation on a malformed identifier.\<close>

theorem effects_documented_witness:
  "snd (ServeHTTP demo_deps (demo_call 0) (demo_request ''DELETE'' ''/api/v1/settlement-jobs/:id'' (\<lambda>_. ''secret'')) empty_sys) = empty_sys
   \<and> snd (ServeHTTP demo_deps (demo_call 0) (demo_request ''GET'' ''/api/v1/settlement-jobs/:id'' (\<lambda>_. [])) empty_sys) = empty_sys"
proof -
  let ?del = "demo_request ''DELETE'' ''/api/v1/settlement-jobs/:id'' (\<lambda>_. ''secret'')"
    and ?get = "demo_request ''GET'' ''/api/v1/settlement-jobs/:id'' (\<lambda>_. [])"
  have base: "in_base ''/api/v1/settlement-jobs/:id''" by code_simp
  have none: "map_of (operations api_doc) (''DELETE'', ''/api/v1/settlement-jobs/:id'') = None" by code_simp
  have "map_option (\<lambda>op. ''Idempotency-Key'' \<in> set (parameter_names ''header'' op)) (map_of (operations api_doc) (''GET'', ''/api/v1/settlement-jobs/:id''))
      = Some False" by code_simp
  then obtain op where op: "map_of (operations api_doc) (''GET'', ''/api/v1/settlement-jobs/:id'') = Some op"
      "''Idempotency-Key'' \<notin> set (parameter_names ''header'' op)" by (auto simp: map_option_eq_Some)
  show ?thesis
    using effects_documented [of ?del demo_deps "demo_call 0" empty_sys] effects_documented [of ?get demo_deps "demo_call 0" empty_sys] base none op
    by (simp add: demo_request_def Let_def)
qed

section \<open>What a handler reads of a request\<close>

text \<open>Two requests that agree on what the operation documents, on the API key and on the request identifier.\<close>

definition agrees :: "swag_operation \<Rightarrow> request \<Rightarrow> request \<Rightarrow> bool" where
  "agrees op c c' \<longleftrightarrow> rq_Method c = rq_Method c' \<and> rq_FullPath c = rq_FullPath c'
     \<and> (\<forall>n \<in> set (parameter_names ''query'' op). rq_Query c n = rq_Query c' n)
     \<and> (\<forall>n \<in> set (parameter_names ''path'' op). rq_Param c n = rq_Param c' n)
     \<and> (\<forall>n \<in> set ([''X-API-Key'', ''X-Request-ID''] @ parameter_names ''header'' op). rq_GetHeader c n = rq_GetHeader c' n)"

lemma query_cong:
  assumes "rq_Query c n = rq_Query c' n"
  shows "query_text c n = query_text c' n" "query_uuid L c n = query_uuid L c' n" "query_time c n = query_time c' n"
  unfolding query_text_def query_uuid_def query_time_def assms by simp_all

lemma page_cong:
  assumes "rq_Query c ''limit'' = rq_Query c' ''limit''" "rq_Query c ''cursor'' = rq_Query c' ''cursor''"
  shows "ParsePageParams L c = ParsePageParams L c'"
  unfolding ParsePageParams_def assms ..

lemma param_cong: "rq_Param c n = rq_Param c' n \<Longrightarrow> parseUUIDParam L c n = parseUUIDParam L c' n"
  by (simp add: parseUUIDParam_def)

lemma header_cong:
  "rq_GetHeader c ''X-API-Key'' = rq_GetHeader c' ''X-API-Key'' \<Longrightarrow> actorID c = actorID c'"
  "rq_GetHeader c ''Idempotency-Key'' = rq_GetHeader c' ''Idempotency-Key'' \<Longrightarrow> idempotent S E c = idempotent S E c'"
  by (simp_all add: actorID_def idempotent_def fun_eq_iff)

lemma ListJobs_cong:
  assumes "ParsePageParams L c = ParsePageParams L c'" "query_uuid L c ''investment_id'' = query_uuid L c' ''investment_id''"
    "query_text c ''status'' = query_text c' ''status''"
  shows "ListJobs L E c s = ListJobs L E c' s"
  unfolding ListJobs_def assms ..

lemma ListEntries_cong:
  assumes "ParsePageParams L c = ParsePageParams L c'" "query_uuid L c ''settlement_job_id'' = query_uuid L c' ''settlement_job_id''"
    "query_text c ''account_code'' = query_text c' ''account_code''" "query_time c ''from'' = query_time c' ''from''"
    "query_time c ''to'' = query_time c' ''to''"
  shows "ListEntries L E c s = ListEntries L E c' s"
  unfolding ListEntries_def assms ..

lemma ListEvents_cong:
  assumes "ParsePageParams L c = ParsePageParams L c'" "query_uuid L c ''entity_id'' = query_uuid L c' ''entity_id''"
    "query_text c ''entity_type'' = query_text c' ''entity_type''" "query_text c ''action'' = query_text c' ''action''"
  shows "ListEvents L E c s = ListEvents L E c' s"
  unfolding ListEvents_def assms ..

lemma ListSnapshots_cong: "ParsePageParams L c = ParsePageParams L c' \<Longrightarrow> ListSnapshots L E c s = ListSnapshots L E c' s"
  by (simp add: ListSnapshots_def)

lemma read_handlers_cong:
  assumes "parseUUIDParam L c ''id'' = parseUUIDParam L c' ''id''"
  shows "GetJob L E c s = GetJob L E c' s" "ListAttempts L E E' c s = ListAttempts L E E' c' s"
  unfolding GetJob_def ListAttempts_def assms by (rule refl)+

lemma action_handlers_cong:
  assumes "parseUUIDParam L c ''id'' = parseUUIDParam L c' ''id''" "actorID c = actorID c'" "idempotent S E c = idempotent S E c'"
  shows "ReplayJob L S E E' rid c s = ReplayJob L S E E' rid c' s" "RequeueJob L S E E' rid c s = RequeueJob L S E E' rid c' s"
  unfolding ReplayJob_def RequeueJob_def assms by (rule refl)+

lemmas handler_congs = ListJobs_cong ListEntries_cong ListEvents_cong ListSnapshots_cong read_handlers_cong action_handlers_cong

lemma handle_reads:
  assumes "described ep = Some (qs, ps, hs, name)" "\<forall>n \<in> set qs. rq_Query c n = rq_Query c' n" "\<forall>n \<in> set ps. rq_Param c n = rq_Param c' n"
    "\<forall>n \<in> set (''X-API-Key'' # hs). rq_GetHeader c n = rq_GetHeader c' n"
  shows "handle ep D V rid c s = handle ep D V rid c' s"
  using assms
  by (cases ep)
    (auto intro!: handler_congs page_cong query_cong param_cong header_cong
      simp: ListAccounts_def GetLatest_def Run_def SchedulerTick_def header_cong(2) [of c c'])

text \<open>
  C28. The description names every input: what the API does with a request to a documented operation - the answer and the effect on the
  system - depends on nothing but the query, path and header parameters that the operation documents, the API key and the
  request identifier.
\<close>

theorem documented_parameters_suffice:
  assumes "map_of (operations api_doc) (rq_Method c, rq_FullPath c) = Some op" "agrees op c c'"
  shows "ServeHTTP D V c s = ServeHTTP D V c' s"
proof -
  obtain guarded ep qs ps hs name where route: "map_of routes (rq_Method c, rq_FullPath c) = Some (guarded, ep)"
      and d: "described ep = Some (qs, ps, hs, name)" "parameter_names ''query'' op = qs" "parameter_names ''path'' op = ps"
        "parameter_names ''header'' op = hs"
    by (rule op_of_route [OF assms(1)])
  have same: "rq_Method c = rq_Method c'" "rq_FullPath c = rq_FullPath c'"
      "rq_GetHeader c ''X-API-Key'' = rq_GetHeader c' ''X-API-Key''" "rq_GetHeader c ''X-Request-ID'' = rq_GetHeader c' ''X-Request-ID''"
    using assms(2) by (simp_all add: agrees_def)
  have "handle ep D V rid c s = handle ep D V rid c' s" for rid
    by (rule handle_reads [OF d(1)]) (use assms(2) d in \<open>auto simp: agrees_def\<close>)
  moreover have "APIKey cfg c = APIKey cfg c'" for cfg using same(3) by (simp add: APIKey_def)
  moreover have "RequestID n c = RequestID n c'" for n using same(4) by (simp add: RequestID_def)
  ultimately have "dispatch D V rid c s = dispatch D V rid c' s" "RequestID (ce_NewString V) c = RequestID (ce_NewString V) c'" for rid
    using route same(1,2) by (simp_all add: dispatch_def split: option.split)
  then show ?thesis by (simp add: ServeHTTP_def)
qed

theorem documented_parameters_suffice_witness:
  "ServeHTTP demo_deps (demo_call 0) (demo_request ''GET'' ''/api/v1/ledger/accounts'' (\<lambda>_. [])) empty_sys
     = ServeHTTP demo_deps (demo_call 0) ((demo_request ''GET'' ''/api/v1/ledger/accounts'' (\<lambda>_. []))\<lparr>rq_Query := \<lambda>_. ''x''\<rparr>) empty_sys"
proof -
  have "map_option (parameter_names ''query'') (map_of (operations api_doc) (''GET'', ''/api/v1/ledger/accounts'')) = Some []" by code_simp
  then obtain op where op: "map_of (operations api_doc) (''GET'', ''/api/v1/ledger/accounts'') = Some op" "parameter_names ''query'' op = []"
    by (auto simp: map_option_eq_Some)
  then show ?thesis by (intro documented_parameters_suffice) (simp_all add: demo_request_def agrees_def)
qed

section \<open>What a response looks like\<close>

text \<open>
  The columns \<^verbatim>\<open>audit_events.payload\<close> and \<^verbatim>\<open>ledger_entries.metadata\<close> are JSON documents that a response contains as
  they are. The document has them as arrays of integers, the bytes of a \<^verbatim>\<open>json.RawMessage\<close>; here their properties are free.
\<close>

definition raw_fields :: "(string \<times> string) list" where
  "raw_fields = [(dto ''AuditEventResponse'', ''payload''), (dto ''LedgerEntryResponse'', ''metadata'')]"

definition free_fields :: "(string \<times> string) list \<Rightarrow> (string \<times> schema) list \<Rightarrow> (string \<times> schema) list" where
  "free_fields fs D = map (\<lambda>(n, t). (n, case t of
      SObject ps \<Rightarrow> SObject (map (\<lambda>(k, u). (k, if (n, k) \<in> set fs then SAny else u)) ps) | _ \<Rightarrow> t)) D"

definition doc_definitions :: "(string \<times> schema) list" where
  "doc_definitions = free_fields raw_fields (sd_definitions api_doc)"

lemma doc_lookup:
  "resolve doc_definitions (SRef (dto ''AuditEventListResponse'')) = SObject [(''items'', SArray (SRef (dto ''AuditEventResponse''))), (''page'', SRef (dto ''PageMeta''))]"
  "resolve doc_definitions (SRef (dto ''AuditEventResponse'')) = SObject [(''action'', SString), (''actor_id'', SString), (''actor_type'', SString), (''correlation_id'', SString),
     (''entity_id'', SString), (''entity_type'', SString), (''id'', SString), (''occurred_at'', SString), (''payload'',
     SAny)]"
  "resolve doc_definitions (SRef (dto ''JobActionResponse'')) = SObject [(''job'', SRef (dto ''SettlementJobResponse''))]"
  "resolve doc_definitions (SRef (dto ''LedgerAccountListResponse'')) = SObject [(''items'', SArray (SRef (dto ''LedgerAccountResponse'')))]"
  "resolve doc_definitions (SRef (dto ''LedgerAccountResponse'')) = SObject [(''account_type'', SString), (''code'', SString), (''created_at'', SString), (''id'', SString), (''name'',
     SString)]"
  "resolve doc_definitions (SRef (dto ''LedgerEntryListResponse'')) = SObject [(''items'', SArray (SRef (dto ''LedgerEntryResponse''))), (''page'', SRef (dto ''PageMeta''))]"
  "resolve doc_definitions (SRef (dto ''LedgerEntryResponse'')) = SObject [(''account_id'', SString), (''amount_cents'', SInteger), (''currency'', SString), (''description'', SString),
     (''entry_group_id'', SString), (''id'', SString), (''metadata'', SAny), (''posted_at'', SString),
     (''settlement_job_id'', SString), (''side'', SString)]"
  "resolve doc_definitions (SRef (dto ''PageMeta'')) = SObject [(''has_more'', SBoolean), (''limit'', SInteger), (''next_cursor'', SString)]"
  "resolve doc_definitions (SRef (dto ''PayoutAttemptListResponse'')) = SObject [(''items'', SArray (SRef (dto ''PayoutAttemptResponse'')))]"
  "resolve doc_definitions (SRef (dto ''PayoutAttemptResponse'')) = SObject [(''attempt_number'', SInteger), (''error_class'', SString), (''error_message'', SString), (''finished_at'',
     SString), (''id'', SString), (''payout_reference'', SString), (''settlement_job_id'', SString), (''started_at'',
     SString), (''status'', SString)]"
  "resolve doc_definitions (SRef (dto ''ReconciliationListResponse'')) = SObject [(''items'', SArray (SRef (dto ''ReconciliationResponse''))), (''page'', SRef (dto ''PageMeta''))]"
  "resolve doc_definitions (SRef (dto ''ReconciliationResponse'')) = SObject [(''flags'', SArray SString), (''id'', SString), (''snapshot_at'', SString), (''summary'', SRef (dto
     ''ReconciliationSummary''))]"
  "resolve doc_definitions (SRef (dto ''ReconciliationSummary'')) = SObject [(''by_status'', SMap SInteger), (''discrepancy_cents'', SInteger), (''expected_total_cents'', SInteger),
     (''succeeded_total_cents'', SInteger)]"
  "resolve doc_definitions (SRef (dto ''SchedulerTickResponse'')) = SObject [(''jobs_created'', SInteger)]"
  "resolve doc_definitions (SRef (dto ''SettlementJobListResponse'')) = SObject [(''items'', SArray (SRef (dto ''SettlementJobResponse''))), (''page'', SRef (dto ''PageMeta''))]"
  "resolve doc_definitions (SRef (dto ''SettlementJobResponse'')) = SObject [(''completed_at'', SString), (''created_at'', SString), (''dead_letter_reason'', SString), (''error_class'',
     SString), (''gross_return_cents'', SInteger), (''id'', SString), (''idempotency_key'', SString), (''investment_id'',
     SString), (''last_error'', SString), (''maturity_schedule_id'', SString), (''max_retries'', SInteger),
     (''net_payout_cents'', SInteger), (''next_retry_at'', SString), (''payout_reference'', SString),
     (''platform_fee_cents'', SInteger), (''principal_cents'', SInteger), (''processing_owner'', SString),
     (''retry_count'', SInteger), (''status'', SString), (''updated_at'', SString), (''withholding_tax_cents'',
     SInteger)]"
  by (simp_all add: resolve_def doc_definitions_def free_fields_def raw_fields_def api_doc_def docTemplate_def swag_definitions_def
      doc_AuditEventListResponse_def doc_AuditEventResponse_def doc_JobActionResponse_def doc_LedgerAccountListResponse_def doc_LedgerAccountResponse_def doc_LedgerEntryListResponse_def doc_LedgerEntryResponse_def doc_PageMeta_def doc_PayoutAttemptListResponse_def doc_PayoutAttemptResponse_def doc_ReconciliationListResponse_def doc_ReconciliationResponse_def doc_ReconciliationSummary_def doc_SchedulerTickResponse_def doc_SettlementJobListResponse_def doc_SettlementJobResponse_def)

lemma resolve_simps [simp]:
  "resolve D SString = SString" "resolve D SInteger = SInteger" "resolve D SBoolean = SBoolean" "resolve D (SArray t) = SArray t"
  "resolve D (SObject ps) = SObject ps" "resolve D (SMap t) = SMap t" "resolve D SAny = SAny"
  by (simp_all add: resolve_def)

lemma conforms_SAny [simp]: "conforms D SAny v"
  by (cases v) simp_all

lemma list_all_omit_nil: "list_all P (omit_nil n v) \<longleftrightarrow> (\<forall>x. v = Some x \<longrightarrow> P (n, JStr x))"
  by (simp add: omit_nil_def split: option.split)

lemmas conforms_simps = conforms.simps doc_lookup list_all_omit_nil list.pred_map

lemma PageMeta_conforms: "conforms doc_definitions (SRef (dto ''PageMeta'')) (PageMeta_json m)"
  by (simp add: PageMeta_json_def conforms_simps)

lemma SettlementJobResponse_conforms: "conforms doc_definitions (SRef (dto ''SettlementJobResponse'')) (SettlementJobResponse_json r)"
  by (simp add: SettlementJobResponse_json_def conforms_simps)

lemma row_responses_conform:
  "conforms doc_definitions (SRef (dto ''PayoutAttemptResponse'')) (PayoutAttemptResponse_json a)"
  "conforms doc_definitions (SRef (dto ''LedgerEntryResponse'')) (LedgerEntryResponse_json e)"
  "conforms doc_definitions (SRef (dto ''LedgerAccountResponse'')) (LedgerAccountResponse_json k)"
  "conforms doc_definitions (SRef (dto ''AuditEventResponse'')) (AuditEventResponse_json v)"
  by (simp_all add: PayoutAttemptResponse_json_def LedgerEntryResponse_json_def LedgerAccountResponse_json_def AuditEventResponse_json_def
      conforms_simps)

lemma ReconciliationResponse_conforms: "conforms doc_definitions (SRef (dto ''ReconciliationResponse'')) (ReconciliationResponse_json r)"
proof -
  have "conforms doc_definitions (SRef (dto ''ReconciliationSummary'')) (ReconciliationSummary_json x)" for x
    by (auto simp: ReconciliationSummary_json_def conforms_simps list_all_iff)
  then show ?thesis by (auto simp: ReconciliationResponse_json_def conforms_simps list_all_iff)
qed

lemma action_responses_conform:
  "conforms doc_definitions (SRef (dto ''JobActionResponse'')) (JobActionResponse_json r)"
  "conforms doc_definitions (SRef (dto ''SchedulerTickResponse'')) (SchedulerTickResponse_json n)"
  by (simp_all add: JobActionResponse_json_def SchedulerTickResponse_json_def conforms_simps SettlementJobResponse_conforms)

lemma list_responses_conform:
  "conforms doc_definitions (SRef (dto ''SettlementJobListResponse'')) (SettlementJobListResponse_json js m)"
  "conforms doc_definitions (SRef (dto ''PayoutAttemptListResponse'')) (PayoutAttemptListResponse_json as)"
  "conforms doc_definitions (SRef (dto ''LedgerEntryListResponse'')) (LedgerEntryListResponse_json es m)"
  "conforms doc_definitions (SRef (dto ''LedgerAccountListResponse'')) (LedgerAccountListResponse_json ks)"
  "conforms doc_definitions (SRef (dto ''ReconciliationListResponse'')) (ReconciliationListResponse_json rs m)"
  "conforms doc_definitions (SRef (dto ''AuditEventListResponse'')) (AuditEventListResponse_json vs m)"
  by (simp_all add: SettlementJobListResponse_json_def PayoutAttemptListResponse_json_def LedgerEntryListResponse_json_def
      LedgerAccountListResponse_json_def ReconciliationListResponse_json_def AuditEventListResponse_json_def conforms_simps
      PageMeta_conforms SettlementJobResponse_conforms row_responses_conform ReconciliationResponse_conforms list_all_iff)

lemmas responses_conform = SettlementJobResponse_conforms ReconciliationResponse_conforms action_responses_conform list_responses_conform

text \<open>An answer as a client may expect it: 200 with a body of the definition, or an error of the API with its envelope.\<close>

definition error_envelope :: schema where
  "error_envelope = SObject [(''error'', SString), (''code'', SString), (''details'', SString)]"

definition answers :: "schema \<Rightarrow> response \<Rightarrow> bool" where
  "answers t r \<longleftrightarrow> (if hr_Status r = 200 then conforms doc_definitions t (hr_Body r)
     else hr_Status r \<in> {400, 401, 404, 409, 500} \<and> conforms [] error_envelope (hr_Body r))"

lemma error_response_answers: "status \<in> {400, 401, 404, 409, 500} \<Longrightarrow> answers t (error_response status msg code details)"
  by (auto simp: answers_def error_response_def c_JSON_def ErrorBody_json_def error_envelope_def omit_str_def)

lemma WriteError_answers [intro!]: "answers t (WriteError err)"
  unfolding WriteError_def by (simp add: error_response_answers)

lemma ok_answers [intro!]: "conforms doc_definitions t b \<Longrightarrow> answers t (c_JSON 200 b)"
  by (simp add: answers_def c_JSON_def)

lemma read_handlers_answer:
  "answers (SRef (dto ''SettlementJobListResponse'')) (fst (ListJobs L E c s))"
  "answers (SRef (dto ''SettlementJobResponse'')) (fst (GetJob L E c s))"
  "answers (SRef (dto ''PayoutAttemptListResponse'')) (fst (ListAttempts L E E' c s))"
  "answers (SRef (dto ''LedgerEntryListResponse'')) (fst (ListEntries L E c s))"
  "answers (SRef (dto ''LedgerAccountListResponse'')) (fst (ListAccounts L E c s))"
  "answers (SRef (dto ''ReconciliationResponse'')) (fst (GetLatest L E E' c s))"
  "answers (SRef (dto ''ReconciliationListResponse'')) (fst (ListSnapshots L E c s))"
  "answers (SRef (dto ''AuditEventListResponse'')) (fst (ListEvents L E c s))"
  unfolding ListJobs_def GetJob_def ListAttempts_def ListEntries_def ListAccounts_def GetLatest_def ListSnapshots_def ListEvents_def
  by (auto intro!: responses_conform split: sum.split prod.split)

section \<open>The raw columns\<close>

lemma published_lookup:
  "resolve (sd_definitions api_doc) (SRef (dto ''LedgerEntryListResponse'')) = doc_LedgerEntryListResponse"
  "resolve (sd_definitions api_doc) (SRef (dto ''LedgerEntryResponse'')) = doc_LedgerEntryResponse"
  "resolve (sd_definitions api_doc) (SRef (dto ''PageMeta'')) = doc_PageMeta"
  by (simp_all add: resolve_def api_doc_def docTemplate_def swag_definitions_def)

lemma published_entry:
  "conforms (sd_definitions api_doc) (SRef (dto ''LedgerEntryResponse'')) (LedgerEntryResponse_json r)
     = conforms (sd_definitions api_doc) (SArray SInteger) (er_Metadata r)"
  by (simp add: LedgerEntryResponse_json_def published_lookup doc_LedgerEntryResponse_def)

lemma published_entries:
  "conforms (sd_definitions api_doc) (SRef (dto ''LedgerEntryListResponse'')) (LedgerEntryListResponse_json rs m)
     = list_all (\<lambda>r. conforms (sd_definitions api_doc) (SArray SInteger) (er_Metadata r)) rs"
  by (simp add: LedgerEntryListResponse_json_def PageMeta_json_def published_lookup doc_LedgerEntryListResponse_def doc_PageMeta_def
      published_entry list.pred_map list_all_omit_nil comp_def)

text \<open>The metadata of a posted line is an object.\<close>

lemma entry_metadata:
  assumes "engine_inv L d" "e \<in> set (ledger_entries d)"
  obtains kvs where "le_Metadata e = JObj kvs"
  by (rule inv_entry_posted [OF assms]) (auto simp: posted_def buildPostingLines_def Let_def intro: that)

lemma entry_account:
  assumes "engine_inv L d" "e \<in> set (ledger_entries d)"
  shows "account_code_of d e \<noteq> None"
  by (rule inv_entry_posted [OF assms]) (auto simp: posted_def account_code_of_def find_None_iff)

lemma listed_entries:
  assumes "LedgerService_ListEntries E flt s = (Inr es, s')"
  shows "set es \<subseteq> set (ledger_entries (sys_db s))"
  using assms
  by (auto simp: LedgerService_ListEntries_def onPool_def LedgerRepo_List_def wrapE_def tryE_def run_stmt_def ListLedgerEntries_def
      keyset_page_def begin_tx_def returnE_def failE_def split: if_splits sum.splits prod.splits sql_result.splits dest!: in_set_takeD)

lemma map_rows_all2: "map_rows f xs = Inr ys \<Longrightarrow> list_all2 (\<lambda>x y. f x = Inr y) xs ys"
  by (induction xs arbitrary: ys) (auto split: sum.splits)

text \<open>What is behind an answer 200 of the listing.\<close>

lemma ListEntries_200:
  assumes "hr_Status (fst (ListEntries L E c s)) = 200"
  obtains es items m where "set es \<subseteq> set (ledger_entries (sys_db s))" "list_all2 (\<lambda>e r. er_Metadata r = le_Metadata e) es items"
    "hr_Body (fst (ListEntries L E c s)) = LedgerEntryListResponse_json items m"
proof -
  have err: "hr_Status (WriteError e) \<noteq> 200" for e
    by (simp add: WriteError_def error_response_def c_JSON_def)
  from assms obtain flt es s' items m where rows: "LedgerService_ListEntries E flt s = (Inr es, s')" "map_rows (MapLedgerEntry L) es = Inr items"
      and body: "fst (ListEntries L E c s) = c_JSON 200 (LedgerEntryListResponse_json items m)"
    unfolding ListEntries_def by (auto simp: err split: sum.splits prod.splits)
  have "list_all2 (\<lambda>e r. er_Metadata r = le_Metadata e) es items"
    by (rule list_all2_mono [OF map_rows_all2 [OF rows(2)]]) (auto simp: MapLedgerEntry_def)
  then show thesis using listed_entries [OF rows(1)] body by (intro that [of es items m]) (simp_all add: c_JSON_def)
qed

text \<open>
  C37. The published schema of a ledger entry is wrong: it describes \<^verbatim>\<open>metadata\<close> as an array of integers, but in every reachable state
  the metadata of every entry is an object, so that a listing answered with 200 conforms to the published document exactly when it is empty.
\<close>

theorem ledger_metadata_misdocumented:
  assumes "reachable G s" "hr_Status (fst (ListEntries L E c s)) = 200"
  shows "conforms (sd_definitions api_doc) (SRef (dto ''LedgerEntryListResponse'')) (hr_Body (fst (ListEntries L E c s)))
    \<longleftrightarrow> (\<exists>m. hr_Body (fst (ListEntries L E c s)) = LedgerEntryListResponse_json [] m)"
proof -
  obtain es items m where rows: "set es \<subseteq> set (ledger_entries (sys_db s))" "list_all2 (\<lambda>e r. er_Metadata r = le_Metadata e) es items"
      and body: "hr_Body (fst (ListEntries L E c s)) = LedgerEntryListResponse_json items m"
    by (rule ListEntries_200 [OF assms(2)])
  have "\<exists>kvs. er_Metadata r = JObj kvs" if "r \<in> set items" for r
  proof -
    obtain i where i: "i < length items" "items ! i = r" using \<open>r \<in> set items\<close> by (auto simp: in_set_conv_nth)
    then have "es ! i \<in> set (ledger_entries (sys_db s))" "er_Metadata r = le_Metadata (es ! i)"
      using rows by (auto simp: list_all2_conv_all_nth subset_iff)
    moreover obtain kvs where "le_Metadata (es ! i) = JObj kvs" by (rule entry_metadata [OF reachable_inv [OF assms(1)] calculation(1)])
    ultimately show ?thesis by simp
  qed
  then have "conforms (sd_definitions api_doc) (SRef (dto ''LedgerEntryListResponse'')) (LedgerEntryListResponse_json items m) \<longleftrightarrow> items = []"
    unfolding published_entries by (cases items) fastforce+
  moreover have "(\<exists>m'. LedgerEntryListResponse_json items m = LedgerEntryListResponse_json [] m') \<longleftrightarrow> items = []"
    by (auto simp: LedgerEntryListResponse_json_def)
  ultimately show ?thesis unfolding body by blast
qed

text \<open>The listing of the scenario after its payment.\<close>

abbreviation plain_request :: "string \<Rightarrow> string \<Rightarrow> request" where
  "plain_request m p \<equiv> demo_request m p (\<lambda>_. [])"

lemma demo_entries:
  "hr_Status (fst (ListEntries L (demo_env n) (plain_request m p) s)) = 200"
  "\<exists>e \<in> set (ledger_entries (sys_db s)). account_code_of (sys_db s) e \<noteq> None \<Longrightarrow>
     hr_Body (fst (ListEntries L (demo_env n) (plain_request m p) s)) \<noteq> LedgerEntryListResponse_json [] k"
proof -
  define rows where "rows = keyset_page le_PostedAt le_ID None None 50
    (filter (\<lambda>e. account_code_of (sys_db s) e \<noteq> None) (ledger_entries (sys_db s)))"
  have q: "LedgerService_ListEntries (demo_env n) \<lparr>ll_SettlementJobID = None, ll_AccountCode = None, ll_FromTime = None, ll_ToTime = None,
      ll_CursorTime = None, ll_CursorID = None, ll_LimitVal = 50\<rparr> s = (Inr rows, s)"
    unfolding LedgerService_ListEntries_def LedgerRepo_List_def
    by (rule onPool_list) (simp_all add: ListLedgerEntries_def clamp_limit_def narg_def rows_def option.case_eq_if)
  obtain items where items: "map_rows (MapLedgerEntry L) rows = Inr items" "length items = length rows"
    by (simp add: mapped_rows)
  have body: "\<exists>m'. fst (ListEntries L (demo_env n) (plain_request m p) s) = c_JSON 200 (LedgerEntryListResponse_json items m')"
    by (rule exI [of _ "page_meta L 50 LedgerCursorFromEntry rows"])
      (simp add: ListEntries_def ParsePageParams_def page_limit_def demo_request_def query_uuid_def query_time_def query_text_def q items)
  show "hr_Status (fst (ListEntries L (demo_env n) (plain_request m p) s)) = 200" using body by (auto simp: c_JSON_def)
  assume "\<exists>e \<in> set (ledger_entries (sys_db s)). account_code_of (sys_db s) e \<noteq> None"
  then have "items \<noteq> []" using items(2) by (auto simp: rows_def keyset_page_def before_cursor_def filter_empty_conv min_def split: if_splits)
  with body show "hr_Body (fst (ListEntries L (demo_env n) (plain_request m p) s)) \<noteq> LedgerEntryListResponse_json [] k"
    by (auto simp: c_JSON_def LedgerEntryListResponse_json_def)
qed

lemma demo_entry_account:
  "\<exists>e \<in> set (ledger_entries (sys_db (demo_sys2 None))). account_code_of (sys_db (demo_sys2 None)) e \<noteq> None"
proof -
  let ?d = "sys_db (demo_sys2 None)"
  note inv = reachable_inv [OF demo_reachable(3) [of None]]
  obtain j where j: "settlement_jobs ?d = [j]" "sj_Status j = SettlementJobStatusSucceeded" by (rule demo_paid)
  then have "entries_of ?d (sj_ID j) \<noteq> []" using inv_entries_iff [OF inv, of j] by simp
  then obtain e where e: "e \<in> set (ledger_entries ?d)" by (auto simp: entries_of_def filter_empty_conv)
  with entry_account [OF inv e] show ?thesis by blast
qed

theorem ledger_metadata_misdocumented_witness:
  "hr_Status (fst (ListEntries demo_lib (demo_env 2) (plain_request ''GET'' ''/api/v1/ledger/entries'') (demo_sys2 None))) = 200
   \<and> \<not> conforms (sd_definitions api_doc) (SRef (dto ''LedgerEntryListResponse''))
        (hr_Body (fst (ListEntries demo_lib (demo_env 2) (plain_request ''GET'' ''/api/v1/ledger/entries'') (demo_sys2 None))))"
  using ledger_metadata_misdocumented [OF demo_reachable(3) demo_entries(1)] demo_entries(2) [OF demo_entry_account] demo_entries(1) by blast

end
