(* ===== verification/Api_Replies.thy ===== *)
theory Api_Replies
  imports Api_Contract
begin

text \<open>
  Responses stored under idempotency keys: they have the documented form of the operation their scope belongs to, as an invariant of the
  process, so that a replayed response conforms to the description like a fresh one.
\<close>

section \<open>Only the API writes keys\<close>

definition same_keys :: "db \<Rightarrow> db \<Rightarrow> bool" where
  "same_keys d d' \<longleftrightarrow> idempotency_keys d' = idempotency_keys d"

interpretation same_keys: engine_store same_keys
  by unfold_locales
    (auto simp: query_keeps_def same_keys_def write_defs update_job_def update_attempt_def replace_job_def Let_def
      split: option.splits if_splits)

section \<open>Stored responses\<close>

text \<open>The definition of the answers under a scope.\<close>

definition scope_schema :: "string \<Rightarrow> schema" where
  "scope_schema scope =
     (if take 15 scope = ''settlement_job.'' then SRef (dto ''JobActionResponse'')
      else if scope = ''reconciliation.run'' then SRef (dto ''ReconciliationResponse'')
      else if scope = ''admin.scheduler.tick'' then SRef (dto ''SchedulerTickResponse'')
      else SAny)"

definition reply_ok :: "string \<Rightarrow> StoredResponse \<Rightarrow> bool" where
  "reply_ok scope r \<longleftrightarrow> sr_StatusCode r = 200 \<and> conforms doc_definitions (scope_schema scope) (sr_Body r)"

definition key_ok :: "IdempotencyKey \<Rightarrow> bool" where
  "key_ok k \<longleftrightarrow> (\<forall>r. response_of k = Some r \<longrightarrow> reply_ok (ik_Scope k) r)"

definition stored_ok :: "db \<Rightarrow> bool" where
  "stored_ok d \<longleftrightarrow> list_all key_ok (idempotency_keys d)"

definition stored_step :: "db \<Rightarrow> db \<Rightarrow> bool" where
  "stored_step d d' \<longleftrightarrow> (stored_ok d \<longrightarrow> stored_ok d')"

interpretation stored: db_preorder stored_step
  by unfold_locales (auto simp: stored_step_def)

lemma same_keys_stored: "same_keys d d' \<Longrightarrow> stored_ok d' = stored_ok d"
  by (simp add: same_keys_def stored_ok_def)

lemma key_stmts_stored:
  "query_keeps stored_step (CreateIdempotencyKey k scope h x)"
  "reply_ok scope \<lparr>sr_StatusCode = n, sr_Body = body\<rparr> \<Longrightarrow> query_keeps stored_step (CompleteIdempotencyKey scope k n body)"
proof -
  show "query_keeps stored_step (CreateIdempotencyKey k scope h x)"
    by (auto simp: query_keeps_def stored_step_def stored_ok_def CreateIdempotencyKey_def Let_def key_ok_def response_of_def split: if_splits)
  assume ok: "reply_ok scope \<lparr>sr_StatusCode = n, sr_Body = body\<rparr>"
  then show "query_keeps stored_step (CompleteIdempotencyKey scope k n body)"
    by (auto simp: query_keeps_def stored_step_def stored_ok_def CompleteIdempotencyKey_def Let_def key_ok_def response_of_def list_all_iff
        split: option.splits dest!: find_eq_SomeD)
qed

lemma keyed_steps_stored:
  "keeps stored_step (lookupState E scope key)"
  "keeps stored_step (Reserve S E scope key h)"
  "reply_ok scope r \<Longrightarrow> keeps stored_step (Complete E scope key r)"
proof -
  show look: "keeps stored_step (lookupState E scope key)"
    unfolding lookupState_def IdempotencyRepo_GetActive_def
    by (intro stored.keeps_try stored.keeps_noRowsAs stored.keeps_stmt stored.read_keeps)
      (auto intro!: stored.keeps_return stored.keeps_fail split: sum.splits option.splits)
  show "keeps stored_step (Reserve S E scope key h)"
    unfolding Reserve_def IdempotencyRepo_Reserve_def
    by (intro stored.keeps_bind look)
      (auto intro!: stored.keeps_try stored.keeps_stmt key_stmts_stored stored.keeps_return stored.keeps_fail split: sum.splits prod.splits)
  assume "reply_ok scope r"
  then have "query_keeps stored_step (CompleteIdempotencyKey scope key (wrap32 (sr_StatusCode r)) (sr_Body r))"
    by (intro key_stmts_stored) (simp add: reply_ok_def wrap32_def)
  then show "keeps stored_step (Complete E scope key r)"
    unfolding Complete_def IdempotencyRepo_Complete_def
    by (intro stored.keeps_bind stored.keeps_wrap stored.keeps_noRowsAs stored.keeps_stmt stored.keeps_return)
qed

lemma stored_run: "keeps stored_step m \<Longrightarrow> m st = (r, st') \<Longrightarrow> stored_ok (tx_db st) \<Longrightarrow> stored_ok (tx_db st')"
  using stored.keeps_run [of m st r st'] by (simp add: stored_step_def)

lemma lookupState_reply:
  assumes "lookupState E scope key st = (Inr (StateCompleted, r), st')" "stored_ok (tx_db st)"
  shows "reply_ok scope r"
proof -
  from assms(1) obtain k where k: "GetActiveIdempotencyKey scope key E (gen_uuid E (tx_stmts st)) (tx_db st) = Rows k (tx_db st)" "response_of k = Some r"
    by (auto simp: lookupState_def IdempotencyRepo_GetActive_def noRowsAs_def tryE_def run_stmt_def returnE_def failE_def response_of_def
        GetActiveIdempotencyKey_def split: if_splits sum.splits option.splits prod.splits sql_result.splits)
  then have "k \<in> set (idempotency_keys (tx_db st))" "ik_Scope k = scope"
    by (auto simp: GetActiveIdempotencyKey_def split: option.splits dest!: find_eq_SomeD)
  with assms(2) k(2) show ?thesis by (auto simp: stored_ok_def list_all_iff key_ok_def)
qed

text \<open>An action that stores what it should.\<close>

definition replies :: "string \<Rightarrow> handler \<Rightarrow> bool" where
  "replies scope fn \<longleftrightarrow> (\<forall>s. same_keys (sys_db s) (sys_db (snd (fn s))) \<and> (\<forall>r. fst (fn s) = Inr r \<longrightarrow> reply_ok scope r))"

lemma Execute_stored:
  assumes "Execute S E scope key h fn (st, s) = (r, st', s')" "stored_ok (tx_db st)" "replies scope fn"
  shows "(\<forall>x b. r = Inr (x, b) \<longrightarrow> reply_ok scope x) \<and> stored_ok (tx_db st') \<and> same_keys (sys_db s) (sys_db s')"
proof -
  obtain q st1 where l: "lookupState E scope key st = (q, st1)" by fastforce
  have k1: "stored_ok (tx_db st1)" by (rule stored_run [OF keyed_steps_stored(1) l assms(2)])
  obtain q2 st2 where rs: "Reserve S E scope key h st1 = (q2, st2)" by fastforce
  have k2: "stored_ok (tx_db st2)" by (rule stored_run [OF keyed_steps_stored(2) rs k1])
  obtain q3 st3 where l3: "lookupState E scope key st2 = (q3, st3)" by fastforce
  have k3: "stored_ok (tx_db st3)" by (rule stored_run [OF keyed_steps_stored(1) l3 k2])
  obtain q4 s1 where f: "fn s = (q4, s1)" by fastforce
  have k4: "stored_ok (tx_db (refresh st2 s1))" using k2 by (simp add: refresh_def stored_ok_def)
  have keys: "same_keys (sys_db s) (sys_db s1)" "same_keys (sys_db s) (sys_db s)" using assms(3) f by (auto simp: replies_def same_keys_def dest: spec [of _ s])
  have ok: "reply_ok scope resp" if "q4 = Inr resp" for resp using assms(3) f that by (auto simp: replies_def dest: spec [of _ s])
  have k5: "stored_ok (tx_db st5)" if "Complete E scope key resp (refresh st2 s1) = (q5, st5)" "q4 = Inr resp" for resp q5 st5
    by (rule stored_run [OF keyed_steps_stored(3) [OF ok [OF that(2)]] that(1) k4])
  note completed = lookupState_reply [of E scope key st _ st1] lookupState_reply [of E scope key st2 _ st3]
  from assms(1,2) k1 k2 k3 k4 k5 keys ok completed l l3 show ?thesis
    unfolding Execute_def prod.case l
    by (auto simp: rs l3 f split: sum.splits prod.splits key_state.splits if_splits)
qed

lemma runIdempotent_stored:
  assumes "stored_ok (sys_db s)" "replies scope fn" "runIdempotent S E key scope fn s = (r, s')"
  shows "(\<forall>x b. r = Inr (x, b) \<longrightarrow> reply_ok scope x) \<and> stored_ok (sys_db s')"
proof -
  obtain q st s1 where ex: "Execute S E scope key [] fn (begin_tx s, s) = (q, st, s1)" by (metis prod_cases3)
  have "stored_ok (tx_db (begin_tx s))" using assms(1) by (simp add: begin_tx_def)
  note t = Execute_stored [OF ex this assms(2)]
  have s1: "stored_ok (sys_db s1)" using t same_keys_stored assms(1) by blast
  have fn: "stored_ok (sys_db (snd (fn s)))" "fst (fn s) = Inr x \<Longrightarrow> reply_ok scope x" for x
    using assms(1,2) same_keys_stored unfolding replies_def by blast+
  from assms(3) t s1 fn assms(1) show ?thesis
    unfolding runIdempotent_def ex
    by (auto split: if_splits prod.splits sum.splits commit_outcome.splits)
qed

lemma idempotent_answers:
  assumes "stored_ok (sys_db s)" "replies scope fn"
  shows "answers (scope_schema scope) (fst (idempotent S E c scope fn s)) \<and> stored_ok (sys_db (snd (idempotent S E c scope fn s)))"
proof -
  obtain r s' where run: "runIdempotent S E (rq_GetHeader c ''Idempotency-Key'') scope fn s = (r, s')" by fastforce
  note ok = runIdempotent_stored [OF assms run]
  show ?thesis
  proof (cases r)
    case (Inl err)
    with ok show ?thesis by (simp add: idempotent_def run writeIdempotent_def WriteError_answers)
  next
    case (Inr x)
    with ok show ?thesis by (cases x) (simp add: idempotent_def run writeIdempotent_def answers_def reply_ok_def)
  qed
qed

section \<open>The actions of the API\<close>

lemma job_action_replies:
  assumes "take 15 scope = ''settlement_job.''" "\<And>s. same_keys (sys_db s) (sys_db (snd (svc s)))"
  shows "replies scope (job_action L svc)"
proof -
  have "same_keys (sys_db s) (sys_db (snd (job_action L svc s))) \<and> (\<forall>r. fst (job_action L svc s) = Inr r \<longrightarrow> reply_ok scope r)" for s
    using assms(1) assms(2) [of s]
    by (cases "svc s") (auto simp: job_action_def reply_ok_def scope_schema_def action_responses_conform split: sum.splits)
  then show ?thesis by (simp add: replies_def)
qed

lemma snapshot_action_replies:
  assumes "\<And>s. same_keys (sys_db s) (sys_db (snd (svc s)))"
  shows "replies ''reconciliation.run'' (snapshot_action L svc)"
proof -
  have "same_keys (sys_db s) (sys_db (snd (snapshot_action L svc s)))
      \<and> (\<forall>r. fst (snapshot_action L svc s) = Inr r \<longrightarrow> reply_ok ''reconciliation.run'' r)" for s
    using assms [of s]
    by (cases "svc s") (auto simp: snapshot_action_def reply_ok_def scope_schema_def ReconciliationResponse_conforms split: sum.splits prod.splits)
  then show ?thesis by (simp add: replies_def)
qed

lemma tick_action_replies:
  assumes "\<And>s. same_keys (sys_db s) (sys_db (snd (svc s)))"
  shows "replies ''admin.scheduler.tick'' (tick_action svc)"
proof -
  have "same_keys (sys_db s) (sys_db (snd (tick_action svc s))) \<and> (\<forall>r. fst (tick_action svc s) = Inr r \<longrightarrow> reply_ok ''admin.scheduler.tick'' r)" for s
    using assms [of s]
    by (cases "svc s") (auto simp: tick_action_def reply_ok_def scope_schema_def action_responses_conform split: sum.splits)
  then show ?thesis by (simp add: replies_def)
qed

lemma actions_reply:
  "replies (''settlement_job.replay:'' @ i) (job_action L (SettlementService_ReplayDeadLetter E j a q))"
  "replies (''settlement_job.requeue:'' @ i) (job_action L (SettlementService_RequeueFailed E j a q))"
  "replies ''reconciliation.run'' (snapshot_action L (ReconciliationService_RunSnapshot E))"
  "replies ''admin.scheduler.tick'' (tick_action (TriggerSchedulerScan sc E))"
proof -
  have "same_keys (sys_db s) (sys_db (snd (TriggerSchedulerScan sc E s)))" for s
    using same_keys.EnqueueDueMaturities_keeps [of s] by (simp add: TriggerSchedulerScan_def TickOnce_def)
  then show "replies ''admin.scheduler.tick'' (tick_action (TriggerSchedulerScan sc E))" by (rule tick_action_replies)
qed (auto intro!: job_action_replies snapshot_action_replies same_keys.ReplayDeadLetter_keeps same_keys.RequeueFailed_keeps
    same_keys.RunSnapshot_keeps)

lemma job_handlers_answer:
  assumes "stored_ok (sys_db s)"
  shows "answers (SRef (dto ''JobActionResponse'')) (fst (ReplayJob L S E E' rid c s)) \<and> stored_ok (sys_db (snd (ReplayJob L S E E' rid c s)))"
    "answers (SRef (dto ''JobActionResponse'')) (fst (RequeueJob L S E E' rid c s)) \<and> stored_ok (sys_db (snd (RequeueJob L S E E' rid c s)))"
proof -
  have scopes: "scope_schema (''settlement_job.replay:'' @ i) = SRef (dto ''JobActionResponse'')"
    "scope_schema (''settlement_job.requeue:'' @ i) = SRef (dto ''JobActionResponse'')" for i
    by (simp_all add: scope_schema_def)
  show "answers (SRef (dto ''JobActionResponse'')) (fst (ReplayJob L S E E' rid c s)) \<and> stored_ok (sys_db (snd (ReplayJob L S E E' rid c s)))"
  proof (cases "parseUUIDParam L c ''id''")
    case (Inr i)
    then show ?thesis unfolding ReplayJob_def using idempotent_answers [OF assms actions_reply(1), unfolded scopes] by (simp only: sum.case)
  qed (simp add: ReplayJob_def assms WriteError_answers)
  show "answers (SRef (dto ''JobActionResponse'')) (fst (RequeueJob L S E E' rid c s)) \<and> stored_ok (sys_db (snd (RequeueJob L S E E' rid c s)))"
  proof (cases "parseUUIDParam L c ''id''")
    case (Inr i)
    then show ?thesis unfolding RequeueJob_def using idempotent_answers [OF assms actions_reply(2), unfolded scopes] by (simp only: sum.case)
  qed (simp add: RequeueJob_def assms WriteError_answers)
qed

lemma ops_handlers_answer:
  assumes "stored_ok (sys_db s)"
  shows "answers (SRef (dto ''ReconciliationResponse'')) (fst (Run L S E E' c s)) \<and> stored_ok (sys_db (snd (Run L S E E' c s)))"
    "answers (SRef (dto ''SchedulerTickResponse'')) (fst (SchedulerTick sc S E E' c s)) \<and> stored_ok (sys_db (snd (SchedulerTick sc S E E' c s)))"
  using idempotent_answers [OF assms actions_reply(3)] idempotent_answers [OF assms actions_reply(4)]
  by (simp_all add: Run_def SchedulerTick_def scope_schema_def)

lemma handle_answers:
  assumes "stored_ok (sys_db s)" "described ep = Some (qs, ps, hs, name)"
  shows "answers (SRef (dto name)) (fst (handle ep D V rid c s)) \<and> stored_ok (sys_db (snd (handle ep D V rid c s)))"
  using assms(2) by (cases ep) (auto simp: read_handlers_answer handlers_read assms(1) job_handlers_answer ops_handlers_answer)

lemma ServeHTTP_answers:
  assumes "stored_ok (sys_db s)" "map_of (operations api_doc) (rq_Method c, rq_FullPath c) = Some op"
  shows "answers (ok_schema op) (fst (ServeHTTP D V c s))"
proof -
  obtain guarded ep qs ps hs name where route: "map_of routes (rq_Method c, rq_FullPath c) = Some (guarded, ep)"
      "described ep = Some (qs, ps, hs, name)" "ok_schema op = SRef (dto name)" by (rule op_of_route [OF assms(2)])
  have denied: "answers t r" if "APIKey cfg c = Some r" for cfg r t
    using that by (auto simp: APIKey_def Let_def split: if_splits intro!: error_response_answers)
  have "answers (ok_schema op) (fst (dispatch D V rid c s))" for rid
    using route handle_answers [OF assms(1) route(2), of D V rid c] denied by (auto simp: dispatch_def split: option.split)
  then have "answers (ok_schema op) (fst (dispatch D V (RequestID (ce_NewString V) c) c s))" .
  then show ?thesis by (auto simp: ServeHTTP_def Let_def answers_def split: prod.split)
qed

lemma ServeHTTP_stored:
  assumes "stored_ok (sys_db s)"
  shows "stored_ok (sys_db (snd (ServeHTTP D V c s)))"
proof -
  have "stored_ok (sys_db (snd (handle ep D V rid c s)))" for ep rid
  proof (cases "described ep")
    case None
    then show ?thesis using assms by (cases ep) simp_all
  next
    case (Some x)
    then show ?thesis using handle_answers [OF assms] by (cases x) blast
  qed
  then show ?thesis using assms by (simp add: ServeHTTP_snd dispatch_def split: option.split)
qed

section \<open>Along the life of the process\<close>

lemma life_step_stored:
  assumes "life_step p l l'" "stored_ok (sys_db (lf_sys l))"
  shows "stored_ok (sys_db (lf_sys l'))"
proof -
  note keep = same_keys_stored [THEN iffD2, OF _ assms(2)]
  from assms(1) show ?thesis
  proof (cases rule: life_step.cases)
    case upstream
    then show ?thesis using assms(2) by (simp add: stored_ok_def)
  next
    case outside
    from this(2) show ?thesis
      by (cases rule: outside_step.cases) (auto intro: keep same_keys.runTick_keeps same_keys.reapStaleLeases_keeps simp: assms(2))
  next
    case own
    then show ?thesis
    proof (cases rule: own_step.cases)
      case scheduler
      from this(2) show ?thesis
        by (cases rule: scheduler_step.cases) (auto intro: keep same_keys.runTick_keeps same_keys.reapStaleLeases_keeps simp: assms(2))
    next
      case pool
      have "stored_ok (sys_db s')" if "ProcessOne (pl_processor (wr_pool p)) E w (lf_sys l) = (r, s')" for E w r s'
        using same_keys.ProcessOne_keeps [of "lf_sys l" "pl_processor (wr_pool p)" E w] that by (auto intro: keep)
      with pool(2) show ?thesis by (cases rule: pool_step.cases) (auto simp: assms(2))
    next
      case server
      from this(2) show ?thesis by (cases rule: server_step.cases) (simp add: assms(2) ServeHTTP_stored)
    next
      case main
      then show ?thesis by (cases rule: main_step.cases) (simp_all add: assms(2) return_from_run_def)
    qed
  qed
qed

text \<open>
  C13. Answers have the documented form: when the keys stored before the start conform, then at any moment of the life of the process the
  answer to a request of a documented operation, fresh or replayed, is either 200 with a body of the definition that the operation names
  (the two raw JSON columns apart), without any further field, or one of the statuses 400, 401, 404, 409 and 500 with the error envelope.
\<close>

theorem responses_documented:
  assumes "launch p s h = Inr l0" "stored_ok (sys_db s)" "(life_step p)\<^sup>*\<^sup>* l0 l"
    "map_of (operations api_doc) (rq_Method c, rq_FullPath c) = Some op" "r = fst (ServeHTTP (wr_deps p) V c (lf_sys l))"
  shows "(hr_Status r = 200 \<and> conforms doc_definitions (ok_schema op) (hr_Body r))
    \<or> (hr_Status r \<in> {400, 401, 404, 409, 500} \<and> conforms [] error_envelope (hr_Body r))"
proof -
  have start: "stored_ok (sys_db (lf_sys l0))" using assms(1,2) by (auto simp: launch_def split: sum.splits)
  have "stored_ok (sys_db (lf_sys l))" using assms(3) start by (induction rule: rtranclp_induct) (blast intro: life_step_stored)+
  from ServeHTTP_answers [OF this assms(4), of "wr_deps p" V] show ?thesis by (auto simp: assms(5) answers_def split: if_splits)
qed

theorem responses_documented_witness:
  "\<exists>p h l op. run demo_outside demo_environ no_handles = (Inr p, h) \<and> launch p (demo_sys None) h = Inr l
     \<and> map_of (operations api_doc) (''GET'', ''/api/v1/ledger/accounts'') = Some op
     \<and> (let r = fst (ServeHTTP (wr_deps p) (demo_call 0) (plain_request ''GET'' ''/api/v1/ledger/accounts'') (lf_sys l))
        in hr_Status r = 200 \<and> conforms doc_definitions (ok_schema op) (hr_Body r)
         \<or> hr_Status r \<in> {400, 401, 404, 409, 500} \<and> conforms [] error_envelope (hr_Body r))"
proof -
  obtain p h where p: "run demo_outside demo_environ no_handles = (Inr p, h)" using demo_run_starts by blast
  obtain l where l: "launch p (demo_sys None) h = Inr l" by (rule launch_starts [OF p])
  have "map_of (operations api_doc) (''GET'', ''/api/v1/ledger/accounts'') \<noteq> None" by code_simp
  then obtain op where op: "map_of (operations api_doc) (''GET'', ''/api/v1/ledger/accounts'') = Some op" by blast
  have keys: "stored_ok (sys_db (demo_sys None))" by (simp add: stored_ok_def demo_sys_def demo_db_def)
  have req: "map_of (operations api_doc) (rq_Method (plain_request ''GET'' ''/api/v1/ledger/accounts''),
      rq_FullPath (plain_request ''GET'' ''/api/v1/ledger/accounts'')) = Some op" using op by (simp add: demo_request_def)
  from responses_documented [OF l keys rtranclp.rtrancl_refl req refl, of "demo_call 0"] p l op show ?thesis
    unfolding Let_def by blast
qed

end
