(* ===== verification/Spec2Isabelle.thy ===== *)
theory Spec2Isabelle
  imports Lifecycle Process_Life Harness Conn_Pool Sql_Enums Verdicts Api_Replies
begin

text \<open>
  \<^bold>\<open>A verification of the Arrakin settlement engine.\<close>

  \<^bold>\<open>The program.\<close> Arrakin settles matured investments. A scheduler
  (\<^verbatim>\<open>internal/scheduler\<close>) scans the maturities that are due and, through the orchestrator
  (\<^verbatim>\<open>internal/settlement/orchestrator\<close>) and the calculator
  (\<^verbatim>\<open>internal/settlement/calculator\<close>, \<^verbatim>\<open>internal/domain\<close>), creates one settlement job
  per maturity. Workers (\<^verbatim>\<open>internal/worker\<close>) claim jobs, call a payout gateway
  (\<^verbatim>\<open>internal/settlement/payout\<close>), post the settlement to a double-entry ledger
  (\<^verbatim>\<open>internal/ledger\<close>) and mark job, attempt and maturity, all in one transaction; a failed payout is retried
  with backoff (\<^verbatim>\<open>internal/settlement/retry\<close>) or dead-lettered. An HTTP API reads the tables, replays and
  requeues jobs, triggers scans and takes reconciliation snapshots (\<^verbatim>\<open>internal/api\<close>,
  \<^verbatim>\<open>internal/reconciliation\<close>), with idempotency keys (\<^verbatim>\<open>internal/idempotency\<close>). All state is in
  PostgreSQL, behind the generated queries \<^verbatim>\<open>internal/store/sqlc\<close> and the repositories
  \<^verbatim>\<open>internal/store\<close>.

  \<^bold>\<open>The theories\<close>, in the order they build on each other:
  \<^item> \<open>Arrakin_Prelude\<close>: Go's 32- and 64-bit arithmetic, strings, errors and their wrapping, times, and the third-party
    functions the engine calls, as the record \<open>golib\<close> (an argument of every definition that needs it).
  \<^item> \<open>Money\<close>, \<open>Settlement_Domain\<close>, \<open>Calculator\<close>: the amounts of a settlement
    (\<^verbatim>\<open>money.go\<close>, \<^verbatim>\<open>breakdown.go\<close>, \<^verbatim>\<open>calculator/service.go\<close>), every product and sum wrapped
    at 64 bits, next to an exact reference.
  \<^item> \<open>Sql_Model\<close>, \<open>Queries\<close>, \<open>Queries_Ops\<close>: the rows and enums of \<^verbatim>\<open>models.go\<close>, the database
    as a record of tables, and every SQL statement as a function on the tables that checks the constraints of
    \<^verbatim>\<open>migrations/\<close>.
  \<^item> \<open>Tx\<close>: \<^verbatim>\<open>Store.WithTx\<close>. A program in a transaction is a function on the open transaction that returns a
    value or an error (\<open>bindE\<close> is \<^verbatim>\<open>if err != nil\<close>). The environment \<open>tx_env\<close> of a
    transaction holds the clocks, the fresh identifiers, the order of equal keys, the rows other transactions have locked, and
    which statements, begins and commits fail.
  \<^item> \<open>Repos\<close>, \<open>Store_Laws\<close>: the repository methods; the locale \<open>engine_store\<close>, extended by \<open>settlement_store\<close> with the
    statements of the idempotency keys, says what a relation on tables must satisfy for the statements to respect it, its lemmas carry that through every repository method (and, in later
    theories, through every service), and it is interpreted by \<open>append_only\<close> (ledger, audit trail and snapshots only grow)
    and \<open>schema\<close> (the constraints of the schema, and how a job may evolve).
  \<^item> \<open>Payout\<close>, \<open>Retry_Policy\<close>, \<open>Audit_Trail\<close>, \<open>Ledger_Posting\<close>: the gateway and its simulator, the backoff, the
    audit publisher, the posting service.
  \<^item> \<open>Worker\<close>, \<open>Worker_Runs\<close>: \<^verbatim>\<open>ProcessOne\<close> with every call it makes, the pool, and the exact
    tables after a run that commits.
  \<^item> \<open>Orchestrator\<close>: the scan of due maturities, the scheduler's tick and the reaper of stale leases.
  \<^item> \<open>Idempotency\<close>, \<open>Services\<close>: keys and \<^verbatim>\<open>runIdempotent\<close>, the services behind the handlers.
  \<^item> \<open>System\<close>: the engine as a step relation: upstream registrations, ticks, reaper runs, worker runs and the four mutating
    requests, in any order, each with an arbitrary environment; the reachable states and their invariant.
  \<^item> \<open>Lifecycle\<close>: the abstract machine of a job (waiting, dead or paid, with its retries) and the forward simulation from the
    engine to it; the locale \<open>forward_simulation\<close> is interpreted by the engine.
  \<^item> \<open>Scenario\<close>: a small engine and database, run by evaluation, from which the witnesses are taken.
  \<^item> \<open>Strconv\<close>, \<open>Rfc3339\<close>, \<open>Go_Duration\<close>: what the engine uses of Go's \<^verbatim>\<open>strconv\<close> and \<^verbatim>\<open>time\<close>:
    \<^verbatim>\<open>Atoi\<close>, RFC 3339 times on the Gregorian calendar, \<^verbatim>\<open>ParseDuration\<close> with its float64 fractions.
  \<^item> \<open>Httpx\<close>, \<open>Dto\<close>, \<open>Handlers\<close>, \<open>Router\<close>: requests and responses, the error envelope, the API key and the cursors
    (\<^verbatim>\<open>internal/platform/httpx\<close>), the response objects and their JSON (\<^verbatim>\<open>internal/api/dto\<close>), every endpoint
    (\<^verbatim>\<open>internal/api/handlers\<close>), the route table with its middleware (\<^verbatim>\<open>internal/api/router.go\<close>) and the access log.
  \<^item> \<open>Paging\<close>: a client that follows the cursors of the listings.
  \<^item> \<open>Worker_Pool\<close>: the calls to the gateway and the pool (\<^verbatim>\<open>internal/worker/pool.go\<close>).
  \<^item> \<open>Platform\<close>, \<open>Conn_Pool\<close>: opening and closing the pool of PostgreSQL connections and the Redis client, the log level
    (\<^verbatim>\<open>internal/platform\<close>); how concurrent tasks take connections from the pool and give up waiting for them, with the requests that need two
    read off the model of \<^verbatim>\<open>runIdempotent\<close>.
  \<^item> \<open>Config\<close>, \<open>Wiring\<close>, \<open>Process_Life\<close>: the configuration (\<^verbatim>\<open>internal/config\<close>), how
    \<^verbatim>\<open>cmd/arrakin/main.go\<close> assembles the process from it, and the life of the process as a step relation: the loops of the
    scheduler and of each worker, the requests, the failure of the server, the signal, the shutdown and the exit. Runs, scans and requests have a
    beginning and an end, between which the context of the engine may be cancelled; the steps the process takes of its own (\<open>own_step\<close>) are told from what
    happens to it (\<open>outside_step\<close>).
  \<^item> \<open>Sql_Enums\<close>: \<^verbatim>\<open>Scan\<close> and \<^verbatim>\<open>Value\<close> of the enumerations; the locale \<open>nullable_enum\<close> is interpreted by all six.
  \<^item> \<open>Job_Records\<close>: what a step may change of the rows of one job, and from it the attempts of a job as a trail and its
    amounts as the calculator's.
  \<^item> \<open>Progress\<close>, \<open>Liveness\<close>: a calculus of total correctness for programs in a transaction, the forward run of the worker, and
    what a reachable state gives it; runs that pay and drains that empty the queue.
  \<^item> \<open>Verdicts\<close>: what the profiles, attempts and retries decide about a job, and that a bounded number of runs takes every waiting job there.
  \<^item> \<open>Swagger\<close>, \<open>Api_Contract\<close>, \<open>Api_Replies\<close>: the API description of \<^verbatim>\<open>docs/docs.go\<close> as data and what its schemas say of JSON values; the
    description against the route table, the handlers and the responses; the responses stored under keys, along the life of the process
    (\<open>same_keys\<close> interprets \<open>engine_store\<close>: only the API writes keys).
  \<^item> \<open>Harness\<close>: the integration-test harness (\<^verbatim>\<open>internal/integration\<close>), its fixtures and its loop.

  \<^bold>\<open>What the theorems show.\<close> The calculator conserves money and equals the exact reference unless a product
  overflows. In every reachable state a job is succeeded exactly when the ledger has its four balanced entries and its maturity is
  settled; there is one job per maturity; ledger, audit trail and snapshots are append-only and settled jobs immutable; no job is
  left \<^verbatim>\<open>processing\<close>; snapshots add up and the ledger flags are never raised. Each operation is
  characterised on its branches: what a worker claims and what its run did, what a scan creates, what replay and requeue change, when
  a posting is accepted, when a keyed request runs its handler. The gateway is called at most once per run, for the claimed job, also when the run
  is rolled back. Every HTTP request is a read or one step of the engine, and without the configured key it is a read; a cursor is parsed back to
  what it was built from, and following the cursors of a listing yields every row once. The published
  description of the API bounds what a request can do and names every input it depends on, and every answer, fresh or replayed, has the described form, but for two raw columns
  that the description gets wrong. The process that \<^verbatim>\<open>main.go\<close> assembles only
  visits reachable states until it exits; after a signal it calls the gateway at most once for each run in progress, and its own steps, which are bounded, do not end
  before it has exited. The engine makes progress: when
  nothing fails, a run on a payable job settles it, a drain with a large enough batch empties a payable queue, and a bounded number of runs
  leaves every waiting job succeeded or, by its profile and its retries, dead; the attempts of a
  job are numbered without gaps and its amounts are what the calculator returned. The loop of the test harness ends with its deadline, and succeeds on a payable
  queue. Several theorems prove faults of the code: an overflow the validation lets through, a job the ledger refuses for ever, a
  scan stopped by one bad investment, a key that is unusable once expired, a backoff in the past, a setting without effect, a pool that keyed requests can lock up.

  \<^bold>\<open>Modelling decisions.\<close> A transaction runs on the committed tables without other commits in between; this is what
  the row locks and the unique indexes of the statements are for, and rows locked by concurrent transactions are part of the
  environment, so a claim or a scan may skip any of them. The handler of a keyed request commits on its own connection while the
  transaction of the key is open, as in the code. A run whose context is cancelled may fail at any statement, its call of the gateway takes no context and is
  not stopped, and its commit does not report success. A failed statement aborts its transaction. A commit may be applied and its answer lost.
  The payout gateway is an argument of the processor; its calls and the counters of \<^verbatim>\<open>metrics.Global\<close> survive a rollback.
  Loops over rows are recursive functions on lists and the parsing loops shorten their text, so no definition of the program needs fuel; the client of
  \<open>Paging\<close> is given a number of requests, and the theorems say which number is enough. The loop of the harness may run for ever on a clock that stands
  still; it is a partial function, and the theorems say when it returns. The theorems of progress assume that the server gives twenty new and different
  identifiers to the statements of a run, which is as many as a run has, that \<^verbatim>\<open>uuid.String\<close> prints different identifiers differently, and that the
  name-based identifiers of the entry groups do not collide on the jobs at hand. Identifiers are parsed and printed by
  \<^verbatim>\<open>google/uuid\<close>, a parameter; the theorems about cursors assume that it parses what it prints. gin matches paths against patterns; a request
  carries the pattern that matched.

  \<^bold>\<open>Not modelled.\<close> The sockets of the HTTP listener, the log lines other than the access log, the constructors and accessors of
  \<^verbatim>\<open>store.go\<close> and \<^verbatim>\<open>sqlc/db.go\<close>, which only pass the pool on (\<^verbatim>\<open>WithTxOptions\<close> has no caller), the constructors of services and
  handlers, which store their arguments, the pages of gin-swagger and the recovery middleware of gin, which are third-party, and the intervals of the tickers:
  when a tick comes is the arbitrary order of steps. What is left of the sources beside these is imports, interfaces and the declarations of
  third-party handles.
\<close>

section \<open>What every reachable state satisfies\<close>

text \<open>
  C1. A job is succeeded exactly when the ledger has entries of it, and then it has exactly the four
  lines of its settlement, debits and credits both equal to principal plus gross return, its amounts
  conserve money (net plus fee plus tax is principal plus gross), and its maturity is settled. This
  holds after any interleaving of scheduler ticks, reaper runs, workers and administrative requests, whatever
  statements, begins or commits fail.
\<close>

theorem settled_exactly_when_posted:
  assumes "reachable G s" "j \<in> set (settlement_jobs (sys_db s))"
  shows "(sj_Status j = SettlementJobStatusSucceeded \<longleftrightarrow> entries_of (sys_db s) (sj_ID j) \<noteq> [])
    \<and> (sj_Status j = SettlementJobStatusSucceeded \<longrightarrow>
         length (entries_of (sys_db s) (sj_ID j)) = 4
       \<and> side_total ''D'' (entries_of (sys_db s) (sj_ID j)) = sj_PrincipalCents j + sj_GrossReturnCents j
       \<and> side_total ''C'' (entries_of (sys_db s) (sj_ID j)) = sj_PrincipalCents j + sj_GrossReturnCents j
       \<and> amounts_ok (sj_PrincipalCents j) (sj_GrossReturnCents j) (sj_PlatformFeeCents j)
           (sj_WithholdingTaxCents j) (sj_NetPayoutCents j)
       \<and> (\<exists>m \<in> set (maturity_schedules (sys_db s)). ms_ID m = sj_MaturityScheduleID j \<and> ms_Status m = MaturityStatusSettled))"
proof -
  note inv = reachable_inv [OF assms(1)]
  with assms(2) have j: "job_inv (wp_lib (en_processor G)) (sys_db s) j" by (simp add: engine_inv_def)
  with inv_entries_iff [OF inv assms(2)] settled_amounts [OF inv assms(2)] show ?thesis
    by (auto simp: job_inv_def settled_def)
qed

theorem settled_exactly_when_posted_witness:
  "\<exists>j. settlement_jobs (sys_db (demo_sys2 None)) = [j] \<and> sj_Status j = SettlementJobStatusSucceeded
     \<and> side_total ''D'' (entries_of (sys_db (demo_sys2 None)) (sj_ID j)) = 1080000"
proof -
  obtain j where j: "settlement_jobs (sys_db (demo_sys2 None)) = [j]" "sj_Status j = SettlementJobStatusSucceeded"
      "sj_PrincipalCents j = 1000000" "sj_GrossReturnCents j = 80000"
    using demo_paid by metis
  then have "j \<in> set (settlement_jobs (sys_db (demo_sys2 None)))" by simp
  with settled_exactly_when_posted [OF demo_reachable(3) this] j show ?thesis by simp
qed

text \<open>
  C9. One settlement per maturity: in a reachable state no two jobs have the same maturity schedule, and
  every job belongs to a registered maturity and a registered investment.
\<close>

theorem one_job_per_maturity:
  assumes "reachable G s"
  shows "distinct (map sj_MaturityScheduleID (settlement_jobs (sys_db s)))
    \<and> (\<forall>j \<in> set (settlement_jobs (sys_db s)). sj_MaturityScheduleID j \<in> ms_ID ` set (maturity_schedules (sys_db s))
         \<and> sj_InvestmentID j \<in> inv_ID ` set (investments (sys_db s)))"
proof -
  have ok: "jobs_ok (sys_db s)" using reachable_inv [OF assms] by (simp add: engine_inv_def schema_ok_def)
  have "inj_on sj_MaturityScheduleID (set (settlement_jobs (sys_db s)))"
  proof (rule inj_onI)
    fix j k assume jk: "j \<in> set (settlement_jobs (sys_db s))" "k \<in> set (settlement_jobs (sys_db s))"
      "sj_MaturityScheduleID j = sj_MaturityScheduleID k"
    with ok have "sj_ID j = sj_ID k" unfolding jobs_ok_def job_clash_def by metis
    with ok jk show "j = k" by (auto simp: jobs_ok_def dest: distinct_map_same_key)
  qed
  moreover have "distinct (settlement_jobs (sys_db s))"
    using ok by (simp add: jobs_ok_def distinct_map)
  ultimately show ?thesis using ok by (auto simp: distinct_map jobs_ok_def)
qed

theorem one_job_per_maturity_witness:
  "distinct (map sj_MaturityScheduleID (settlement_jobs (sys_db (demo_sys2 None))))"
  using one_job_per_maturity [OF demo_reachable(3)] by blast

text \<open>
  C10. History is immutable: along any run of the engine from a reachable state the ledger, the audit trail
  and the snapshots are only appended to, and every job of the earlier state is still there with the same
  identity, maturity and amounts, no smaller retry count, and unchanged altogether once it has succeeded.
\<close>

theorem history_immutable:
  assumes "reachable G s" "engine_run G s s'"
  shows "extends (ledger_entries (sys_db s)) (ledger_entries (sys_db s'))
    \<and> extends (audit_events (sys_db s)) (audit_events (sys_db s'))
    \<and> extends (reconciliation_snapshots (sys_db s)) (reconciliation_snapshots (sys_db s'))
    \<and> (\<forall>j \<in> set (settlement_jobs (sys_db s)). \<exists>j' \<in> set (settlement_jobs (sys_db s')).
         sj_ID j' = sj_ID j \<and> sj_MaturityScheduleID j' = sj_MaturityScheduleID j
       \<and> sj_NetPayoutCents j' = sj_NetPayoutCents j \<and> sj_PrincipalCents j' = sj_PrincipalCents j
       \<and> sj_RetryCount j \<le> sj_RetryCount j' \<and> (sj_Status j = SettlementJobStatusSucceeded \<longrightarrow> j' = j))"
proof -
  have "history (sys_db s) (sys_db s')" using engine_run_history assms by blast
  then show ?thesis unfolding history_def jobs_evolve_def job_evolves_def by blast
qed

lemma demo_run: "engine_run demo_engine (demo_sys1 p) (demo_sys2 p)"
  unfolding demo_sys2_def by (rule engine_run.run_step [OF engine_run.run_refl engine_step.work])

theorem history_immutable_witness:
  "extends (audit_events (sys_db (demo_sys1 None))) (audit_events (sys_db (demo_sys2 None)))"
  using history_immutable [OF demo_reachable(2) demo_run] by blast

text \<open>
  C34. Leases never survive a transaction: in a reachable state no job is \<^verbatim>\<open>processing\<close>, so a run of
  the reaper of stale leases changes nothing at all, whatever the clock and the timeout; a worker that
  dies takes its lease with it when the server rolls its transaction back.
\<close>

theorem reaper_never_fires:
  assumes "reachable G s"
  shows "(\<forall>j \<in> set (settlement_jobs (sys_db s)). sj_Status j \<noteq> SettlementJobStatusProcessing)
    \<and> reapStaleLeases sc E s = s"
proof -
  have "\<forall>j \<in> set (settlement_jobs (sys_db s)). sj_Status j \<noteq> SettlementJobStatusProcessing"
    using reachable_inv [OF assms] by (simp add: engine_inv_def job_inv_def)
  then show ?thesis by (simp add: reap_noop)
qed

theorem reaper_never_fires_witness:
  "reapStaleLeases (en_scheduler demo_engine) (demo_env 2) (demo_sys1 None) = demo_sys1 None"
  using reaper_never_fires [OF demo_reachable(2)] by blast

text \<open>
  C2. The engine refines the life cycle of a job: seen as a map from job identifiers to their retry bound and phase
  (waiting, dead or paid, with the retries so far), every engine step from a reachable state is a step of the abstract machine: it
  changes nothing, opens new jobs waiting without retries, or moves one job by a transition of its life cycle
  (waiting to paid, to dead, or to one retry more below the bound; dead to waiting); and the map itself is reachable in that machine.
\<close>

theorem engine_refines_lifecycle:
  assumes "reachable G s" "engine_step G s s'"
  shows "book_step (book_of (sys_db s)) (book_of (sys_db s'))
    \<and> reach (\<lambda>B. B = Map.empty) book_step (book_of (sys_db s'))"
proof -
  have "reachable G s'" using assms by (rule reachable.step)
  with engine.reach_sim [OF reachable_reach] engine_step_book [OF reachable_inv [OF assms(1)] assms(2)]
  show ?thesis by blast
qed

theorem engine_refines_lifecycle_witness:
  "book_step (book_of (sys_db (demo_sys1 None))) (book_of (sys_db (demo_sys2 None)))"
proof -
  have "engine_step demo_engine (demo_sys1 None) (demo_sys2 None)" unfolding demo_sys2_def by (rule engine_step.work)
  with engine_refines_lifecycle [OF demo_reachable(2)] show ?thesis by blast
qed

text \<open>
  C17. Retries are bounded for ever: in a reachable state the retry count of a job is zero or below its maximum, whatever
  was replayed or requeued in between; so a job is retried at most one time less than its maximum in its whole life.
\<close>

theorem retries_bounded:
  assumes "reachable G s" "j \<in> set (settlement_jobs (sys_db s))"
  shows "0 \<le> sj_RetryCount j \<and> (sj_RetryCount j = 0 \<or> sj_RetryCount j < sj_MaxRetries j)"
proof -
  have "jobs_ok (sys_db s)" using reachable_inv [OF assms(1)] by (simp add: engine_inv_def schema_ok_def)
  from book_of_job [OF this assms(2)] reachable_bounded [OF assms(1)]
  have "0 \<le> retries (phase_of j) \<and> (retries (phase_of j) = 0 \<or> retries (phase_of j) < sj_MaxRetries j)"
    unfolding bounded_book_def by blast
  moreover have "retries (phase_of j) = sj_RetryCount j" by (simp add: phase_of_def split: SettlementJobStatus.split)
  ultimately show ?thesis by simp
qed

theorem retries_bounded_witness:
  "\<exists>j. settlement_jobs (sys_db (demo_sys2 (Some ''transient_then_success''))) = [j] \<and> sj_RetryCount j = 1 \<and> 1 < sj_MaxRetries j"
proof -
  obtain j where j: "settlement_jobs (sys_db (demo_sys2 (Some ''transient_then_success''))) = [j]" "sj_RetryCount j = 1"
    using demo_retry by metis
  then have "j \<in> set (settlement_jobs (sys_db (demo_sys2 (Some ''transient_then_success''))))" by simp
  from retries_bounded [OF demo_reachable(3) this] j show ?thesis by auto
qed

section \<open>The worker\<close>

lemma claim_candidate_None:
  "claim_candidate E d = None \<longleftrightarrow> (\<forall>j \<in> set (settlement_jobs d). \<not> (claimable E j \<and> \<not> row_locked E (sj_ID j)))"
proof -
  let ?F = "filter (\<lambda>j. claimable E j \<and> \<not> row_locked E (sj_ID j)) (settlement_jobs d)"
  have "claim_candidate E d = None \<longleftrightarrow> sort_key (claim_order E) ?F = []"
    by (simp add: claim_candidate_def split: list.splits)
  also have "\<dots> \<longleftrightarrow> ?F = []" by (simp only: length_0_conv [symmetric] length_sort)
  finally show ?thesis by (auto simp: filter_empty_conv)
qed

lemma ProcessOne_no_job:
  assumes "\<not> begin_fault E" "\<not> stmt_fault E 0" "claim_candidate E (sys_db s) = None"
  shows "ProcessOne P E w s = (Inl ErrNoJobAvailable, s)"
  using assms
  by (simp add: ProcessOne_def WithTx_def process_body_def bindE_def tryE_def SettlementJobRepo_Claim_def noRowsAs_def
      run_stmt_def ClaimSettlementJob_def failE_def begin_tx_def)

lemma replace_job_others:
  assumes "schema_ok d" "j \<in> set (settlement_jobs d)" "sj_ID j' = sj_ID j"
  shows "\<forall>k \<in> set (settlement_jobs d). k \<noteq> j \<longrightarrow> k \<in> set (settlement_jobs (replace_job j' d))"
proof (intro ballI impI)
  fix k assume k: "k \<in> set (settlement_jobs d)" "k \<noteq> j"
  then have "sj_ID k \<noteq> sj_ID j"
    using assms(1,2) distinct_map_same_key [of sj_ID "settlement_jobs d" k j] by (auto simp: schema_ok_def jobs_ok_def)
  with k(1) assms(3) show "k \<in> set (settlement_jobs (replace_job j' d))" by (force simp: replace_job_def)
qed

lemma moved_job:
  assumes "if pr_Err (wp_gateway P (execute_input j v a)) = None then paid P E w d j v a d' else errored P E w d j v a d'"
    and "sj_Status j \<in> {SettlementJobStatusPending, SettlementJobStatusFailed}"
  shows "\<exists>j'. settlement_jobs d' = settlement_jobs (replace_job j' d) \<and> sj_ID j' = sj_ID j \<and> j' \<noteq> j"
proof -
  have "sj_Status (job_succeeded E ref (claimed E w j)) \<noteq> sj_Status j" "sj_Status (job_dead E reason msg c (claimed E w j)) \<noteq> sj_Status j" for ref reason msg c
    using assms(2) by (auto simp: job_succeeded_def job_dead_def)
  then have over: "job_succeeded E ref (claimed E w j) \<noteq> j" "job_dead E reason msg c (claimed E w j) \<noteq> j" for ref reason msg c
    by metis+
  have "sj_RetryCount (job_failed E t msg (claimed E w j)) \<noteq> sj_RetryCount j" for t msg by (simp add: job_failed_def)
  then have retried: "job_failed E t msg (claimed E w j) \<noteq> j" for t msg by metis
  show ?thesis
  proof (cases "pr_Err (wp_gateway P (execute_input j v a)) = None")
    case True
    let ?j = "job_succeeded E (pr_PayoutReference (wp_gateway P (execute_input j v a))) (claimed E w j)"
    have "settlement_jobs d' = settlement_jobs (replace_job ?j d)"
      using assms(1) True by (auto simp: paid_def Let_def replace_job_def)
    with over(1) show ?thesis by (intro exI [of _ ?j]) simp
  next
    case False
    with assms(1) obtain j' where j': "settlement_jobs d' = settlement_jobs (replace_job j' d)"
        "(\<exists>reason msg c. j' = job_dead E reason msg c (claimed E w j)) \<or> (\<exists>t msg. j' = job_failed E t msg (claimed E w j))"
      unfolding errored_def Let_def by (fastforce simp: replace_job_def split: if_splits)
    from j'(2) have "sj_ID j' = sj_ID j" by auto
    moreover have "j' \<noteq> j" using j'(2) over(2) retried by metis
    ultimately show ?thesis using j'(1) by blast
  qed
qed

text \<open>Whatever becomes of a run, it touches no job but the one it claims; when it commits, it has called the gateway and moved the job.\<close>

lemma ProcessOne_touches:
  assumes "schema_ok (sys_db s)" "ProcessOne P E w s = (r, s')" "claim_candidate E (sys_db s) = Some j"
  shows "\<exists>calls. proc_payouts (sys_proc s') = proc_payouts (sys_proc s) @ calls \<and> (\<forall>c \<in> set calls. ei_JobID c = sj_ID j)
      \<and> (r = Inr () \<longrightarrow> calls \<noteq> [])"
    "\<forall>k \<in> set (settlement_jobs (sys_db s)). k \<noteq> j \<longrightarrow> k \<in> set (settlement_jobs (sys_db s'))"
    "r = Inr () \<longrightarrow> j \<notin> set (settlement_jobs (sys_db s'))"
proof -
  have j: "j \<in> set (settlement_jobs (sys_db s))" "sj_Status j \<in> {SettlementJobStatusPending, SettlementJobStatusFailed}"
    using claim_candidate_SomeD [OF assms(3)] by (auto simp: claimable_def)
  have calls: "\<exists>calls. proc_payouts (sys_proc s') = proc_payouts (sys_proc s) @ calls \<and> (\<forall>c \<in> set calls. ei_JobID c = sj_ID j)"
    by (rule ProcessOne_calls [of P E w s]) (use assms(2,3) in \<open>auto simp: payout_call_def\<close>)
  from assms(2) have "(\<exists>e. r = Inl e \<and> sys_db s' = sys_db s)
      \<or> (\<exists>j' c. settlement_jobs (sys_db s') = settlement_jobs (replace_job j' (sys_db s)) \<and> sj_ID j' = sj_ID j \<and> j' \<noteq> j
           \<and> proc_payouts (sys_proc s') = proc_payouts (sys_proc s) @ [c])"
    unfolding ProcessOne_def
  proof (cases rule: WithTx_cases)
    case (applied x st)
    have x: "x = ()" and "schema_ok (tx_db (begin_tx s))" using assms(1) by simp_all
    from process_body_ok [OF applied(1) [unfolded x] this(2), unfolded begin_tx_simps applied(3,4) [symmetric]]
    obtain k v a where f: "flight_ok E (sys_db s) k v a"
        and o: "if pr_Err (wp_gateway P (execute_input k v a)) = None then paid P E w (sys_db s) k v a (sys_db s')
                else errored P E w (sys_db s) k v a (sys_db s')"
        and p: "proc_payouts (sys_proc s') = proc_payouts (sys_proc s) @ [execute_input k v a]"
      by metis
    have k: "k = j" using f assms(3) by (simp add: flight_ok_def)
    have "\<exists>j'. settlement_jobs (sys_db s') = settlement_jobs (replace_job j' (sys_db s)) \<and> sj_ID j' = sj_ID j \<and> j' \<noteq> j"
      using moved_job [OF o [unfolded k] j(2)] .
    with p show ?thesis by blast
  qed simp
  then show "\<exists>calls. proc_payouts (sys_proc s') = proc_payouts (sys_proc s) @ calls \<and> (\<forall>c \<in> set calls. ei_JobID c = sj_ID j)
      \<and> (r = Inr () \<longrightarrow> calls \<noteq> [])"
    "\<forall>k \<in> set (settlement_jobs (sys_db s)). k \<noteq> j \<longrightarrow> k \<in> set (settlement_jobs (sys_db s'))"
    "r = Inr () \<longrightarrow> j \<notin> set (settlement_jobs (sys_db s'))"
    using calls replace_job_others [OF assms(1) j(1)] by (auto simp: replace_job_def)
qed

text \<open>
  C19. What a worker picks. A job is ready when it is pending or failed, its next retry time, if it has one, has come, and no other
  transaction holds its row. Without a ready job \<^verbatim>\<open>ProcessOne\<close> returns \<^verbatim>\<open>ErrNoJobAvailable\<close> and changes nothing, not even a counter.
  Otherwise one ready job is chosen that no other ready job precedes in the order of next retry time (jobs without one first), then
  creation time: the statement leases that row to the worker and leaves every other row alone; whatever becomes of the run, the gateway is called for no other job
  and no other job changes; and when the run commits, the gateway has been called for that job and the job has left its state.
\<close>

theorem ProcessOne_claims_next:
  assumes "\<not> begin_fault E" "\<not> stmt_fault E 0" "schema_ok (sys_db s)" "ProcessOne P E w s = (r, s')"
  defines "up_for_claim \<equiv> \<lambda>j. j \<in> set (settlement_jobs (sys_db s)) \<and> sj_Status j \<in> {SettlementJobStatusPending, SettlementJobStatusFailed}
      \<and> (\<forall>t. sj_NextRetryAt j = Some t \<longrightarrow> t \<le> pg_now E) \<and> \<not> row_locked E (sj_ID j)"
  shows "if \<forall>j. \<not> up_for_claim j then r = Inl ErrNoJobAvailable \<and> s' = s
    else \<exists>j. up_for_claim j
      \<and> (\<forall>k. up_for_claim k \<longrightarrow> nulls_first (sj_NextRetryAt j) (sj_NextRetryAt k)
           \<or> sj_NextRetryAt j = sj_NextRetryAt k \<and> sj_CreatedAt j \<le> sj_CreatedAt k)
      \<and> (\<exists>d. ClaimSettlementJob w E (gen_uuid E 0) (sys_db s) = Rows (j\<lparr>sj_Status := SettlementJobStatusProcessing,
             sj_ProcessingStartedAt := Some (pg_now E), sj_ProcessingOwner := Some w, sj_UpdatedAt := pg_now E\<rparr>) d
           \<and> (\<forall>k \<in> set (settlement_jobs (sys_db s)). k \<noteq> j \<longrightarrow> k \<in> set (settlement_jobs d)))
      \<and> (\<exists>calls. proc_payouts (sys_proc s') = proc_payouts (sys_proc s) @ calls \<and> (\<forall>c \<in> set calls. ei_JobID c = sj_ID j)
           \<and> (r = Inr () \<longrightarrow> calls \<noteq> []))
      \<and> (\<forall>k \<in> set (settlement_jobs (sys_db s)). k \<noteq> j \<longrightarrow> k \<in> set (settlement_jobs (sys_db s')))
      \<and> (r = Inr () \<longrightarrow> j \<notin> set (settlement_jobs (sys_db s')))"
proof -
  have up_for_claim: "up_for_claim j \<longleftrightarrow> j \<in> set (settlement_jobs (sys_db s)) \<and> claimable E j \<and> \<not> row_locked E (sj_ID j)" for j
    by (auto simp: up_for_claim_def claimable_def split: option.split)
  show ?thesis
  proof (cases "claim_candidate E (sys_db s)")
    case None
    with claim_candidate_None [of E "sys_db s"] have "\<forall>j. \<not> up_for_claim j" by (auto simp: up_for_claim)
    with ProcessOne_no_job [OF assms(1,2) None, of P w] assms(4) show ?thesis by simp
  next
    case (Some j)
    note c = claim_candidate_SomeD [OF Some]
    have up: "up_for_claim j" using c(1-3) by (simp add: up_for_claim)
    then have some: "\<not> (\<forall>j. \<not> up_for_claim j)" by blast
    note up
    moreover have "nulls_first (sj_NextRetryAt j) (sj_NextRetryAt k) \<or> sj_NextRetryAt j = sj_NextRetryAt k \<and> sj_CreatedAt j \<le> sj_CreatedAt k"
      if "up_for_claim k" for k
      using c(4) [of k] that by (auto simp: up_for_claim claim_order_def less_eq_claim_key_def less_claim_key_def)
    moreover have "\<exists>d. ClaimSettlementJob w E (gen_uuid E 0) (sys_db s) = Rows (claimed E w j) d
        \<and> (\<forall>k \<in> set (settlement_jobs (sys_db s)). k \<noteq> j \<longrightarrow> k \<in> set (settlement_jobs d))"
      using replace_job_others [OF assms(3) c(1), of "claimed E w j"] Some by (simp add: ClaimSettlementJob_def)
    ultimately show ?thesis
      using ProcessOne_touches [OF assms(3,4) Some] unfolding claimed_def if_not_P [OF some]
      by (intro exI [of _ j] conjI) blast+
  qed
qed

text \<open>The worker of the sample system on its one job, and on an empty queue.\<close>

theorem ProcessOne_claims_next_witness:
  "(\<exists>j s'. ClaimSettlementJob ''w'' (demo_env 1) (gen_uuid (demo_env 1) 0) (sys_db (demo_sys1 None)) = Rows (claimed (demo_env 1) ''w'' j) s')
   \<and> ProcessOne (en_processor demo_engine) (demo_env 1) ''w'' (demo_sys None) = (Inl ErrNoJobAvailable, demo_sys None)"
proof -
  have ok: "schema_ok (sys_db (demo_sys None))" "schema_ok (sys_db (demo_sys1 None))"
    using reachable_inv [OF demo_reachable(1)] reachable_inv [OF demo_reachable(2)] by (simp_all add: engine_inv_def)
  obtain r s' where "ProcessOne (en_processor demo_engine) (demo_env 1) ''w'' (demo_sys None) = (r, s')" by fastforce
  note empty = ProcessOne_claims_next [OF _ _ ok(1) this] this
  obtain q t where "ProcessOne (en_processor demo_engine) (demo_env 1) ''w'' (demo_sys1 None) = (q, t)" by fastforce
  note one = ProcessOne_claims_next [OF _ _ ok(2) this]
  have "r = Inl ErrNoJobAvailable \<and> s' = demo_sys None" using empty(1) by (simp add: demo_sys_def demo_db_def)
  moreover have "demo_job \<in> set (settlement_jobs (sys_db (demo_sys1 None)))" "sj_Status demo_job = SettlementJobStatusPending" "sj_NextRetryAt demo_job = None"
    by (simp_all add: demo_sys1_def demo_job_def)
  then have "\<exists>j s'. ClaimSettlementJob ''w'' (demo_env 1) (gen_uuid (demo_env 1) 0) (sys_db (demo_sys1 None)) = Rows (claimed (demo_env 1) ''w'' j) s'"
    using one by (auto simp: claimed_def split: if_splits)
  ultimately show ?thesis using empty(2) by blast
qed

text \<open>
  C18. What a committed run of the worker did: it claimed the next job, called the gateway exactly once with
  the next attempt number, and moved the job accordingly. Paid: the job is succeeded under the gateway's reference and its
  maturity is settled. Failed: nothing is posted and no maturity changes; the job is dead when the failure is
  terminal or the retries are used up, and otherwise has one retry more and waits for the backoff.
\<close>

theorem ProcessOne_outcome:
  assumes "schema_ok (sys_db s)" "ProcessOne P E w s = (Inr (), s')"
  shows "\<exists>j v a j'. claim_candidate E (sys_db s) = Some j \<and> v \<in> set (investments (sys_db s)) \<and> inv_ID v = sj_InvestmentID j
    \<and> pa_SettlementJobID a = sj_ID j \<and> pa_AttemptNumber a = next_attempt (sys_db s) (sj_ID j)
    \<and> proc_payouts (sys_proc s') = proc_payouts (sys_proc s) @ [execute_input j v a]
    \<and> settlement_jobs (sys_db s') = settlement_jobs (replace_job j' (sys_db s))
    \<and> (let res = wp_gateway P (execute_input j v a) in case pr_Err res of
         None \<Rightarrow> j' = job_succeeded E (pr_PayoutReference res) (claimed E w j)
           \<and> maturity_schedules (sys_db s') = settle_maturity E (sj_MaturityScheduleID j) (maturity_schedules (sys_db s))
       | Some err \<Rightarrow> ledger_entries (sys_db s') = ledger_entries (sys_db s)
           \<and> maturity_schedules (sys_db s') = maturity_schedules (sys_db s)
           \<and> (if pr_ErrorClass res = ErrorClassTerminal
              then j' = job_dead E ''terminal payout failure'' (error_text err) ErrorClassTerminal (claimed E w j)
              else if wrap32 (sj_RetryCount j + 1) \<ge> sj_MaxRetries j
              then \<exists>c. j' = job_dead E ''max retries exceeded'' (error_text err) c (claimed E w j)
              else \<exists>t. NextRetryAt (wp_retry P) (jitter E) (sj_RetryCount j) (go_now E) = Some t
                     \<and> j' = job_failed E (timestamptz t) (error_text err) (claimed E w j)))"
proof -
  from assms(2) obtain st where run: "process_body P E w (begin_tx s) = (Inr (), st)"
      and s': "sys_db s' = tx_db st" "sys_proc s' = tx_proc st"
    by (auto simp: ProcessOne_def WithTx_Inr)
  have "schema_ok (tx_db (begin_tx s))" using assms(1) by simp
  from process_body_ok [OF run this, unfolded begin_tx_simps s' [symmetric]]
  obtain j v a where f: "flight_ok E (sys_db s) j v a"
      and o: "if pr_Err (wp_gateway P (execute_input j v a)) = None then paid P E w (sys_db s) j v a (sys_db s')
              else errored P E w (sys_db s) j v a (sys_db s')"
      and p: "proc_payouts (sys_proc s') = proc_payouts (sys_proc s) @ [execute_input j v a]"
    by metis
  have a: "pa_SettlementJobID a = sj_ID j" "pa_AttemptNumber a = next_attempt (sys_db s) (sj_ID j)"
    using f by (auto simp: flight_ok_def new_attempt_def)
  let ?res = "wp_gateway P (execute_input j v a)"
  show ?thesis
  proof (cases "pr_Err ?res")
    case None
    with o have "settlement_jobs (sys_db s') =
        settlement_jobs (replace_job (job_succeeded E (pr_PayoutReference ?res) (claimed E w j)) (sys_db s))"
      "maturity_schedules (sys_db s') = settle_maturity E (sj_MaturityScheduleID j) (maturity_schedules (sys_db s))"
      by (auto simp: paid_def Let_def replace_job_def)
    with None f a p show ?thesis
      by (intro exI [of _ j] exI [of _ v] exI [of _ a]
          exI [of _ "job_succeeded E (pr_PayoutReference ?res) (claimed E w j)"]) (simp add: flight_ok_def)
  next
    case (Some err)
    with o have "errored P E w (sys_db s) j v a (sys_db s')" by simp
    from errored_job [OF this Some] obtain j' where "settlement_jobs (sys_db s') = settlement_jobs (replace_job j' (sys_db s))"
      "ledger_entries (sys_db s') = ledger_entries (sys_db s)" "maturity_schedules (sys_db s') = maturity_schedules (sys_db s)"
      "if pr_ErrorClass ?res = ErrorClassTerminal
       then j' = job_dead E ''terminal payout failure'' (error_text err) ErrorClassTerminal (claimed E w j)
       else if wrap32 (sj_RetryCount j + 1) \<ge> sj_MaxRetries j
       then \<exists>c. j' = job_dead E ''max retries exceeded'' (error_text err) c (claimed E w j)
       else in_int32 (sj_RetryCount j + 1)
          \<and> (\<exists>t. NextRetryAt (wp_retry P) (jitter E) (sj_RetryCount j) (go_now E) = Some t
              \<and> j' = job_failed E (timestamptz t) (error_text err) (claimed E w j))" .
    with Some f a p show ?thesis
      by (intro exI [of _ j] exI [of _ v] exI [of _ a] exI [of _ j']) (simp add: flight_ok_def split: if_split_asm)
  qed
qed

theorem ProcessOne_outcome_witness:
  "\<exists>s' j v a. ProcessOne (en_processor demo_engine) (demo_env 1) ''w'' (demo_sys1 (Some ''terminal_failure'')) = (Inr (), s')
     \<and> proc_payouts (sys_proc s') = [execute_input j v a] \<and> pa_SettlementJobID a = sj_ID j"
proof -
  obtain s' where s': "ProcessOne (en_processor demo_engine) (demo_env 1) ''w'' (demo_sys1 (Some ''terminal_failure'')) = (Inr (), s')"
    using demo_process [OF demo_dead_body] by metis
  have ok: "schema_ok (sys_db (demo_sys1 (Some ''terminal_failure'')))"
    using reachable_inv [OF demo_reachable(2)] by (simp add: engine_inv_def)
  have "proc_payouts (sys_proc (demo_sys1 p)) = []" for p by (simp add: demo_sys1_def demo_proc_def)
  moreover obtain j v a where "proc_payouts (sys_proc s') = proc_payouts (sys_proc (demo_sys1 (Some ''terminal_failure''))) @ [execute_input j v a]"
      "pa_SettlementJobID a = sj_ID j"
    using ProcessOne_outcome [OF ok s'] by blast
  ultimately show ?thesis using s' by auto
qed

section \<open>The scheduler\<close>

lemma due_rows:
  assumes "ListDueMaturitySchedules E u d = Rows due d'"
  shows "set due = {(m, v). m \<in> set (maturity_schedules d) \<and> v \<in> set (investments d) \<and> maturity_due E m
    \<and> \<not> row_locked E (ms_ID m) \<and> inv_ID v = ms_InvestmentID m}"
proof -
  have "due = concat (map (\<lambda>m. map (Pair m) (filter (\<lambda>v. inv_ID v = ms_InvestmentID m) (investments d)))
      (sort_key (\<lambda>m. (ms_MaturesAt m, row_rank E (ms_ID m))) (filter (\<lambda>m. maturity_due E m \<and> \<not> row_locked E (ms_ID m)) (maturity_schedules d))))"
    using assms by (auto simp: ListDueMaturitySchedules_def)
  then have "p \<in> set due \<longleftrightarrow> (\<exists>m \<in> set (maturity_schedules d). \<exists>v \<in> set (investments d). p = (m, v) \<and> maturity_due E m
      \<and> \<not> row_locked E (ms_ID m) \<and> inv_ID v = ms_InvestmentID m)" for p
    by auto
  then show ?thesis by auto
qed

lemma Enqueue_applied:
  assumes "EnqueueDueMaturities S E s = (r, s')"
  obtains (unchanged) e where "r = Inl e" "sys_db s' = sys_db s"
  | (applied) due js u n where "ListDueMaturitySchedules E u (sys_db s) = Rows due (sys_db s)"
      "enqueued S E due (sys_db s) js (sys_db s')" "n = int (length js)" "r = Inr n \<or> (\<exists>e. r = Inl e)"
proof -
  obtain q s1 where run: "WithTx E (enqueue_body S E) s = (q, s1)" by fastforce
  have db: "sys_db s' = sys_db s1" "r = q"
    using assms run by (auto simp: EnqueueDueMaturities_def split: sum.splits)
  from run show thesis
  proof (cases rule: WithTx_cases)
    case (unchanged e)
    with db that(1) show thesis by simp
  next
    case (applied n st)
    from enqueue_body_ok [OF applied(1), unfolded begin_tx_simps applied(3) [symmetric]] db applied(5) that(2)
    show thesis by metis
  qed
qed

text \<open>
  C20. A scan that commits creates exactly one pending job for every maturity that is due, not locked and without
  a job, with the amounts the calculator gives for its investment; it returns their number, gives no maturity a second job,
  leaves every existing job as it was, and writes to no other table than the jobs and the audit trail.
\<close>

theorem Enqueue_creates_due:
  assumes "EnqueueDueMaturities S E s = (Inr n, s')"
  shows "\<exists>js es. sys_db s' = (sys_db s)\<lparr>settlement_jobs := settlement_jobs (sys_db s) @ js,
        audit_events := audit_events (sys_db s) @ es\<rparr> \<and> n = int (length js)
    \<and> list_all2 (\<lambda>j e. ae_Action e = ActionSettlementJobCreated \<and> ae_EntityID e = sj_ID j) js es
    \<and> (\<forall>j \<in> set js. \<exists>m \<in> set (maturity_schedules (sys_db s)). \<exists>v \<in> set (investments (sys_db s)).
         maturity_due E m \<and> inv_ID v = ms_InvestmentID m \<and> \<not> has_job (sys_db s) m
       \<and> (\<exists>b. Calculate (or_lib S) (or_calc S) (investment_terms v) = Inr b \<and> j = new_job (job_params S m v b) E (sj_ID j)))
    \<and> (\<forall>m \<in> set (maturity_schedules (sys_db s)). \<forall>v \<in> set (investments (sys_db s)).
         maturity_due E m \<and> \<not> row_locked E (ms_ID m) \<and> inv_ID v = ms_InvestmentID m \<longrightarrow> has_job (sys_db s') m)"
  using assms
proof (cases rule: Enqueue_applied)
  case (applied due js u n')
  note due = due_rows [OF applied(1)]
  from applied(2) obtain es where es: "sys_db s' = (sys_db s)\<lparr>settlement_jobs := settlement_jobs (sys_db s) @ js,
        audit_events := audit_events (sys_db s) @ es\<rparr>"
      "list_all2 (\<lambda>j e. ae_Action e = ActionSettlementJobCreated \<and> ae_EntityID e = sj_ID j) js es"
      and js: "\<forall>j \<in> set js. \<exists>row \<in> set due. job_for S E row j \<and> \<not> has_job (sys_db s) (fst row)"
      and all: "\<forall>row \<in> set due. has_job (sys_db s') (fst row)"
    unfolding enqueued_def by blast
  from js have "\<forall>j \<in> set js. \<exists>m \<in> set (maturity_schedules (sys_db s)). \<exists>v \<in> set (investments (sys_db s)).
         maturity_due E m \<and> inv_ID v = ms_InvestmentID m \<and> \<not> has_job (sys_db s) m
       \<and> (\<exists>b. Calculate (or_lib S) (or_calc S) (investment_terms v) = Inr b \<and> j = new_job (job_params S m v b) E (sj_ID j))"
    unfolding due job_for_def by fastforce
  moreover from all have "\<forall>m \<in> set (maturity_schedules (sys_db s)). \<forall>v \<in> set (investments (sys_db s)).
         maturity_due E m \<and> \<not> row_locked E (ms_ID m) \<and> inv_ID v = ms_InvestmentID m \<longrightarrow> has_job (sys_db s') m"
    unfolding due by auto
  ultimately show ?thesis using es applied(3,4) by blast
qed simp

theorem Enqueue_creates_due_witness:
  "\<exists>s'. EnqueueDueMaturities (sc_orchestrator (en_scheduler demo_engine)) (demo_env 0) (demo_sys None) = (Inr 1, s')
     \<and> has_job (sys_db s') demo_maturity"
proof -
  obtain s' where s': "EnqueueDueMaturities (sc_orchestrator (en_scheduler demo_engine)) (demo_env 0) (demo_sys None) = (Inr 1, s')"
    using demo_enqueue [of "sys_proc (demo_sys None)" None] by auto
  have "demo_maturity \<in> set (maturity_schedules (sys_db (demo_sys None)))" "demo_investment None \<in> set (investments (sys_db (demo_sys None)))"
      "maturity_due (demo_env 0) demo_maturity" "inv_ID (demo_investment None) = ms_InvestmentID demo_maturity"
    by (simp_all add: demo_sys_def demo_db_def maturity_due_def demo_maturity_def demo_investment_def)
  with Enqueue_creates_due [OF s'] have "has_job (sys_db s') demo_maturity" by auto
  with s' show ?thesis by blast
qed

lemma Enqueue_reachable:
  assumes "EnqueueDueMaturities (sc_orchestrator (en_scheduler G)) E s = (r, s')" "reachable G s"
  shows "reachable G s'"
proof -
  have "snd (runIdempotent (en_idem G) E [] [] (respond (\<lambda>_. no_response) (TriggerSchedulerScan (en_scheduler G) E)) s) = s'"
    using assms(1) by (simp add: runIdempotent_def respond_def TriggerSchedulerScan_def TickOnce_def split: sum.split)
  with reachable.step [OF assms(2) engine_step.scan] show ?thesis by metis
qed

lemma has_job_history: "history d d' \<Longrightarrow> has_job d m \<Longrightarrow> has_job d' m"
  unfolding history_def jobs_evolve_def job_evolves_def has_job_def by metis

text \<open>
  C21. Scanning again is harmless: after a committed scan and whatever the engine did since (runs of workers, other scans, registrations),
  a later scan creates a job only for a maturity without one that the first scan could not have seen: not registered with its
  investment then, not due then, or locked then. So when every maturity that is due now was there for the first scan, the second creates
  nothing and changes no table, however much later it runs.
\<close>

theorem Enqueue_rescan_idempotent:
  assumes "reachable G s" "EnqueueDueMaturities (sc_orchestrator (en_scheduler G)) E s = (Inr n, s')" "engine_run G s' s1"
    and "EnqueueDueMaturities S' E' s1 = (Inr n', s2)"
  defines "seen \<equiv> \<lambda>m. m \<in> set (maturity_schedules (sys_db s)) \<and> ms_InvestmentID m \<in> inv_ID ` set (investments (sys_db s))
    \<and> ms_MaturesAt m \<le> pg_now E \<and> \<not> row_locked E (ms_ID m)"
  shows "(\<exists>js. settlement_jobs (sys_db s2) = settlement_jobs (sys_db s1) @ js \<and> n' = int (length js)
      \<and> (\<forall>j \<in> set js. \<exists>m \<in> set (maturity_schedules (sys_db s1)). sj_MaturityScheduleID j = ms_ID m \<and> \<not> has_job (sys_db s1) m \<and> \<not> seen m))
    \<and> ((\<forall>m \<in> set (maturity_schedules (sys_db s1)). maturity_due E' m \<longrightarrow> seen m) \<longrightarrow> n' = 0 \<and> sys_db s2 = sys_db s1)"
  using assms(4)
proof (cases rule: Enqueue_applied)
  case second: (applied due' js u' k')
  have found: "has_job (sys_db s1) m" if m: "seen m" "maturity_due E' m" for m
    using assms(2)
  proof (cases rule: Enqueue_applied)
    case (applied due js u k)
    obtain v where "(m, v) \<in> set due"
      using m unfolding due_rows [OF applied(1)] seen_def by (auto simp: maturity_due_def)
    with applied(2) have "has_job (sys_db s') m" by (auto simp: enqueued_def)
    with engine_run_history [OF assms(3) Enqueue_reachable [OF assms(2,1)]] has_job_history show ?thesis by blast
  qed simp
  have new: "\<exists>m \<in> set (maturity_schedules (sys_db s1)). sj_MaturityScheduleID j = ms_ID m \<and> maturity_due E' m
      \<and> \<not> has_job (sys_db s1) m \<and> \<not> seen m" if "j \<in> set js" for j
  proof -
    obtain m v where "(m, v) \<in> set due'" "job_for S' E' (m, v) j" "\<not> has_job (sys_db s1) m"
      using second(2) \<open>j \<in> set js\<close> unfolding enqueued_def by fastforce
    then show ?thesis using found [of m] job_for_fields(1) unfolding due_rows [OF second(1)] by blast
  qed
  have "n' = int (length js)" using second(3,4) by simp
  moreover have "js = []" if "\<forall>m \<in> set (maturity_schedules (sys_db s1)). maturity_due E' m \<longrightarrow> seen m"
    using new that by (metis list.set_intros(1) neq_Nil_conv)
  moreover obtain es where "sys_db s2 = (sys_db s1)\<lparr>settlement_jobs := settlement_jobs (sys_db s1) @ js, audit_events := audit_events (sys_db s1) @ es\<rparr>"
      "list_all2 (\<lambda>j e. ae_Action e = ActionSettlementJobCreated \<and> ae_EntityID e = sj_ID j) js es"
    using second(2) unfolding enqueued_def by blast
  moreover have "\<forall>j \<in> set js. \<exists>m \<in> set (maturity_schedules (sys_db s1)). sj_MaturityScheduleID j = ms_ID m \<and> \<not> has_job (sys_db s1) m \<and> \<not> seen m"
    using new by blast
  ultimately show ?thesis by (intro conjI exI [of _ js] impI) (simp_all add: list_all2_Nil)
qed simp

text \<open>The second scan of the sample system runs an hour later.\<close>

definition hour_later :: tx_env where
  "hour_later = (demo_env 1)\<lparr>pg_now := 1003600 * Second\<rparr>"

lemma hour_later_simps [simp]:
  "pg_now hour_later = 1003600 * Second" "\<not> begin_fault hour_later" "\<not> stmt_fault hour_later k" "commit_outcome hour_later = CommitOk"
  "\<not> row_locked hour_later i"
  by (simp_all add: hour_later_def)

lemma demo_rescan:
  assumes "sys_db s = sys_db (demo_sys1 p)"
  shows "EnqueueDueMaturities (sc_orchestrator (en_scheduler demo_engine)) hour_later s = (Inr 0, s)"
proof -
  let ?d = "sys_db (demo_sys1 p)" and ?S = "sc_orchestrator (en_scheduler demo_engine)"
  have due: "ListDueMaturitySchedules hour_later u ?d = Rows [(demo_maturity, demo_investment p)] ?d" for u
    by (simp add: ListDueMaturitySchedules_def demo_sys1_def demo_db_def maturity_due_def demo_maturity_def demo_investment_def)
  have get: "GetSettlementJobByMaturityScheduleID (cj_MaturityScheduleID (job_params ?S demo_maturity (demo_investment p) demo_breakdown)) E u ?d
      = Rows demo_job ?d" for E u
    by (simp add: GetSettlementJobByMaturityScheduleID_def demo_sys1_def demo_job_def job_params_def demo_maturity_def)
  show ?thesis
    using assms by (cases s) (simp add: EnqueueDueMaturities_def enqueue_body_def enqueue_one_def run_defs MaturityRepo_ListDue_def
        due Let_def demo_calculate SettlementJobRepo_CreateIdempotent_def get)
qed

theorem Enqueue_rescan_idempotent_witness:
  "\<exists>s' s''. EnqueueDueMaturities (sc_orchestrator (en_scheduler demo_engine)) (demo_env 0) (demo_sys None) = (Inr 1, s')
     \<and> pg_now (demo_env 0) < pg_now hour_later
     \<and> EnqueueDueMaturities (sc_orchestrator (en_scheduler demo_engine)) hour_later s' = (Inr 0, s'') \<and> sys_db s'' = sys_db s'"
proof -
  obtain s' where s': "EnqueueDueMaturities (sc_orchestrator (en_scheduler demo_engine)) (demo_env 0) (demo_sys None) = (Inr 1, s')"
      "sys_db s' = sys_db (demo_sys1 None)"
    using demo_enqueue [of "sys_proc (demo_sys None)" None] by auto
  obtain k s'' where s'': "EnqueueDueMaturities (sc_orchestrator (en_scheduler demo_engine)) hour_later s' = (Inr k, s'')"
    using demo_rescan [OF s'(2)] by blast
  have "\<forall>m \<in> set (maturity_schedules (sys_db s')). m \<in> set (maturity_schedules (sys_db (demo_sys None)))
      \<and> ms_InvestmentID m \<in> inv_ID ` set (investments (sys_db (demo_sys None))) \<and> ms_MaturesAt m \<le> pg_now (demo_env 0) \<and> \<not> row_locked (demo_env 0) (ms_ID m)"
    by (simp add: s'(2) demo_sys1_def demo_sys_def demo_db_def demo_maturity_def demo_investment_def)
  with Enqueue_rescan_idempotent [OF demo_reachable(1) s'(1) engine_run.run_refl s''] have "k = 0 \<and> sys_db s'' = sys_db s'" by blast
  with s'(1) s'' show ?thesis by auto
qed

text \<open>
  C39. One bad investment stops the scan: when the calculator refuses the terms of any maturity that is due, the scan
  fails and creates no job for any other maturity either, at every tick.
\<close>

theorem Enqueue_all_or_nothing:
  assumes "m \<in> set (maturity_schedules (sys_db s))" "v \<in> set (investments (sys_db s))" "inv_ID v = ms_InvestmentID m"
    "maturity_due E m" "\<not> row_locked E (ms_ID m)" "Calculate (or_lib S) (or_calc S) (investment_terms v) = Inl err"
  shows "\<exists>e s'. EnqueueDueMaturities S E s = (Inl e, s') \<and> sys_db s' = sys_db s"
proof -
  obtain r s' where run: "EnqueueDueMaturities S E s = (r, s')" by fastforce
  then show ?thesis
  proof (cases rule: Enqueue_applied)
    case (applied due js u n)
    have "(m, v) \<in> set due" using assms unfolding due_rows [OF applied(1)] by simp
    with applied(2) assms(6) show ?thesis by (auto simp: enqueued_def)
  qed (use run in auto)
qed

theorem Enqueue_all_or_nothing_witness:
  "\<exists>e s'. EnqueueDueMaturities (orchestrator_New demo_lib demo_svc 5) (demo_env 0)
      (empty_sys\<lparr>sys_db := empty_db\<lparr>investments := [(demo_investment None)\<lparr>inv_TermDays := 0\<rparr>], maturity_schedules := [demo_maturity]\<rparr>\<rparr>) = (Inl e, s')
    \<and> sys_db s' = empty_db\<lparr>investments := [(demo_investment None)\<lparr>inv_TermDays := 0\<rparr>], maturity_schedules := [demo_maturity]\<rparr>"
proof -
  let ?v = "(demo_investment None)\<lparr>inv_TermDays := 0\<rparr>"
  let ?s = "empty_sys\<lparr>sys_db := empty_db\<lparr>investments := [?v], maturity_schedules := [demo_maturity]\<rparr>\<rparr>"
  have "\<exists>err. Calculate (or_lib (orchestrator_New demo_lib demo_svc 5)) (or_calc (orchestrator_New demo_lib demo_svc 5))
      (investment_terms ?v) = Inl err"
    by (simp add: Calculate_def InvestmentTerms_Validate_def investment_terms_def demo_investment_def demo_terms_def
        ValidatePrincipal_def ValidateBasisPoints_def ValidateTermDays_def orchestrator_New_def)
  then obtain err where err: "Calculate (or_lib (orchestrator_New demo_lib demo_svc 5)) (or_calc (orchestrator_New demo_lib demo_svc 5))
      (investment_terms ?v) = Inl err" by blast
  show ?thesis
    using Enqueue_all_or_nothing [OF _ _ _ _ _ err, of demo_maturity ?s "demo_env 0"]
    by (simp add: maturity_due_def demo_maturity_def demo_investment_def)
qed

section \<open>The ledger\<close>

text \<open>
  C3. The balance check decides the posting: for a breakdown whose amounts conserve money and whose
  total fits in 64 bits, the four lines balance, and the check accepts them exactly when the platform fee and the
  withholding tax are both positive; a zero fee or tax is refused as a line without an amount.
\<close>

theorem posting_accepted_iff:
  assumes "in_int64 (bd_PrincipalCents b + bd_GrossReturnCents b)" "breakdown_amounts_ok b"
  shows "validateBalanced (buildPostingLines L investor b) =
     (if bd_PlatformFeeCents b > 0 \<and> bd_WithholdingTaxCents b > 0 then Inr ()
      else Inl (Errorf ''ledger line amount must be positive'' []))"
  using validateBalanced_four [OF assms] assms(2) by (auto simp: amounts_ok_def)

theorem posting_accepted_iff_witness:
  "validateBalanced (buildPostingLines demo_lib 2 demo_breakdown) = Inr ()
   \<and> validateBalanced (buildPostingLines demo_lib 2 (demo_breakdown\<lparr>bd_PlatformFeeCents := 0, bd_NetPayoutCents := 1068120\<rparr>))
     = Inl (Errorf ''ledger line amount must be positive'' [])"
  using posting_accepted_iff [of demo_breakdown demo_lib 2]
    posting_accepted_iff [of "demo_breakdown\<lparr>bd_PlatformFeeCents := 0, bd_NetPayoutCents := 1068120\<rparr>" demo_lib 2]
  by (simp add: demo_breakdown_def amounts_ok_def in_int64_def)

text \<open>
  C22. Posting is idempotent and balanced: a posting that returns entries either found the entries of the job and
  changed no table, or there were none and it appended exactly the returned four, all of the job and in its entry group, with
  debits and credits both equal to principal plus gross return.
\<close>

theorem PostSettlement_once:
  assumes "PostSettlement L E input st = (Inr es, st')" "ledger_ok (tx_db st)"
    and "in_int64 (bd_PrincipalCents (ps_Breakdown input) + bd_GrossReturnCents (ps_Breakdown input))"
    and "breakdown_amounts_ok (ps_Breakdown input)"
  shows "if entries_of (tx_db st) (ps_JobID input) = []
    then ledger_entries (tx_db st') = ledger_entries (tx_db st) @ es \<and> length es = 4
      \<and> (\<forall>e \<in> set es. le_SettlementJobID e = ps_JobID input \<and> le_EntryGroupID e = EntryGroupIDFromJob L (ps_JobID input))
      \<and> side_total ''D'' es = bd_PrincipalCents (ps_Breakdown input) + bd_GrossReturnCents (ps_Breakdown input)
      \<and> side_total ''C'' es = bd_PrincipalCents (ps_Breakdown input) + bd_GrossReturnCents (ps_Breakdown input)
    else tx_db st' = tx_db st \<and> mset es = mset (entries_of (tx_db st) (ps_JobID input))"
proof (cases "entries_of (tx_db st) (ps_JobID input) = []")
  case True
  from PostSettlement_ok(4) [OF assms(1,2)] True
  have s: "ledger_step (tx_db st) es (tx_db st')"
      "settlement_entries L (tx_db st') (ps_JobID input) (ps_InvestorID input) (ps_Breakdown input) es"
    by (simp_all add: posting_outcome_def)
  have "\<forall>e \<in> set es. le_SettlementJobID e = ps_JobID input \<and> le_EntryGroupID e = EntryGroupIDFromJob L (ps_JobID input)"
    using s(2) by (auto simp: settlement_entries_def posted_def list_all2_conv_all_nth in_set_conv_nth)
  with True s(1) settlement_entries_amounts [OF s(2) assms(3,4)] show ?thesis by (auto simp: ledger_step_def)
next
  case False
  with PostSettlement_ok(4) [OF assms(1,2)] show ?thesis by (simp add: posting_outcome_def)
qed

lemma demo_posting_run:
  "\<exists>es st. PostSettlement scenario_lib (demo_env 1) \<lparr>ps_JobID = 102, ps_InvestorID = 2, ps_Breakdown = demo_breakdown\<rparr>
     (begin_tx (demo_sys1 None)) = (Inr es, st)"
  by (simp add: demo_worker demo_rows demo_posting demo_breakdown_def)

theorem PostSettlement_once_witness:
  "\<exists>es st. PostSettlement scenario_lib (demo_env 1) \<lparr>ps_JobID = 102, ps_InvestorID = 2, ps_Breakdown = demo_breakdown\<rparr>
     (begin_tx (demo_sys1 None)) = (Inr es, st) \<and> ledger_entries (tx_db st) = es \<and> side_total ''C'' es = 1080000"
proof -
  obtain es st where run: "PostSettlement scenario_lib (demo_env 1) \<lparr>ps_JobID = 102, ps_InvestorID = 2, ps_Breakdown = demo_breakdown\<rparr>
     (begin_tx (demo_sys1 None)) = (Inr es, st)" using demo_posting_run by blast
  have l: "ledger_ok (tx_db (begin_tx (demo_sys1 None)))" "ledger_entries (sys_db (demo_sys1 None)) = []"
    by (simp_all add: ledger_ok_def demo_sys1_def demo_db_def)
  have "in_int64 (bd_PrincipalCents demo_breakdown + bd_GrossReturnCents demo_breakdown)" "breakdown_amounts_ok demo_breakdown"
      "bd_PrincipalCents demo_breakdown + bd_GrossReturnCents demo_breakdown = 1080000"
    by (simp_all add: demo_breakdown_def amounts_ok_def in_int64_def)
  with PostSettlement_once [OF run l(1)] l(2) run show ?thesis by (auto simp: entries_of_def)
qed

lemma sum_sides_pos: "sum_sides c d lines = Inr r \<Longrightarrow> \<forall>l \<in> set lines. 0 < li_AmountCents l"
  by (induction lines arbitrary: c d) (auto split: if_splits)

lemma validateBalanced_pos:
  assumes "validateBalanced (buildPostingLines L i b) = Inr ()"
  shows "0 < bd_PlatformFeeCents b" "0 < bd_WithholdingTaxCents b"
proof -
  from assms obtain r where "sum_sides 0 0 (buildPostingLines L i b) = Inr r"
    by (auto simp: validateBalanced_def split: sum.splits)
  note sum_sides_pos [OF this]
  then show "0 < bd_PlatformFeeCents b" "0 < bd_WithholdingTaxCents b"
    by (simp_all add: buildPostingLines_def Let_def)
qed

lemma ProcessOne_paid_or_error:
  assumes "schema_ok (sys_db s)" "claim_candidate E (sys_db s) = Some j"
    and "\<And>i. ei_JobID i = sj_ID j \<Longrightarrow> pr_Err (wp_gateway P i) = None"
  obtains (error) e s' where "ProcessOne P E w s = (Inl e, s')" "sys_db s' = sys_db s"
  | (paid) v a r s' where "ProcessOne P E w s = (r, s')" "paid P E w (sys_db s) j v a (sys_db s')"
proof -
  obtain r s' where run: "WithTx E (process_body P E w) s = (r, s')" by fastforce
  then show thesis
  proof (cases rule: WithTx_cases)
    case (unchanged e)
    with run that(1) show thesis by (simp add: ProcessOne_def)
  next
    case (applied x st)
    have "schema_ok (tx_db (begin_tx s))" "process_body P E w (begin_tx s) = (Inr (), st)"
      using assms(1) applied(1) by simp_all
    from process_body_ok [OF this(2,1), unfolded begin_tx_simps applied(3) [symmetric]]
    obtain j1 v a where f: "flight_ok E (sys_db s) j1 v a"
        and o: "if pr_Err (wp_gateway P (execute_input j1 v a)) = None then paid P E w (sys_db s) j1 v a (sys_db s')
              else errored P E w (sys_db s) j1 v a (sys_db s')" by metis
    from f assms(2) have j1: "j1 = j" by (simp add: flight_ok_def)
    moreover have "pr_Err (wp_gateway P (execute_input j v a)) = None" by (rule assms(3)) (simp add: execute_input_def)
    ultimately have "paid P E w (sys_db s) j v a (sys_db s')" using o by simp
    with run that(2) show thesis by (simp add: ProcessOne_def)
  qed
qed

text \<open>
  C36. A zero fee blocks the queue: a job without ledger entries whose platform fee or withholding tax is zero, and
  whose payout goes through, can never be settled. Every worker that claims it is refused by the ledger after calling the
  gateway and rolls back, so the job keeps its place at the head of the queue with no retry counted and is claimed again.
\<close>

theorem zero_fee_blocks_queue:
  assumes "schema_ok (sys_db s)" "claim_candidate E (sys_db s) = Some j" "entries_of (sys_db s) (sj_ID j) = []"
    and "sj_PlatformFeeCents j = 0 \<or> sj_WithholdingTaxCents j = 0"
    and "\<And>i. ei_JobID i = sj_ID j \<Longrightarrow> pr_Err (wp_gateway P i) = None"
  shows "\<exists>e s'. ProcessOne P E w s = (Inl e, s') \<and> sys_db s' = sys_db s \<and> claim_candidate E (sys_db s') = Some j"
proof (rule ProcessOne_paid_or_error [OF assms(1,2,5)])
  fix v a r s' assume "paid P E w (sys_db s) j v a (sys_db s')"
  then have "validateBalanced (buildPostingLines (wp_lib P) (inv_InvestorID v) (job_breakdown j (inv_Currency v))) = Inr ()"
    using assms(3) by (auto simp: paid_def Let_def)
  from validateBalanced_pos [OF this] assms(4) show ?thesis by (simp add: job_breakdown_def)
qed (use assms(2) in auto)

definition zero_fee_job :: SettlementJob where
  "zero_fee_job = demo_job\<lparr>sj_PlatformFeeCents := 0, sj_NetPayoutCents := 1068120\<rparr>"

definition zero_fee_sys :: sys where
  "zero_fee_sys = (demo_sys1 None)\<lparr>sys_db := (sys_db (demo_sys1 None))\<lparr>settlement_jobs := [zero_fee_job]\<rparr>\<rparr>"

theorem zero_fee_blocks_queue_witness:
  "\<exists>e s'. ProcessOne (en_processor demo_engine\<lparr>wp_gateway := (\<lambda>i. \<lparr>pr_PayoutReference = ''ref'', pr_ErrorClass = ErrorClassRaw [], pr_Err = None\<rparr>)\<rparr>)
      (demo_env 1) ''w'' zero_fee_sys = (Inl e, s') \<and> sys_db s' = sys_db zero_fee_sys"
proof -
  have d: "sys_db zero_fee_sys = (demo_db None)\<lparr>settlement_jobs := [zero_fee_job], audit_events := [demo_created]\<rparr>"
    by (simp add: zero_fee_sys_def demo_sys1_def)
  have ok: "schema_ok (sys_db zero_fee_sys)"
    unfolding d by (simp add: schema_ok_def jobs_ok_def maturities_ok_def attempts_ok_def ledger_ok_def ops_ok_def demo_db_def
      demo_investment_def demo_maturity_def demo_terms_def zero_fee_job_def demo_job_def job_checks_def job_range_def in_int64_def)
  have c: "claim_candidate (demo_env 1) (sys_db zero_fee_sys) = Some zero_fee_job"
    unfolding d by (simp add: claim_candidate_def claimable_def zero_fee_job_def demo_job_def)
  have e: "entries_of (sys_db zero_fee_sys) (sj_ID zero_fee_job) = []" unfolding d by (simp add: entries_of_def demo_db_def)
  show ?thesis
    using zero_fee_blocks_queue [OF ok c e, of "en_processor demo_engine\<lparr>wp_gateway := (\<lambda>i. \<lparr>pr_PayoutReference = ''ref'',
      pr_ErrorClass = ErrorClassRaw [], pr_Err = None\<rparr>)\<rparr>" "''w''"] by (auto simp: zero_fee_job_def)
qed

section \<open>Reconciliation\<close>

lemma total_net_nonneg: "(\<And>j. j \<in> set js \<Longrightarrow> 0 \<le> sj_NetPayoutCents j) \<Longrightarrow> 0 \<le> total_net js"
  by (induction js) (auto simp: total_net_def)

lemma snapshot_stats:
  assumes "ReconciliationService_RunSnapshot E s = (Inr (x, flags), s')"
  obtains st1 st2 stats u where "AggregateSettlementJobStats E u (sys_db s) = Rows stats (sys_db s)"
    "rs_ExpectedJobCount x = ag_TotalJobCount stats" "rs_SucceededCount x = ag_SucceededCount stats"
    "rs_PendingCount x = ag_PendingCount stats" "rs_FailedCount x = ag_FailedCount stats"
    "rs_DeadLetterCount x = ag_DeadLetterCount stats"
    "rs_DiscrepancyCents x = wrap64 (ag_ExpectedTotalCents stats - ag_SucceededTotalCents stats)"
    "FlagsForSnapshot E x st1 = (Inr flags, st2)"
    "tx_db st1 = (sys_db s)\<lparr>reconciliation_snapshots := reconciliation_snapshots (sys_db s) @ [x]\<rparr>" "sys_db s' = tx_db st1"
proof -
  from assms obtain st2 where run: "snapshot_body E (begin_tx s) = (Inr (x, flags), st2)" "sys_db s' = tx_db st2"
    by (auto simp: ReconciliationService_RunSnapshot_def WithTx_Inr)
  from run(1) obtain st1 where c: "ReconciliationRepo_CreateSnapshot E (begin_tx s) = (Inr x, st1)"
      and f: "FlagsForSnapshot E x st1 = (Inr flags, st2)" by (auto elim: snapshot_body_ok)
  from CreateSnapshot_ok [OF c, unfolded begin_tx_simps] obtain stats u u' where
      "AggregateSettlementJobStats E u (sys_db s) = Rows stats (sys_db s)"
      "x = new_snapshot \<lparr>cr_ExpectedJobCount = ag_TotalJobCount stats, cr_ExpectedTotalCents = ag_ExpectedTotalCents stats,
        cr_SucceededCount = ag_SucceededCount stats, cr_SucceededTotalCents = ag_SucceededTotalCents stats,
        cr_PendingCount = ag_PendingCount stats, cr_FailedCount = ag_FailedCount stats,
        cr_DeadLetterCount = ag_DeadLetterCount stats,
        cr_DiscrepancyCents = wrap64 (ag_ExpectedTotalCents stats - ag_SucceededTotalCents stats), cr_Details = rs_Details x\<rparr> E u'"
      "tx_db st1 = (sys_db s)\<lparr>reconciliation_snapshots := reconciliation_snapshots (sys_db s) @ [x]\<rparr>" by blast
  note x = this(2) and r = this(1,3)
  have "rs_ExpectedJobCount x = ag_TotalJobCount stats" "rs_SucceededCount x = ag_SucceededCount stats"
    "rs_PendingCount x = ag_PendingCount stats" "rs_FailedCount x = ag_FailedCount stats"
    "rs_DeadLetterCount x = ag_DeadLetterCount stats"
    "rs_DiscrepancyCents x = wrap64 (ag_ExpectedTotalCents stats - ag_SucceededTotalCents stats)"
    by (subst x, simp add: new_snapshot_def)+
  with r f run(2) FlagsForSnapshot_ok(1) [OF f] show thesis by (intro that [of u stats st1 st2]) simp_all
qed

lemma inv_no_ledger_flags:
  assumes "engine_inv L d" "FlagsForSnapshot E x st = (Inr flags, st')"
    and "settlement_jobs (tx_db st) = settlement_jobs d" "ledger_entries (tx_db st) = ledger_entries d"
  shows "FlagMissingLedger \<notin> set flags \<and> FlagOrphanLedger \<notin> set flags"
proof -
  have "sj_Status j = SettlementJobStatusSucceeded \<longleftrightarrow> has_entries d (sj_ID j)" if "j \<in> set (settlement_jobs d)" for j
    using inv_entries_iff [OF assms(1) that] by (auto simp: has_entries_def entries_of_def filter_empty_conv)
  moreover have "\<exists>j \<in> set (settlement_jobs d). sj_ID j = le_SettlementJobID e" if "e \<in> set (ledger_entries d)" for e
    using assms(1) that by (force simp: engine_inv_def schema_ok_def ledger_ok_def)
  ultimately show ?thesis
    unfolding FlagsForSnapshot_ok(3,4) [OF assms(2)] assms(3,4) by (fastforce simp: has_entries_def assms(4))
qed

text \<open>
  C31. A snapshot adds up: taken in a reachable state, its pending, failed, dead and succeeded counts sum to the
  number of jobs, its discrepancy is exactly the net payout of the jobs that are not settled, and the ledger flags are never raised:
  no succeeded job lacks entries and no entries belong to a job that has not succeeded.
\<close>

theorem snapshot_adds_up:
  assumes "reachable G s" "ReconciliationService_RunSnapshot E s = (Inr (x, flags), s')"
  shows "rs_PendingCount x + rs_FailedCount x + rs_DeadLetterCount x + rs_SucceededCount x = int (length (settlement_jobs (sys_db s)))
    \<and> rs_ExpectedJobCount x = int (length (settlement_jobs (sys_db s)))
    \<and> rs_DiscrepancyCents x = total_net (filter (\<lambda>j. sj_Status j \<noteq> SettlementJobStatusSucceeded) (settlement_jobs (sys_db s)))
    \<and> FlagMissingLedger \<notin> set flags \<and> FlagOrphanLedger \<notin> set flags
    \<and> sys_db s' = (sys_db s)\<lparr>reconciliation_snapshots := reconciliation_snapshots (sys_db s) @ [x]\<rparr>"
proof -
  let ?js = "settlement_jobs (sys_db s)" and ?d' = "sys_db s'"
  let ?un = "filter (\<lambda>j. sj_Status j \<noteq> SettlementJobStatusSucceeded) ?js"
  let ?su = "filter (\<lambda>j. sj_Status j = SettlementJobStatusSucceeded) ?js"
  have inv: "engine_inv (wp_lib (en_processor G)) (sys_db s)" by (rule reachable_inv [OF assms(1)])
  obtain st1 st2 stats u where agg: "AggregateSettlementJobStats E u (sys_db s) = Rows stats (sys_db s)"
    and x: "rs_ExpectedJobCount x = ag_TotalJobCount stats" "rs_SucceededCount x = ag_SucceededCount stats"
    "rs_PendingCount x = ag_PendingCount stats" "rs_FailedCount x = ag_FailedCount stats"
    "rs_DeadLetterCount x = ag_DeadLetterCount stats"
    "rs_DiscrepancyCents x = wrap64 (ag_ExpectedTotalCents stats - ag_SucceededTotalCents stats)"
    and f: "FlagsForSnapshot E x st1 = (Inr flags, st2)"
    and d: "tx_db st1 = (sys_db s)\<lparr>reconciliation_snapshots := reconciliation_snapshots (sys_db s) @ [x]\<rparr>" "?d' = tx_db st1"
    by (rule snapshot_stats [OF assms(2)])
  from agg have st: "ag_TotalJobCount stats = int (length ?js)" "ag_SucceededCount stats = count_status SettlementJobStatusSucceeded (sys_db s)"
      "ag_PendingCount stats = count_status SettlementJobStatusPending (sys_db s)"
      "ag_FailedCount stats = count_status SettlementJobStatusFailed (sys_db s)"
      "ag_DeadLetterCount stats = count_status SettlementJobStatusDeadLetter (sys_db s)"
      "ag_ExpectedTotalCents stats = total_net ?js" "ag_SucceededTotalCents stats = total_net ?su" "in_int64 (total_net ?js)"
    by (auto simp: AggregateSettlementJobStats_def Let_def split: if_splits)
  have "count_status SettlementJobStatusProcessing (sys_db s) = 0"
    using inv by (auto simp: count_status_def engine_inv_def job_inv_def filter_empty_conv)
  with count_status_total [of "sys_db s"] x st
  have counts: "rs_PendingCount x + rs_FailedCount x + rs_DeadLetterCount x + rs_SucceededCount x = int (length ?js)" by simp
  have nn: "0 \<le> sj_NetPayoutCents j" if "j \<in> set ?js" for j
    using inv that by (auto simp: engine_inv_def schema_ok_def jobs_ok_def job_checks_def)
  have split: "total_net ?js = total_net ?su + total_net ?un"
    using total_net_split [of ?js "\<lambda>j. sj_Status j = SettlementJobStatusSucceeded"] by simp
  have "0 \<le> total_net ?su" "0 \<le> total_net ?un" using nn by (auto intro: total_net_nonneg)
  with st(8) split have "in_int64 (total_net ?un)" by (auto simp: in_int64_def)
  then have disc: "rs_DiscrepancyCents x = total_net ?un" using x(6) st(6,7) split by (simp add: wrap64_id)
  have "FlagMissingLedger \<notin> set flags \<and> FlagOrphanLedger \<notin> set flags"
    using inv_no_ledger_flags [OF inv f] by (simp add: d(1))
  with counts disc x(1) st(1) d show ?thesis by simp
qed

lemma demo_snapshot:
  "\<exists>x flags s'. ReconciliationService_RunSnapshot (demo_env 2) (demo_sys1 None) = (Inr (x, flags), s')"
  by (simp add: ReconciliationService_RunSnapshot_def run_defs snapshot_body_def recon_RunSnapshot_def
      ReconciliationRepo_CreateSnapshot_def FlagsForSnapshot_def ReconciliationRepo_FlagCounts_def Let_def
      AggregateSettlementJobStats_def CreateReconciliationSnapshot_def CountSucceededJobsWithoutLedger_def
      CountOrphanLedgerJobGroups_def CountStalePendingJobs_def int_count_def count_status_def total_net_def new_snapshot_def
      demo_sys1_def demo_db_def demo_job_def in_int32_def in_int64_def)

theorem snapshot_adds_up_witness:
  "\<exists>x flags s'. ReconciliationService_RunSnapshot (demo_env 2) (demo_sys1 None) = (Inr (x, flags), s')
     \<and> rs_DiscrepancyCents x = 1067320 \<and> FlagMissingLedger \<notin> set flags"
proof -
  obtain x flags s' where run: "ReconciliationService_RunSnapshot (demo_env 2) (demo_sys1 None) = (Inr (x, flags), s')"
    using demo_snapshot by blast
  have "total_net (filter (\<lambda>j. sj_Status j \<noteq> SettlementJobStatusSucceeded) (settlement_jobs (sys_db (demo_sys1 None)))) = 1067320"
    by (simp add: total_net_def demo_sys1_def demo_job_def)
  with snapshot_adds_up [OF demo_reachable(2) run] run show ?thesis by auto
qed

section \<open>Administrative requests\<close>

definition admin_sys :: "SettlementJobStatus \<Rightarrow> sys" where
  "admin_sys st = (demo_sys1 None)\<lparr>sys_db := (sys_db (demo_sys1 None))\<lparr>settlement_jobs := [demo_job\<lparr>sj_Status := st, sj_RetryCount := 4,
     sj_LastError := Some ''timeout'', sj_NextRetryAt := Some (2000000 * Second), sj_DeadLetterReason := Some ''max retries exceeded''\<rparr>]\<rparr>\<rparr>"

lemmas admin_run = run_defs SettlementJobRepo_GetByID_def GetSettlementJobByID_def SettlementJobRepo_ReplayDeadLetter_def
  SettlementJobRepo_RequeueFailed_def ReplayDeadLetterJob_def RequeueFailedJob_def update_job_def replace_job_def job_replayed_def
  job_requeued_def job_checks_def Publish_def admin_event_def AuditRepo_Record_def CreateAuditEvent_def new_audit_event_def
  audit_names admin_sys_def demo_sys1_def demo_db_def demo_job_def demo_created_def in_int32_def

text \<open>
  C32. Replay: a replay that succeeds found the job dead, returns it pending with its error and its retry time
  cleared, keeps its retry count and its amounts, and appends one audit event of the actor; no other job changes.
\<close>

theorem ReplayDeadLetter_transition:
  assumes "SettlementService_ReplayDeadLetter E i actor corr s = (Inr job, s')"
  shows "\<exists>j v. j \<in> set (settlement_jobs (sys_db s)) \<and> sj_ID j = i \<and> sj_Status j = SettlementJobStatusDeadLetter
    \<and> sj_Status job = SettlementJobStatusPending \<and> sj_NextRetryAt job = None \<and> sj_LastError job = None \<and> sj_DeadLetterReason job = None
    \<and> sj_RetryCount job = sj_RetryCount j \<and> sj_NetPayoutCents job = sj_NetPayoutCents j
    \<and> ae_Action v = ActionSettlementJobReplayed \<and> ae_ActorID v = actor \<and> ae_EntityID v = i
    \<and> sys_db s' = (replace_job job (sys_db s))\<lparr>audit_events := audit_events (sys_db s) @ [v]\<rparr>"
proof -
  from assms obtain st where "replay_body E i actor corr (begin_tx s) = (Inr job, st)" "sys_db s' = tx_db st"
    by (auto simp: SettlementService_ReplayDeadLetter_def WithTx_Inr)
  from replay_body_ok [OF this(1), unfolded begin_tx_simps this(2) [symmetric]] obtain j v where
      "j \<in> set (settlement_jobs (sys_db s))" "sj_ID j = i" "sj_Status j = SettlementJobStatusDeadLetter"
      "job = job_replayed E j" "ae_Action v = ActionSettlementJobReplayed" "ae_ActorID v = actor" "ae_EntityID v = i"
      "sys_db s' = (replace_job (job_replayed E j) (sys_db s))\<lparr>audit_events := audit_events (sys_db s) @ [v]\<rparr>" .
  then show ?thesis by (intro exI [of _ j] exI [of _ v]) (simp add: job_replayed_def)
qed

lemma demo_replay:
  "\<exists>job s'. SettlementService_ReplayDeadLetter (demo_env 2) 102 ''admin'' ''c'' (admin_sys SettlementJobStatusDeadLetter) = (Inr job, s')"
  by (simp add: SettlementService_ReplayDeadLetter_def replay_body_def admin_run)

theorem ReplayDeadLetter_transition_witness:
  "\<exists>job s'. SettlementService_ReplayDeadLetter (demo_env 2) 102 ''admin'' ''c'' (admin_sys SettlementJobStatusDeadLetter) = (Inr job, s')
     \<and> sj_Status job = SettlementJobStatusPending \<and> sj_RetryCount job = 4"
proof -
  obtain job s' where run: "SettlementService_ReplayDeadLetter (demo_env 2) 102 ''admin'' ''c'' (admin_sys SettlementJobStatusDeadLetter) = (Inr job, s')"
    using demo_replay by blast
  from ReplayDeadLetter_transition [OF run] have "sj_Status job = SettlementJobStatusPending \<and> sj_RetryCount job = 4"
    by (auto simp: admin_sys_def)
  with run show ?thesis by blast
qed

text \<open>
  Requeue: a requeue that succeeds found the job failed, returns it pending and claimable at once, keeps its
  retry count, its last error and its amounts, and appends one audit event of the actor; no other job changes.
\<close>

theorem RequeueFailed_transition:
  assumes "SettlementService_RequeueFailed E i actor corr s = (Inr job, s')"
  shows "\<exists>j v. j \<in> set (settlement_jobs (sys_db s)) \<and> sj_ID j = i \<and> sj_Status j = SettlementJobStatusFailed
    \<and> sj_Status job = SettlementJobStatusPending \<and> (\<forall>E'. claimable E' job)
    \<and> sj_RetryCount job = sj_RetryCount j \<and> sj_LastError job = sj_LastError j \<and> sj_NetPayoutCents job = sj_NetPayoutCents j
    \<and> ae_ActorID v = actor \<and> ae_EntityID v = i
    \<and> sys_db s' = (replace_job job (sys_db s))\<lparr>audit_events := audit_events (sys_db s) @ [v]\<rparr>"
proof -
  from assms obtain st where "requeue_body E i actor corr (begin_tx s) = (Inr job, st)" "sys_db s' = tx_db st"
    by (auto simp: SettlementService_RequeueFailed_def WithTx_Inr)
  from requeue_body_ok [OF this(1), unfolded begin_tx_simps this(2) [symmetric]] obtain j v where
      "j \<in> set (settlement_jobs (sys_db s))" "sj_ID j = i" "sj_Status j = SettlementJobStatusFailed"
      "job = job_requeued E j" "ae_ActorID v = actor" "ae_EntityID v = i"
      "sys_db s' = (replace_job (job_requeued E j) (sys_db s))\<lparr>audit_events := audit_events (sys_db s) @ [v]\<rparr>" .
  then show ?thesis by (intro exI [of _ j] exI [of _ v]) (simp add: job_requeued_def claimable_def)
qed

lemma demo_requeue:
  "\<exists>job s'. SettlementService_RequeueFailed (demo_env 2) 102 ''admin'' ''c'' (admin_sys SettlementJobStatusFailed) = (Inr job, s')"
  by (simp add: SettlementService_RequeueFailed_def requeue_body_def admin_run)

theorem RequeueFailed_transition_witness:
  "\<exists>job s'. SettlementService_RequeueFailed (demo_env 2) 102 ''admin'' ''c'' (admin_sys SettlementJobStatusFailed) = (Inr job, s')
     \<and> sj_RetryCount job = 4 \<and> claimable (demo_env 3) job"
proof -
  obtain job s' where run: "SettlementService_RequeueFailed (demo_env 2) 102 ''admin'' ''c'' (admin_sys SettlementJobStatusFailed) = (Inr job, s')"
    using demo_requeue by blast
  from RequeueFailed_transition [OF run] have "sj_RetryCount job = 4 \<and> claimable (demo_env 3) job"
    by (auto simp: admin_sys_def)
  with run show ?thesis by blast
qed

end
